(* ===== verification/Prelude.thy ===== *)
theory Prelude
  imports Main "HOL-Library.Word"
begin

text \<open>
  The vocabulary every component of the platform shares.

  A Go function that may fail, draws identifiers, reads the clock or talks to a database is a value
  of the type \<open>('s, 'a) go\<close>: it takes the state, returns either an error or a result, and the new
  state. The state is kept on both branches, because a Go function that returns an error does not
  undo the statements it already ran.

  What the process gets from outside is in the record \<open>rt\<close>: the identifiers \<open>uuid.New\<close> will
  draw, the readings of \<open>time.Now\<close>, the outcome of each call to the database driver, and the
  textual form of identifiers that the uuid package defines. All of them are arbitrary functions of a
  call counter; a theorem that says nothing of them holds for every clock, every identifier and
  every pattern of failures.
\<close>

section \<open>Collections of facts\<close>

named_theorems go_simps "unfolding rules of the state-and-error combinators"
named_theorems row_defs "definitions of queries and statements over the tables"

section \<open>Machine integers, identifiers, time\<close>

type_synonym i64 = "64 word"

type_synonym uuid = "128 word"

abbreviation uuid_Nil :: uuid where
  "uuid_Nil \<equiv> 0"

text \<open>Nanoseconds since the Unix epoch, in UTC.\<close>

type_synonym time = int

text \<open>The zero \<open>time.Time\<close>, the first instant of the year 1.\<close>

definition zero_Time :: time where
  "zero_Time = - 62135596800 * 10 ^ 9"

definition in_i64 :: "int \<Rightarrow> bool" where
  "in_i64 n \<longleftrightarrow> - (2 ^ 63) \<le> n \<and> n < 2 ^ 63"

lemma sint_in_i64 [simp]: "in_i64 (sint (a :: i64))"
  using sint_ge [of a] sint_lt [of a] by (simp add: in_i64_def)

lemma sint_word_of_int_i64: "in_i64 n \<Longrightarrow> sint (word_of_int n :: i64) = n"
  by (simp add: in_i64_def sint_sbintrunc' signed_take_bit_int_eq_self)

lemma i64_sint_inverse [simp]: "word_of_int (sint (a :: i64)) = a"
  by simp

lemma sint_add_i64: "in_i64 (sint a + sint b) \<Longrightarrow> sint (a + b :: i64) = sint a + sint b"
  by (simp add: in_i64_def sint_word_ariths signed_take_bit_int_eq_self)

lemma sint_add_wrap_i64:
  assumes "2 ^ 63 \<le> sint a + sint b"
  shows "sint (a + b :: i64) = sint a + sint b - 2 ^ 64"
proof -
  have hi: "sint a + sint b < 2 ^ 64"
    using sint_in_i64 [of a] sint_in_i64 [of b] by (simp add: in_i64_def)
  have "sint (a + b) = sint (word_of_int (sint a + sint b) :: i64)"
    by (simp add: wi_hom_add [symmetric])
  also have "\<dots> = (sint a + sint b + 2 ^ 63) mod 2 ^ 64 - 2 ^ 63"
    unfolding int_word_sint by simp
  also have "(sint a + sint b + 2 ^ 63) mod 2 ^ 64 = sint a + sint b + 2 ^ 63 - 2 ^ 64"
    using assms hi by (simp add: mod_pos_geq)
  finally show ?thesis by simp
qed

lemma sint_diff_i64: "in_i64 (sint a - sint b) \<Longrightarrow> sint (a - b :: i64) = sint a - sint b"
  by (simp add: in_i64_def sint_word_ariths signed_take_bit_int_eq_self)

lemma sint_of_nat_i64: "int n < 2 ^ 63 \<Longrightarrow> sint (of_nat n :: i64) = int n"
  using sint_word_of_int_i64 [of "int n"] by (simp add: in_i64_def)

section \<open>Errors\<close>

text \<open>The codes of \<open>pkg/errors\<close> and of gRPC.\<close>

datatype Code =
    CodeNotFound | CodeAlreadyExists | CodeInvalidArgument | CodePermissionDenied
  | CodeUnauthenticated | CodeInsufficientFunds | CodeConflict | CodeInternal

datatype grpc_code =
    OK | InvalidArgument | NotFound | AlreadyExists | PermissionDenied | FailedPrecondition
  | Unimplemented | Internal | Unauthenticated | CodeNumber nat

text \<open>
  A Go \<open>error\<close> value: a \<open>DomainError\<close> with the error it wraps, the status error of gRPC, a
  \<open>fmt.Errorf\<close> with \<open>%w\<close>, or any other error, known by its text.
\<close>

datatype goerr =
    DomainError (err_code: Code) (err_message: string) (err_cause: "goerr option")
  | StatusError grpc_code string
  | WrapError string goerr
  | PlainError string

section \<open>State and errors\<close>

type_synonym ('s, 'a) go = "'s \<Rightarrow> (goerr + 'a) \<times> 's"

definition go_return :: "'a \<Rightarrow> ('s, 'a) go" where
  "go_return x s = (Inr x, s)"

definition go_throw :: "goerr \<Rightarrow> ('s, 'a) go" where
  "go_throw e s = (Inl e, s)"

text \<open>\<open>x, err := m(); if err != nil { return err }; f(x)\<close>\<close>

definition go_bind :: "('s, 'a) go \<Rightarrow> ('a \<Rightarrow> ('s, 'b) go) \<Rightarrow> ('s, 'b) go" where
  "go_bind m f s = (case m s of (Inl e, s') \<Rightarrow> (Inl e, s') | (Inr x, s') \<Rightarrow> f x s')"

text \<open>\<open>x, err := m()\<close>, with both kept for the code that follows.\<close>

definition go_try :: "('s, 'a) go \<Rightarrow> ('s, goerr + 'a) go" where
  "go_try m s = (case m s of (r, s') \<Rightarrow> (Inr r, s'))"

text \<open>\<open>if err != nil { return errors.Wrap(code, msg, err) }\<close>\<close>

definition go_wrap :: "Code \<Rightarrow> string \<Rightarrow> ('s, 'a) go \<Rightarrow> ('s, 'a) go" where
  "go_wrap c msg m s =
     (case m s of (Inl e, s') \<Rightarrow> (Inl (DomainError c msg (Some e)), s') | (Inr x, s') \<Rightarrow> (Inr x, s'))"

definition go_gets :: "('s \<Rightarrow> 'a) \<Rightarrow> ('s, 'a) go" where
  "go_gets f s = (Inr (f s), s)"

lemmas go_combinators = go_return_def go_throw_def go_bind_def go_try_def go_wrap_def go_gets_def
declare go_combinators [go_simps]

lemma go_bind_return [simp]: "go_bind (go_return x) f = f x"
  by (rule ext) (simp add: go_simps)

lemma go_bind_throw [simp]: "go_bind (go_throw e) f = go_throw e"
  by (rule ext) (simp add: go_simps)

lemma go_bind_gets: "go_bind (go_gets f) k s = k (f s) s"
  by (simp add: go_combinators)

lemma go_bind_assoc: "go_bind (go_bind m f) g = go_bind m (\<lambda>x. go_bind (f x) g)"
  by (rule ext) (simp add: go_simps split: prod.splits sum.splits)

lemma go_bind_InrE:
  assumes "go_bind m f s = (Inr y, s')"
  obtains x t where "m s = (Inr x, t)" and "f x t = (Inr y, s')"
  using assms by (auto simp: go_bind_def split: prod.splits sum.splits)

lemma go_bind_InlE:
  assumes "go_bind m f s = (Inl e, s')"
  obtains "m s = (Inl e, s')" | x t where "m s = (Inr x, t)" and "f x t = (Inl e, s')"
  using assms by (auto simp: go_bind_def split: prod.splits sum.splits)

lemma go_bind_return_right [simp]: "go_bind m go_return = m"
  by (rule ext) (simp add: go_simps split: prod.splits sum.splits)

text \<open>A result computed from the result.\<close>

definition go_map :: "('a \<Rightarrow> 'b) \<Rightarrow> ('s, 'a) go \<Rightarrow> ('s, 'b) go" where
  "go_map f m s = (case m s of (Inl e, s') \<Rightarrow> (Inl e, s') | (Inr x, s') \<Rightarrow> (Inr (f x), s'))"

lemma go_map_bind: "go_map f (go_bind m g) = go_bind m (\<lambda>x. go_map f (g x))"
  by (rule ext) (simp add: go_map_def go_simps split: prod.splits sum.splits)

lemma go_map_return: "go_map f (go_return x) = go_return (f x)"
  by (rule ext) (simp add: go_map_def go_simps)

text \<open>
  A relation between the state before and after that holds of every step, whatever it returns.
  Reflexive and transitive relations (frames, monotone quantities, invariants kept) pass through the
  combinators.
\<close>

definition go_rel :: "('s \<Rightarrow> 's \<Rightarrow> bool) \<Rightarrow> ('s, 'a) go \<Rightarrow> bool" where
  "go_rel R m \<longleftrightarrow> (\<forall>s. R s (snd (m s)))"

lemma go_relI: "(\<And>s. R s (snd (m s))) \<Longrightarrow> go_rel R m"
  by (simp add: go_rel_def)

lemma go_relD: "go_rel R m \<Longrightarrow> m s = (r, s') \<Longrightarrow> R s s'"
  by (metis go_rel_def snd_conv)

lemma go_rel_pure:
  assumes "reflp R"
  shows "go_rel R (go_return x)" "go_rel R (go_throw e)" "go_rel R (go_gets f)"
  using assms by (auto simp: go_rel_def go_simps dest: reflpD)

lemma go_rel_bind:
  assumes "transp R" "go_rel R m" "\<And>x. go_rel R (f x)"
  shows "go_rel R (go_bind m f)"
  unfolding go_rel_def
proof
  fix s
  obtain r t where m: "m s = (r, t)" by fastforce
  then have st: "R s t" using assms(2) by (auto dest: go_relD)
  show "R s (snd (go_bind m f s))"
  proof (cases r)
    case (Inl e)
    then show ?thesis using m st by (simp add: go_bind_def)
  next
    case (Inr x)
    have "R t (snd (f x t))" using assms(3) by (simp add: go_rel_def)
    then show ?thesis using Inr m st assms(1) by (auto simp: go_bind_def dest: transpD)
  qed
qed

lemma go_rel_try: "go_rel R m \<Longrightarrow> go_rel R (go_try m)"
  by (simp add: go_rel_def go_simps split: prod.splits) (metis snd_conv)

lemma go_rel_wrap: "go_rel R m \<Longrightarrow> go_rel R (go_wrap c msg m)"
  by (simp add: go_rel_def go_simps split: prod.splits sum.splits) (metis snd_conv)

section \<open>What comes from outside the process\<close>

text \<open>
  The uuid package's text form: \<open>uuid_String u\<close> is \<open>u.String()\<close> and \<open>uuid_Parse t\<close> is
  \<open>uuid.Parse(t)\<close>, with the text of the error on the left; \<open>time_Parse t\<close> is what \<open>time.Time\<close>
  reads from a JSON string (RFC 3339), as the instant, and \<open>time_Format t\<close> what it is written as.
\<close>

record lib =
  uuid_String :: "uuid \<Rightarrow> string"
  uuid_Parse :: "string \<Rightarrow> string + uuid"
  time_Parse :: "string \<Rightarrow> string + time"
  time_Format :: "time \<Rightarrow> string"

text \<open>\<open>time.Time\<close> is written as JSON for the years 0 to 9999 only.\<close>

definition year_in_range :: "time \<Rightarrow> bool" where
  "year_in_range t \<longleftrightarrow> - 62167219200 * 10 ^ 9 \<le> t \<and> t < 253402300800 * 10 ^ 9"

definition time_laws :: "lib \<Rightarrow> bool" where
  "time_laws L \<longleftrightarrow> (\<forall>t. year_in_range t \<longrightarrow> time_Parse L (time_Format L t) = Inr t)"

lemma time_lawsD [simp]: "time_laws L \<Longrightarrow> year_in_range t \<Longrightarrow> time_Parse L (time_Format L t) = Inr t"
  by (simp add: time_laws_def)

text \<open>What the package documents: parsing the printed form gives the identifier back.\<close>

definition uuid_laws :: "lib \<Rightarrow> bool" where
  "uuid_laws L \<longleftrightarrow> (\<forall>u. uuid_Parse L (uuid_String L u) = Inr u)"

lemma uuid_lawsD [simp]: "uuid_laws L \<Longrightarrow> uuid_Parse L (uuid_String L u) = Inr u"
  by (simp add: uuid_laws_def)

text \<open>
  How a call of the database driver can fail: before the statement took effect, or after (the answer
  was lost). The caller gets the same error in both cases.
\<close>

datatype fault = NoFault | FailBefore string | FailAfter string

record rt =
  rt_lib :: lib
  rt_tick :: nat
  rt_uuid :: "nat \<Rightarrow> uuid"
  rt_now :: "nat \<Rightarrow> time"
  rt_fault :: "nat \<Rightarrow> fault"

definition uuid_New :: "('a rt_scheme, uuid) go" where
  "uuid_New s = (Inr (rt_uuid s (rt_tick s)), s\<lparr>rt_tick := Suc (rt_tick s)\<rparr>)"

definition time_Now :: "('a rt_scheme, time) go" where
  "time_Now s = (Inr (rt_now s (rt_tick s)), s\<lparr>rt_tick := Suc (rt_tick s)\<rparr>)"

text \<open>One call of the driver: the failure the environment has for it.\<close>

definition driver_call :: "('a rt_scheme, fault) go" where
  "driver_call s = (Inr (rt_fault s (rt_tick s)), s\<lparr>rt_tick := Suc (rt_tick s)\<rparr>)"

definition no_faults :: "'a rt_scheme \<Rightarrow> bool" where
  "no_faults s \<longleftrightarrow> (\<forall>k. rt_fault s k = NoFault)"

lemma no_faultsD [simp]: "no_faults s \<Longrightarrow> rt_fault s k = NoFault"
  by (simp add: no_faults_def)

lemma no_faults_tick [simp]: "no_faults (s\<lparr>rt_tick := k\<rparr>) = no_faults s"
  by (simp add: no_faults_def)

text \<open>Nothing the process does changes the environment, and the call counter only grows.\<close>

definition env_step :: "'a rt_scheme \<Rightarrow> 'b rt_scheme \<Rightarrow> bool" where
  "env_step s t \<longleftrightarrow> rt_lib t = rt_lib s \<and> rt_uuid t = rt_uuid s \<and> rt_now t = rt_now s
     \<and> rt_fault t = rt_fault s \<and> rt_tick s \<le> rt_tick t"

text \<open>Only the call counter moved.\<close>

definition only_tick :: "'a rt_scheme \<Rightarrow> 'a rt_scheme \<Rightarrow> bool" where
  "only_tick s t \<longleftrightarrow> rt_tick s \<le> rt_tick t \<and> t = s\<lparr>rt_tick := rt_tick t\<rparr>"

lemma env_step_refl [simp]: "env_step s s"
  by (simp add: env_step_def)

lemma env_step_trans: "env_step s t \<Longrightarrow> env_step t u \<Longrightarrow> env_step s u"
  by (auto simp: env_step_def)

lemma env_step_lib: "env_step s t \<Longrightarrow> rt_lib t = rt_lib s"
  by (simp add: env_step_def)

lemma env_step_no_faults: "env_step s t \<Longrightarrow> no_faults t = no_faults s"
  by (simp add: env_step_def no_faults_def)

lemma env_step_tick [simp]: "env_step s (s\<lparr>rt_tick := k\<rparr>) \<longleftrightarrow> rt_tick s \<le> k"
  by (simp add: env_step_def)

lemma only_tick_refl [simp]: "only_tick s s"
  by (simp add: only_tick_def)

lemma only_tickI [intro]: "rt_tick s \<le> k \<Longrightarrow> only_tick s (s\<lparr>rt_tick := k\<rparr>)"
  by (simp add: only_tick_def)

lemma only_tickE:
  assumes "only_tick s t"
  obtains k where "rt_tick s \<le> k" and "t = s\<lparr>rt_tick := k\<rparr>"
  using assms unfolding only_tick_def by blast

lemma only_tick_trans: "only_tick s t \<Longrightarrow> only_tick t u \<Longrightarrow> only_tick s u"
  by (elim only_tickE) auto

lemma only_tick_env: "only_tick s t \<Longrightarrow> env_step s t"
  by (elim only_tickE) simp

section \<open>A concrete environment\<close>

text \<open>
  Used by the witnesses: identifiers count up from one, their text is unary, the clock ticks with the
  call counter and no driver call fails.
\<close>

definition sample_lib :: lib where
  "sample_lib =
     \<lparr>uuid_String = (\<lambda>u. replicate (Suc (unat u)) (CHR ''u'')),
      uuid_Parse = (\<lambda>t. if t = '''' then Inl ''invalid UUID length: 0'' else Inr (of_nat (length t - 1))),
      time_Parse = (\<lambda>t. case t of [] \<Rightarrow> Inl ''empty'' | c # cs \<Rightarrow>
        Inr (if c = CHR ''-'' then - int (length cs) else int (length cs))),
      time_Format = (\<lambda>t. if t < 0 then CHR ''-'' # replicate (nat (- t)) (CHR ''t'')
        else CHR ''+'' # replicate (nat t) (CHR ''t''))\<rparr>"

definition sample_rt :: rt where
  "sample_rt =
     \<lparr>rt_lib = sample_lib, rt_tick = 0, rt_uuid = (\<lambda>k. of_nat (Suc k)), rt_now = int,
      rt_fault = (\<lambda>_. NoFault)\<rparr>"

lemma sample_lib_laws [simp]: "uuid_laws sample_lib" "time_laws sample_lib"
  by (simp_all add: uuid_laws_def time_laws_def sample_lib_def)

lemma sample_rt_simps [simp]:
  "rt_lib sample_rt = sample_lib" "rt_tick sample_rt = 0" "rt_uuid sample_rt k = of_nat (Suc k)"
  "rt_now sample_rt k = int k" "no_faults sample_rt"
  by (simp_all add: sample_rt_def no_faults_def)

section \<open>Decimal numbers\<close>

text \<open>What \<open>%d\<close> prints.\<close>

fun show_nat :: "nat \<Rightarrow> string" where
  "show_nat n = (if n < 10 then [char_of (48 + n)] else show_nat (n div 10) @ [char_of (48 + n mod 10)])"

declare show_nat.simps [simp del]

definition show_int :: "int \<Rightarrow> string" where
  "show_int n = (if n < 0 then ''-'' @ show_nat (nat (- n)) else show_nat (nat n))"

end
