(* ===== verification/Errors.thy ===== *)
theory Errors
  imports Prelude
begin

text \<open>
  \<open>pkg/errors/errors.go\<close>: the domain errors, their text, and their translation to gRPC status
  errors. A Go \<open>error\<close> that may be nil is a \<open>goerr option\<close>.
\<close>

section \<open>Construction and text\<close>

definition errors_New :: "Code \<Rightarrow> string \<Rightarrow> goerr" where
  "errors_New code message = DomainError code message None"

definition errors_Wrap :: "Code \<Rightarrow> string \<Rightarrow> goerr \<Rightarrow> goerr" where
  "errors_Wrap code message err = DomainError code message (Some err)"

fun Code_string :: "Code \<Rightarrow> string" where
  "Code_string CodeNotFound = ''NOT_FOUND''"
| "Code_string CodeAlreadyExists = ''ALREADY_EXISTS''"
| "Code_string CodeInvalidArgument = ''INVALID_ARGUMENT''"
| "Code_string CodePermissionDenied = ''PERMISSION_DENIED''"
| "Code_string CodeUnauthenticated = ''UNAUTHENTICATED''"
| "Code_string CodeInsufficientFunds = ''INSUFFICIENT_FUNDS''"
| "Code_string CodeConflict = ''CONFLICT''"
| "Code_string CodeInternal = ''INTERNAL''"

text \<open>
  \<open>err.Error()\<close>. The text of a gRPC status error is the gRPC library's, the parameter
  \<open>status_text\<close>.
\<close>

fun error_Error :: "(grpc_code \<Rightarrow> string \<Rightarrow> string) \<Rightarrow> goerr \<Rightarrow> string" where
  "error_Error status_text (DomainError code message (Some err)) =
     Code_string code @ '': '' @ message @ '': '' @ error_Error status_text err"
| "error_Error status_text (DomainError code message None) = Code_string code @ '': '' @ message"
| "error_Error status_text (StatusError code message) = status_text code message"
| "error_Error status_text (WrapError prefix err) = prefix @ error_Error status_text err"
| "error_Error status_text (PlainError message) = message"

fun DomainError_Unwrap :: "goerr \<Rightarrow> goerr option" where
  "DomainError_Unwrap (DomainError code message err) = err"
| "DomainError_Unwrap (WrapError prefix err) = Some err"
| "DomainError_Unwrap _ = None"

section \<open>Translation to gRPC\<close>

text \<open>\<open>errors.As(err, &de)\<close>: the first domain error of the chain that \<open>Unwrap\<close> walks.\<close>

fun errors_As :: "goerr \<Rightarrow> goerr option" where
  "errors_As (DomainError code message err) = Some (DomainError code message err)"
| "errors_As (WrapError prefix err) = errors_As err"
| "errors_As (StatusError code message) = None"
| "errors_As (PlainError message) = None"

fun Code_to_grpc :: "Code \<Rightarrow> grpc_code" where
  "Code_to_grpc CodeNotFound = NotFound"
| "Code_to_grpc CodeAlreadyExists = AlreadyExists"
| "Code_to_grpc CodeInvalidArgument = InvalidArgument"
| "Code_to_grpc CodePermissionDenied = PermissionDenied"
| "Code_to_grpc CodeUnauthenticated = Unauthenticated"
| "Code_to_grpc CodeInsufficientFunds = FailedPrecondition"
| "Code_to_grpc CodeConflict = AlreadyExists"
| "Code_to_grpc CodeInternal = Internal"

definition ToGRPC :: "(grpc_code \<Rightarrow> string \<Rightarrow> string) \<Rightarrow> goerr option \<Rightarrow> goerr option" where
  "ToGRPC status_text err =
     (case err of
        None \<Rightarrow> None
      | Some e \<Rightarrow>
          (case errors_As e of
             None \<Rightarrow> Some (StatusError Internal (error_Error status_text e))
           | Some de \<Rightarrow> Some (StatusError (Code_to_grpc (err_code de)) (err_message de))))"

section \<open>Facts\<close>

lemma errors_As_DomainError:
  "errors_As e = Some de \<Longrightarrow> \<exists>c m x. de = DomainError c m x"
  by (induction e rule: errors_As.induct) auto

lemma ToGRPC_eq_None [simp]: "ToGRPC t err = None \<longleftrightarrow> err = None"
  by (simp add: ToGRPC_def split: option.splits)

lemma ToGRPC_domain [simp]:
  "ToGRPC t (Some (DomainError c m x)) = Some (StatusError (Code_to_grpc c) m)"
  by (simp add: ToGRPC_def)

lemma ToGRPC_wrapped [simp]: "errors_As e = Some (DomainError c m x) \<Longrightarrow>
    ToGRPC t (Some e) = Some (StatusError (Code_to_grpc c) m)"
  by (simp add: ToGRPC_def)

lemma Code_to_grpc_not_OK [simp]: "Code_to_grpc c \<noteq> OK"
  by (cases c) simp_all

lemma Code_to_grpc_eq_iff:
  "Code_to_grpc c = Code_to_grpc d \<longleftrightarrow>
     c = d \<or> {c, d} = {CodeAlreadyExists, CodeConflict}"
  by (cases c; cases d) (simp_all add: doubleton_eq_iff)

end
