(* ===== verification/Json.thy ===== *)
theory Json
  imports Prelude
begin

text \<open>
  What the services use of Go's \<open>encoding/json\<close>: \<open>Marshal\<close> of a struct and \<open>Unmarshal\<close> into one.
  A JSON document is its syntax tree, not its bytes; the value of a Kafka record is a
  \<open>json option\<close>, \<open>None\<close> for bytes that are not JSON. \<open>Unmarshal\<close> fills the struct
  member by member, in the order of the document: a key is matched without regard to case, an
  unknown key is skipped, a repeated key overwrites, \<open>null\<close> changes nothing, a value of the wrong
  JSON type is remembered as the error of the whole call while the rest is still decoded, and an
  error of a \<open>TextUnmarshaler\<close> (the identifiers) stops the decoding. What was decoded before the
  error stays in the struct, so a decoder returns the struct and the error.
\<close>

section \<open>Documents\<close>

datatype json =
    JNull
  | JBool bool
  | JInt int \<comment> \<open>a number written as an integer\<close>
  | JFloat string \<comment> \<open>a number with a fraction or an exponent, as written\<close>
  | JStr string
  | JArr "json list"
  | JObj "(string \<times> json) list"

definition json_type_error :: goerr where
  "json_type_error = PlainError ''json: cannot unmarshal value into Go struct field''"

definition json_syntax_error :: goerr where
  "json_syntax_error = PlainError ''json: syntax error''"

section \<open>Keys\<close>

definition lower_char :: "char \<Rightarrow> char" where
  "lower_char c =
     (let n = (of_char c :: nat) in if 65 \<le> n \<and> n \<le> 90 then char_of (n + 32) else c)"

definition fold_name :: "string \<Rightarrow> string" where
  "fold_name k = map lower_char k"

definition name_match :: "string \<Rightarrow> string \<Rightarrow> bool" where
  "name_match key field \<longleftrightarrow> fold_name key = fold_name field"

lemma name_match_refl [simp]: "name_match k k"
  by (simp add: name_match_def)

section \<open>Decoding one member\<close>

datatype 'r jstep = JSet 'r | JKeep | JSaveErr goerr | JAbort goerr

fun jf_int64 :: "(i64 \<Rightarrow> 'r \<Rightarrow> 'r) \<Rightarrow> json \<Rightarrow> 'r \<Rightarrow> 'r jstep" where
  "jf_int64 put (JInt n) r = (if in_i64 n then JSet (put (word_of_int n) r) else JSaveErr json_type_error)"
| "jf_int64 put JNull r = JKeep"
| "jf_int64 put _ r = JSaveErr json_type_error"

fun jf_string :: "(string \<Rightarrow> 'r \<Rightarrow> 'r) \<Rightarrow> json \<Rightarrow> 'r \<Rightarrow> 'r jstep" where
  "jf_string put (JStr t) r = JSet (put t r)"
| "jf_string put JNull r = JKeep"
| "jf_string put _ r = JSaveErr json_type_error"

fun jf_uuid :: "lib \<Rightarrow> (uuid \<Rightarrow> 'r \<Rightarrow> 'r) \<Rightarrow> json \<Rightarrow> 'r \<Rightarrow> 'r jstep" where
  "jf_uuid L put (JStr t) r =
     (case uuid_Parse L t of Inl msg \<Rightarrow> JAbort (PlainError msg) | Inr u \<Rightarrow> JSet (put u r))"
| "jf_uuid L put JNull r = JKeep"
| "jf_uuid L put _ r = JSaveErr json_type_error"

text \<open>\<open>time.Time\<close> decodes itself, and its error stops the decoding.\<close>

fun jf_time :: "lib \<Rightarrow> (time \<Rightarrow> 'r \<Rightarrow> 'r) \<Rightarrow> json \<Rightarrow> 'r \<Rightarrow> 'r jstep" where
  "jf_time L put (JStr t) r =
     (case time_Parse L t of Inl msg \<Rightarrow> JAbort (PlainError msg) | Inr u \<Rightarrow> JSet (put u r))"
| "jf_time L put JNull r = JKeep"
| "jf_time L put _ r = JAbort (PlainError ''Time.UnmarshalJSON: input is not a JSON string'')"

section \<open>Decoding a document\<close>

fun json_members ::
  "('r \<Rightarrow> string \<Rightarrow> json \<Rightarrow> 'r jstep) \<Rightarrow> (string \<times> json) list \<Rightarrow> 'r \<Rightarrow> goerr option \<Rightarrow> 'r \<times> goerr option"
where
  "json_members field [] r saved = (r, saved)"
| "json_members field ((k, v) # ms) r saved =
     (case field r k v of
        JSet r' \<Rightarrow> json_members field ms r' saved
      | JKeep \<Rightarrow> json_members field ms r saved
      | JSaveErr e \<Rightarrow> json_members field ms r (case saved of None \<Rightarrow> Some e | Some e0 \<Rightarrow> Some e0)
      | JAbort e \<Rightarrow> (r, Some e))"

definition json_Unmarshal ::
  "('r \<Rightarrow> string \<Rightarrow> json \<Rightarrow> 'r jstep) \<Rightarrow> 'r \<Rightarrow> json option \<Rightarrow> 'r \<times> goerr option"
where
  "json_Unmarshal field zero data =
     (case data of
        None \<Rightarrow> (zero, Some json_syntax_error)
      | Some (JObj ms) \<Rightarrow> json_members field ms zero None
      | Some JNull \<Rightarrow> (zero, None)
      | Some _ \<Rightarrow> (zero, Some json_type_error))"

text \<open>\<open>if err := json.Unmarshal(data, &p); err != nil { return err }\<close>\<close>

definition go_unmarshal :: "'r \<times> goerr option \<Rightarrow> ('s, 'r) go" where
  "go_unmarshal res = (case res of (r, None) \<Rightarrow> go_return r | (r, Some e) \<Rightarrow> go_throw e)"

section \<open>Encoding\<close>

definition json_int64 :: "i64 \<Rightarrow> json" where
  "json_int64 n = JInt (sint n)"

definition json_uuid :: "lib \<Rightarrow> uuid \<Rightarrow> json" where
  "json_uuid L u = JStr (uuid_String L u)"

text \<open>A time outside the years 0 to 9999 is an error of \<open>Marshal\<close>.\<close>

definition json_time :: "lib \<Rightarrow> time \<Rightarrow> goerr + json" where
  "json_time L t =
     (if year_in_range t then Inr (JStr (time_Format L t))
      else Inl (PlainError ''Time.MarshalJSON: year outside of range [0,9999]''))"

lemma jf_time_encoded: "time_laws L \<Longrightarrow> json_time L t = Inr j \<Longrightarrow> jf_time L put j r = JSet (put t r)"
  by (auto simp: json_time_def split: if_splits)

lemma jf_int64_encoded [simp]: "jf_int64 put (json_int64 n) r = JSet (put n r)"
  by (simp add: json_int64_def)

lemma jf_uuid_encoded [simp]: "uuid_laws L \<Longrightarrow> jf_uuid L put (json_uuid L u) r = JSet (put u r)"
  by (simp add: json_uuid_def)

lemma json_Unmarshal_obj [simp]: "json_Unmarshal f z (Some (JObj ms)) = json_members f ms z None"
  by (simp add: json_Unmarshal_def)

lemma json_Unmarshal_invalid [simp]: "json_Unmarshal f z None = (z, Some json_syntax_error)"
  by (simp add: json_Unmarshal_def)

lemma go_unmarshal_ok [simp]: "go_unmarshal (r, None) = go_return r"
  by (simp add: go_unmarshal_def)

text \<open>A key no field matches leaves the struct as it was.\<close>

lemma json_members_skip:
  assumes "\<And>r k v. (k, v) \<in> set ms \<Longrightarrow> field r k v = JKeep"
  shows "json_members field (ms @ ns) r saved = json_members field ns r saved"
  using assms by (induction ms arbitrary: r saved) auto

end
