(* ===== verification/WalletDomain.thy ===== *)
theory WalletDomain
  imports Errors Json
begin

text \<open>
  The wallet aggregate: \<open>services/wallet/internal/domain/events.go\<close> and \<open>wallet.go\<close>. A wallet is
  never written directly: a command checks its guard, builds an event whose payload is the JSON of a
  struct, and applies the event; rebuilding a wallet applies the stored events again, decoding the
  same payloads. A method with a pointer receiver returns the wallet it leaves.
\<close>

section \<open>Events (events.go)\<close>

type_synonym EventType = string

definition EventWalletCreated :: EventType where "EventWalletCreated = ''WalletCreated''"
definition EventFundsDeposited :: EventType where "EventFundsDeposited = ''FundsDeposited''"
definition EventFundsWithdrawn :: EventType where "EventFundsWithdrawn = ''FundsWithdrawn''"
definition EventFundsReserved :: EventType where "EventFundsReserved = ''FundsReserved''"
definition EventFundsReleased :: EventType where "EventFundsReleased = ''FundsReleased''"

lemmas EventType_defs = EventWalletCreated_def EventFundsDeposited_def EventFundsWithdrawn_def
  EventFundsReserved_def EventFundsReleased_def

record event =
  ev_ID :: uuid
  ev_WalletID :: uuid
  ev_Type :: EventType
  ev_Payload :: json
  ev_Version :: i64
  ev_OccuredAt :: time

record WalletCreatedPayload =
  wc_UserID :: uuid
  wc_Currency :: string

record FundsDepositedPayload =
  fd_AmountCents :: i64
  fd_Description :: string

record FundsWithdrawnPayload =
  fw_AmountCents :: i64
  fw_Description :: string

record FundsReservedPayload =
  fr_AmountCents :: i64
  fr_TransactionID :: uuid

record FundsReleasedPayload =
  fl_AmountCents :: i64
  fl_TransactionID :: uuid

definition WalletCreatedPayload_Marshal :: "lib \<Rightarrow> WalletCreatedPayload \<Rightarrow> json" where
  "WalletCreatedPayload_Marshal L p =
     JObj [(''user_id'', json_uuid L (wc_UserID p)), (''currency'', JStr (wc_Currency p))]"

definition WalletCreatedPayload_field ::
  "lib \<Rightarrow> WalletCreatedPayload \<Rightarrow> string \<Rightarrow> json \<Rightarrow> WalletCreatedPayload jstep"
where
  "WalletCreatedPayload_field L p k v =
     (if name_match k ''user_id'' then jf_uuid L (\<lambda>u p. p\<lparr>wc_UserID := u\<rparr>) v p
      else if name_match k ''currency'' then jf_string (\<lambda>t p. p\<lparr>wc_Currency := t\<rparr>) v p
      else JKeep)"

definition FundsDepositedPayload_Marshal :: "FundsDepositedPayload \<Rightarrow> json" where
  "FundsDepositedPayload_Marshal p =
     JObj [(''amount_cents'', json_int64 (fd_AmountCents p)),
           (''description'', JStr (fd_Description p))]"

definition FundsDepositedPayload_field ::
  "FundsDepositedPayload \<Rightarrow> string \<Rightarrow> json \<Rightarrow> FundsDepositedPayload jstep"
where
  "FundsDepositedPayload_field p k v =
     (if name_match k ''amount_cents'' then jf_int64 (\<lambda>n p. p\<lparr>fd_AmountCents := n\<rparr>) v p
      else if name_match k ''description'' then jf_string (\<lambda>t p. p\<lparr>fd_Description := t\<rparr>) v p
      else JKeep)"

definition FundsWithdrawnPayload_Marshal :: "FundsWithdrawnPayload \<Rightarrow> json" where
  "FundsWithdrawnPayload_Marshal p =
     JObj [(''amount_cents'', json_int64 (fw_AmountCents p)),
           (''description'', JStr (fw_Description p))]"

definition FundsWithdrawnPayload_field ::
  "FundsWithdrawnPayload \<Rightarrow> string \<Rightarrow> json \<Rightarrow> FundsWithdrawnPayload jstep"
where
  "FundsWithdrawnPayload_field p k v =
     (if name_match k ''amount_cents'' then jf_int64 (\<lambda>n p. p\<lparr>fw_AmountCents := n\<rparr>) v p
      else if name_match k ''description'' then jf_string (\<lambda>t p. p\<lparr>fw_Description := t\<rparr>) v p
      else JKeep)"

definition FundsReservedPayload_Marshal :: "lib \<Rightarrow> FundsReservedPayload \<Rightarrow> json" where
  "FundsReservedPayload_Marshal L p =
     JObj [(''amount_cents'', json_int64 (fr_AmountCents p)),
           (''transaction_id'', json_uuid L (fr_TransactionID p))]"

definition FundsReservedPayload_field ::
  "lib \<Rightarrow> FundsReservedPayload \<Rightarrow> string \<Rightarrow> json \<Rightarrow> FundsReservedPayload jstep"
where
  "FundsReservedPayload_field L p k v =
     (if name_match k ''amount_cents'' then jf_int64 (\<lambda>n p. p\<lparr>fr_AmountCents := n\<rparr>) v p
      else if name_match k ''transaction_id'' then jf_uuid L (\<lambda>u p. p\<lparr>fr_TransactionID := u\<rparr>) v p
      else JKeep)"

definition FundsReleasedPayload_Marshal :: "lib \<Rightarrow> FundsReleasedPayload \<Rightarrow> json" where
  "FundsReleasedPayload_Marshal L p =
     JObj [(''amount_cents'', json_int64 (fl_AmountCents p)),
           (''transaction_id'', json_uuid L (fl_TransactionID p))]"

definition FundsReleasedPayload_field ::
  "lib \<Rightarrow> FundsReleasedPayload \<Rightarrow> string \<Rightarrow> json \<Rightarrow> FundsReleasedPayload jstep"
where
  "FundsReleasedPayload_field L p k v =
     (if name_match k ''amount_cents'' then jf_int64 (\<lambda>n p. p\<lparr>fl_AmountCents := n\<rparr>) v p
      else if name_match k ''transaction_id'' then jf_uuid L (\<lambda>u p. p\<lparr>fl_TransactionID := u\<rparr>) v p
      else JKeep)"

section \<open>The aggregate (wallet.go)\<close>

definition SnapshotInterval :: int where "SnapshotInterval = 50"

record wallet =
  w_ID :: uuid
  w_UserID :: uuid
  w_Currency :: string
  w_BalanceCents :: i64
  w_Reserved :: i64
  w_Version :: i64
  w_changes :: "event list"

text \<open>\<open>&Wallet{}\<close>\<close>

definition zero_Wallet :: wallet where
  "zero_Wallet = \<lparr>w_ID = uuid_Nil, w_UserID = uuid_Nil, w_Currency = '''', w_BalanceCents = 0,
     w_Reserved = 0, w_Version = 0, w_changes = []\<rparr>"

definition Wallet_AvailableBalance :: "wallet \<Rightarrow> i64" where
  "Wallet_AvailableBalance w = w_BalanceCents w - w_Reserved w"

definition Wallet_applyEvent :: "lib \<Rightarrow> wallet \<Rightarrow> event \<Rightarrow> wallet" where
  "Wallet_applyEvent L w e =
     (if ev_Type e = EventWalletCreated then
        (let p = fst (json_Unmarshal (WalletCreatedPayload_field L)
                        \<lparr>wc_UserID = uuid_Nil, wc_Currency = ''''\<rparr> (Some (ev_Payload e)))
         in w\<lparr>w_ID := ev_WalletID e, w_UserID := wc_UserID p, w_Currency := wc_Currency p\<rparr>)
      else if ev_Type e = EventFundsDeposited then
        (let p = fst (json_Unmarshal FundsDepositedPayload_field
                        \<lparr>fd_AmountCents = 0, fd_Description = ''''\<rparr> (Some (ev_Payload e)))
         in w\<lparr>w_BalanceCents := w_BalanceCents w + fd_AmountCents p\<rparr>)
      else if ev_Type e = EventFundsWithdrawn then
        (let p = fst (json_Unmarshal FundsWithdrawnPayload_field
                        \<lparr>fw_AmountCents = 0, fw_Description = ''''\<rparr> (Some (ev_Payload e)))
         in w\<lparr>w_BalanceCents := w_BalanceCents w - fw_AmountCents p\<rparr>)
      else if ev_Type e = EventFundsReserved then
        (let p = fst (json_Unmarshal (FundsReservedPayload_field L)
                        \<lparr>fr_AmountCents = 0, fr_TransactionID = uuid_Nil\<rparr> (Some (ev_Payload e)))
         in w\<lparr>w_Reserved := w_Reserved w + fr_AmountCents p\<rparr>)
      else if ev_Type e = EventFundsReleased then
        (let p = fst (json_Unmarshal (FundsReleasedPayload_field L)
                        \<lparr>fl_AmountCents = 0, fl_TransactionID = uuid_Nil\<rparr> (Some (ev_Payload e)))
         in w\<lparr>w_Reserved := w_Reserved w - fl_AmountCents p\<rparr>)
      else w)"

definition Wallet_apply :: "lib \<Rightarrow> wallet \<Rightarrow> event \<Rightarrow> wallet" where
  "Wallet_apply L w e =
     (let w1 = Wallet_applyEvent L w e;
          w2 = w1\<lparr>w_Version := ev_Version e\<rparr>
      in w2\<lparr>w_changes := w_changes w2 @ [e]\<rparr>)"

fun Wallet_Reconstitute :: "lib \<Rightarrow> wallet \<Rightarrow> event list \<Rightarrow> wallet" where
  "Wallet_Reconstitute L w [] = w"
| "Wallet_Reconstitute L w (e # es) =
     Wallet_Reconstitute L ((Wallet_applyEvent L w e)\<lparr>w_Version := ev_Version e\<rparr>) es"

definition Wallet_Changes :: "wallet \<Rightarrow> event list" where
  "Wallet_Changes w = w_changes w"

definition Wallet_ClearChanges :: "wallet \<Rightarrow> wallet" where
  "Wallet_ClearChanges w = w\<lparr>w_changes := []\<rparr>"

text \<open>
  The event literal the commands share: identifier and time are drawn here, the version is the next
  one; then \<open>e.Payload, _ = json.Marshal(...)\<close> and \<open>w.apply(&e)\<close>.
\<close>

definition Wallet_emit :: "wallet \<Rightarrow> EventType \<Rightarrow> (lib \<Rightarrow> json) \<Rightarrow> ('a rt_scheme, wallet) go" where
  "Wallet_emit w typ payload =
     go_bind uuid_New (\<lambda>eid.
     go_bind time_Now (\<lambda>now.
     go_bind (go_gets rt_lib) (\<lambda>L.
     go_return (Wallet_apply L w
       \<lparr>ev_ID = eid, ev_WalletID = w_ID w, ev_Type = typ, ev_Payload = payload L,
        ev_Version = w_Version w + 1, ev_OccuredAt = now\<rparr>))))"

definition NewWallet :: "uuid \<Rightarrow> string \<Rightarrow> ('a rt_scheme, wallet) go" where
  "NewWallet userID currency =
     (if currency = '''' then go_throw (errors_New CodeInvalidArgument ''currency required'')
      else
        go_bind uuid_New (\<lambda>eid.
        go_bind uuid_New (\<lambda>wid.
        go_bind time_Now (\<lambda>now.
        go_bind (go_gets rt_lib) (\<lambda>L.
        go_return (Wallet_apply L zero_Wallet
          \<lparr>ev_ID = eid, ev_WalletID = wid, ev_Type = EventWalletCreated,
           ev_Payload = WalletCreatedPayload_Marshal L \<lparr>wc_UserID = userID, wc_Currency = currency\<rparr>,
           ev_Version = 1, ev_OccuredAt = now\<rparr>))))))"

definition Wallet_Deposit :: "wallet \<Rightarrow> i64 \<Rightarrow> string \<Rightarrow> ('a rt_scheme, wallet) go" where
  "Wallet_Deposit w amountCents description =
     (if sint amountCents \<le> 0
      then go_throw (errors_New CodeInvalidArgument ''deposit amount must be positive'')
      else Wallet_emit w EventFundsDeposited (\<lambda>L. FundsDepositedPayload_Marshal
             \<lparr>fd_AmountCents = amountCents, fd_Description = description\<rparr>))"

definition Wallet_Withdraw :: "wallet \<Rightarrow> i64 \<Rightarrow> string \<Rightarrow> ('a rt_scheme, wallet) go" where
  "Wallet_Withdraw w amountCents description =
     (if sint amountCents \<le> 0
      then go_throw (errors_New CodeInvalidArgument ''withdrawal amount must be positive'')
      else if sint (Wallet_AvailableBalance w) < sint amountCents
      then go_throw (errors_New CodeInsufficientFunds ''insufficient funds'')
      else Wallet_emit w EventFundsWithdrawn (\<lambda>L. FundsWithdrawnPayload_Marshal
             \<lparr>fw_AmountCents = amountCents, fw_Description = description\<rparr>))"

definition Wallet_Reserve :: "wallet \<Rightarrow> i64 \<Rightarrow> uuid \<Rightarrow> ('a rt_scheme, wallet) go" where
  "Wallet_Reserve w amountCents transactionID =
     (if sint (Wallet_AvailableBalance w) < sint amountCents
      then go_throw (errors_New CodeInsufficientFunds ''insufficient funds to reserve'')
      else Wallet_emit w EventFundsReserved (\<lambda>L. FundsReservedPayload_Marshal L
             \<lparr>fr_AmountCents = amountCents, fr_TransactionID = transactionID\<rparr>))"

definition Wallet_Release :: "wallet \<Rightarrow> i64 \<Rightarrow> uuid \<Rightarrow> ('a rt_scheme, wallet) go" where
  "Wallet_Release w amountCents transactionID =
     Wallet_emit w EventFundsReleased (\<lambda>L. FundsReleasedPayload_Marshal L
       \<lparr>fl_AmountCents = amountCents, fl_TransactionID = transactionID\<rparr>)"

section \<open>Payloads survive the round trip\<close>

named_theorems payload_simps "what decoding an encoded payload gives"

lemmas name_match_simps = name_match_def fold_name_def lower_char_def

lemma WalletCreatedPayload_roundtrip [payload_simps]:
  "uuid_laws L \<Longrightarrow>
     json_Unmarshal (WalletCreatedPayload_field L) z (Some (WalletCreatedPayload_Marshal L p)) = (p, None)"
  by (simp add: WalletCreatedPayload_Marshal_def WalletCreatedPayload_field_def name_match_simps)

lemma FundsDepositedPayload_roundtrip [payload_simps]:
  "json_Unmarshal FundsDepositedPayload_field z (Some (FundsDepositedPayload_Marshal p)) = (p, None)"
  by (simp add: FundsDepositedPayload_Marshal_def FundsDepositedPayload_field_def name_match_simps)

lemma FundsWithdrawnPayload_roundtrip [payload_simps]:
  "json_Unmarshal FundsWithdrawnPayload_field z (Some (FundsWithdrawnPayload_Marshal p)) = (p, None)"
  by (simp add: FundsWithdrawnPayload_Marshal_def FundsWithdrawnPayload_field_def name_match_simps)

text \<open>
  For the payloads with a transaction id, the amount is decoded first and so survives even when the
  id does not parse; that is all the wallet uses of them.
\<close>

lemma FundsReservedPayload_amount [payload_simps]:
  "fr_AmountCents (fst (json_Unmarshal (FundsReservedPayload_field L) z
      (Some (FundsReservedPayload_Marshal L p)))) = fr_AmountCents p"
  by (simp add: FundsReservedPayload_Marshal_def FundsReservedPayload_field_def name_match_simps
      json_uuid_def split: sum.splits)

lemma FundsReleasedPayload_amount [payload_simps]:
  "fl_AmountCents (fst (json_Unmarshal (FundsReleasedPayload_field L) z
      (Some (FundsReleasedPayload_Marshal L p)))) = fl_AmountCents p"
  by (simp add: FundsReleasedPayload_Marshal_def FundsReleasedPayload_field_def name_match_simps
      json_uuid_def split: sum.splits)

section \<open>What each command does\<close>

text \<open>The event literal a command builds in the state \<open>s\<close>.\<close>

definition next_event :: "'a rt_scheme \<Rightarrow> wallet \<Rightarrow> EventType \<Rightarrow> json \<Rightarrow> event" where
  "next_event s w typ j =
     \<lparr>ev_ID = rt_uuid s (rt_tick s), ev_WalletID = w_ID w, ev_Type = typ, ev_Payload = j,
      ev_Version = w_Version w + 1, ev_OccuredAt = rt_now s (Suc (rt_tick s))\<rparr>"

lemma next_event_simps [simp]:
  "ev_WalletID (next_event s w typ j) = w_ID w" "ev_Type (next_event s w typ j) = typ"
  "ev_Payload (next_event s w typ j) = j" "ev_Version (next_event s w typ j) = w_Version w + 1"
  "ev_ID (next_event s w typ j) = rt_uuid s (rt_tick s)"
  by (simp_all add: next_event_def)

lemma Wallet_emit_run:
  "Wallet_emit w typ payload s =
     (Inr (Wallet_apply (rt_lib s) w (next_event s w typ (payload (rt_lib s)))),
      s\<lparr>rt_tick := Suc (Suc (rt_tick s))\<rparr>)"
  by (simp add: Wallet_emit_def uuid_New_def time_Now_def next_event_def go_simps)

lemmas apply_defs = Wallet_apply_def Wallet_applyEvent_def EventType_defs Let_def

lemma Wallet_Deposit_run:
  "Wallet_Deposit w a d s =
     (if sint a \<le> 0 then (Inl (errors_New CodeInvalidArgument ''deposit amount must be positive''), s)
      else (Inr (w\<lparr>w_BalanceCents := w_BalanceCents w + a, w_Version := w_Version w + 1,
                    w_changes := w_changes w @ [next_event s w EventFundsDeposited
                      (FundsDepositedPayload_Marshal \<lparr>fd_AmountCents = a, fd_Description = d\<rparr>)]\<rparr>),
            s\<lparr>rt_tick := Suc (Suc (rt_tick s))\<rparr>))"
  by (simp add: Wallet_Deposit_def Wallet_emit_run apply_defs payload_simps go_throw_def)

lemma Wallet_Withdraw_run:
  "Wallet_Withdraw w a d s =
     (if sint a \<le> 0 then (Inl (errors_New CodeInvalidArgument ''withdrawal amount must be positive''), s)
      else if sint (Wallet_AvailableBalance w) < sint a
      then (Inl (errors_New CodeInsufficientFunds ''insufficient funds''), s)
      else (Inr (w\<lparr>w_BalanceCents := w_BalanceCents w - a, w_Version := w_Version w + 1,
                    w_changes := w_changes w @ [next_event s w EventFundsWithdrawn
                      (FundsWithdrawnPayload_Marshal \<lparr>fw_AmountCents = a, fw_Description = d\<rparr>)]\<rparr>),
            s\<lparr>rt_tick := Suc (Suc (rt_tick s))\<rparr>))"
  by (simp add: Wallet_Withdraw_def Wallet_emit_run apply_defs payload_simps go_throw_def)

lemma Wallet_Reserve_run:
  "Wallet_Reserve w a x s =
     (if sint (Wallet_AvailableBalance w) < sint a
      then (Inl (errors_New CodeInsufficientFunds ''insufficient funds to reserve''), s)
      else (Inr (w\<lparr>w_Reserved := w_Reserved w + a, w_Version := w_Version w + 1,
                    w_changes := w_changes w @ [next_event s w EventFundsReserved
                      (FundsReservedPayload_Marshal (rt_lib s)
                        \<lparr>fr_AmountCents = a, fr_TransactionID = x\<rparr>)]\<rparr>),
            s\<lparr>rt_tick := Suc (Suc (rt_tick s))\<rparr>))"
  by (simp add: Wallet_Reserve_def Wallet_emit_run apply_defs payload_simps go_throw_def)

lemma Wallet_Release_run:
  "Wallet_Release w a x s =
     (Inr (w\<lparr>w_Reserved := w_Reserved w - a, w_Version := w_Version w + 1,
              w_changes := w_changes w @ [next_event s w EventFundsReleased
                (FundsReleasedPayload_Marshal (rt_lib s)
                  \<lparr>fl_AmountCents = a, fl_TransactionID = x\<rparr>)]\<rparr>),
      s\<lparr>rt_tick := Suc (Suc (rt_tick s))\<rparr>)"
  by (simp add: Wallet_Release_def Wallet_emit_run apply_defs payload_simps)

lemmas Wallet_runs =
  Wallet_Deposit_run Wallet_Withdraw_run Wallet_Reserve_run Wallet_Release_run

lemma NewWallet_run:
  "uuid_laws (rt_lib s) \<Longrightarrow> currency \<noteq> '''' \<Longrightarrow>
     NewWallet u currency s =
       (Inr (let wid = rt_uuid s (Suc (rt_tick s)) in
         \<lparr>w_ID = wid, w_UserID = u, w_Currency = currency, w_BalanceCents = 0, w_Reserved = 0,
          w_Version = 1, w_changes =
            [\<lparr>ev_ID = rt_uuid s (rt_tick s), ev_WalletID = wid, ev_Type = EventWalletCreated,
              ev_Payload = WalletCreatedPayload_Marshal (rt_lib s) \<lparr>wc_UserID = u, wc_Currency = currency\<rparr>,
              ev_Version = 1, ev_OccuredAt = rt_now s (Suc (Suc (rt_tick s)))\<rparr>]\<rparr>),
        s\<lparr>rt_tick := Suc (Suc (Suc (rt_tick s)))\<rparr>)"
  by (simp add: NewWallet_def uuid_New_def time_Now_def apply_defs payload_simps go_simps zero_Wallet_def)

section \<open>Replaying events\<close>

lemma Wallet_Reconstitute_append:
  "Wallet_Reconstitute L w (xs @ ys) = Wallet_Reconstitute L (Wallet_Reconstitute L w xs) ys"
  by (induction xs arbitrary: w) simp_all

lemma Wallet_applyEvent_changes [simp]: "w_changes (Wallet_applyEvent L w e) = w_changes w"
  by (simp add: Wallet_applyEvent_def Let_def)

lemma Wallet_applyEvent_Version [simp]: "w_Version (Wallet_applyEvent L w e) = w_Version w"
  by (simp add: Wallet_applyEvent_def Let_def)

lemma Wallet_applyEvent_set_changes:
  "Wallet_applyEvent L (w\<lparr>w_changes := cs\<rparr>) e = (Wallet_applyEvent L w e)\<lparr>w_changes := cs\<rparr>"
  by (simp add: Wallet_applyEvent_def Let_def)

lemma Wallet_Reconstitute_set_changes:
  "Wallet_Reconstitute L (w\<lparr>w_changes := cs\<rparr>) es = (Wallet_Reconstitute L w es)\<lparr>w_changes := cs\<rparr>"
proof (induction es arbitrary: w)
  case (Cons e es)
  have "(Wallet_applyEvent L (w\<lparr>w_changes := cs\<rparr>) e)\<lparr>w_Version := ev_Version e\<rparr> =
      ((Wallet_applyEvent L w e)\<lparr>w_Version := ev_Version e\<rparr>)\<lparr>w_changes := cs\<rparr>"
    by (simp add: Wallet_applyEvent_set_changes)
  then show ?case by (simp add: Cons.IH)
qed simp

lemma Wallet_Reconstitute_Version:
  "es \<noteq> [] \<Longrightarrow> w_Version (Wallet_Reconstitute L w es) = ev_Version (last es)"
  by (induction es arbitrary: w rule: induct_list012) simp_all

text \<open>Applying a new event is replaying it and recording it.\<close>

lemma Wallet_apply_Reconstitute:
  "Wallet_apply L w e = (Wallet_Reconstitute L w [e])\<lparr>w_changes := w_changes w @ [e]\<rparr>"
  by (simp add: Wallet_apply_def Let_def)

section \<open>Sequences of commands\<close>

text \<open>The four commands on an existing wallet; a command that fails leaves the wallet as it was.\<close>

datatype wallet_cmd =
    CmdDeposit i64 string | CmdWithdraw i64 string | CmdReserve i64 uuid | CmdRelease i64 uuid

fun Wallet_cmd :: "wallet_cmd \<Rightarrow> wallet \<Rightarrow> ('a rt_scheme, wallet) go" where
  "Wallet_cmd (CmdDeposit a d) w = Wallet_Deposit w a d"
| "Wallet_cmd (CmdWithdraw a d) w = Wallet_Withdraw w a d"
| "Wallet_cmd (CmdReserve a x) w = Wallet_Reserve w a x"
| "Wallet_cmd (CmdRelease a x) w = Wallet_Release w a x"

fun Wallet_run :: "wallet_cmd list \<Rightarrow> wallet \<Rightarrow> 'a rt_scheme \<Rightarrow> wallet \<times> 'a rt_scheme" where
  "Wallet_run [] w s = (w, s)"
| "Wallet_run (c # cs) w s =
     (case Wallet_cmd c w s of
        (Inl e, s') \<Rightarrow> Wallet_run cs w s'
      | (Inr w', s') \<Rightarrow> Wallet_run cs w' s')"

text \<open>What a command that succeeds does: it applies one event of the next version.\<close>

definition one_event :: "lib \<Rightarrow> wallet \<Rightarrow> wallet \<Rightarrow> event \<Rightarrow> bool" where
  "one_event L w w' e \<longleftrightarrow> w' = Wallet_apply L w e \<and> ev_WalletID e = w_ID w
     \<and> ev_Version e = w_Version w + 1 \<and> ev_Type e \<noteq> EventWalletCreated"

lemma Wallet_emit_one_event:
  "typ \<noteq> EventWalletCreated \<Longrightarrow> Wallet_emit w typ payload s = (Inr w', s') \<Longrightarrow>
     one_event (rt_lib s) w w' (next_event s w typ (payload (rt_lib s)))
     \<and> s' = s\<lparr>rt_tick := Suc (Suc (rt_tick s))\<rparr>"
  by (auto simp: Wallet_emit_run one_event_def)

lemma EventType_not_created [simp]:
  "EventFundsDeposited \<noteq> EventWalletCreated" "EventFundsWithdrawn \<noteq> EventWalletCreated"
  "EventFundsReserved \<noteq> EventWalletCreated" "EventFundsReleased \<noteq> EventWalletCreated"
  by (simp_all add: EventType_defs)

lemma Wallet_cmd_one_event:
  assumes "Wallet_cmd c w s = (Inr w', s')"
  shows "\<exists>e. one_event (rt_lib s) w w' e \<and> env_step s s'"
proof -
  show ?thesis
    using assms
    by (cases c)
      (auto simp: Wallet_Deposit_def Wallet_Withdraw_def Wallet_Reserve_def Wallet_Release_def
        go_throw_def split: if_splits dest!: Wallet_emit_one_event [rotated])
qed

lemma Wallet_cmd_error:
  "Wallet_cmd c w s = (Inl e, s') \<Longrightarrow> s' = s"
  by (cases c) (auto simp: Wallet_runs split: if_splits)

lemma w_ID_apply [simp]: "one_event L w w' e \<Longrightarrow> w_ID w' = w_ID w"
  by (auto simp: one_event_def Wallet_apply_def Wallet_applyEvent_def Let_def)

text \<open>
  The invariant of a wallet still in memory: replaying what it emitted gives it back, and its events
  are its own and numbered from one.
\<close>

definition wallet_history :: "lib \<Rightarrow> wallet \<Rightarrow> bool" where
  "wallet_history L w \<longleftrightarrow>
     Wallet_Reconstitute L zero_Wallet (w_changes w) = Wallet_ClearChanges w
     \<and> map ev_Version (w_changes w) = map of_nat [1..<Suc (length (w_changes w))]
     \<and> w_Version w = of_nat (length (w_changes w))
     \<and> (\<forall>e \<in> set (w_changes w). ev_WalletID e = w_ID w)"

lemma wallet_history_one_event:
  assumes h: "wallet_history L w" and e: "one_event L w w' e"
  shows "wallet_history L w'"
proof -
  have base: "Wallet_Reconstitute L zero_Wallet (w_changes w) = w\<lparr>w_changes := []\<rparr>"
    using h by (auto simp: wallet_history_def Wallet_ClearChanges_def)
  have w': "w' = (Wallet_Reconstitute L w [e])\<lparr>w_changes := w_changes w @ [e]\<rparr>"
    using e unfolding one_event_def Wallet_apply_Reconstitute by blast
  have cs: "w_changes w' = w_changes w @ [e]" unfolding w' by simp
  have ver: "w_Version w' = ev_Version e" unfolding w' by simp
  have "Wallet_Reconstitute L zero_Wallet (w_changes w') = Wallet_Reconstitute L (w\<lparr>w_changes := []\<rparr>) [e]"
    unfolding cs Wallet_Reconstitute_append base by (rule refl)
  also have "\<dots> = Wallet_ClearChanges w'"
    unfolding w' Wallet_ClearChanges_def Wallet_Reconstitute_set_changes by simp
  finally have replay: "Wallet_Reconstitute L zero_Wallet (w_changes w') = Wallet_ClearChanges w'" .
  have e1: "ev_Version e = w_Version w + 1" "ev_WalletID e = w_ID w"
    using e unfolding one_event_def by blast+
  have h1: "w_Version w = of_nat (length (w_changes w))"
    "map ev_Version (w_changes w) = map of_nat [1..<Suc (length (w_changes w))]"
    "\<forall>x \<in> set (w_changes w). ev_WalletID x = w_ID w"
    using h unfolding wallet_history_def by blast+
  have n: "ev_Version e = of_nat (Suc (length (w_changes w)))"
    unfolding e1 h1 by simp
  have "map ev_Version (w_changes w') = map of_nat [1..<Suc (length (w_changes w'))]"
    using h1(2) n by (simp add: cs)
  moreover have "w_Version w' = of_nat (length (w_changes w'))"
    unfolding ver cs n by simp
  moreover have "\<forall>x \<in> set (w_changes w'). ev_WalletID x = w_ID w'"
    using h1(3) e1(2) w_ID_apply [OF e] by (auto simp: cs)
  ultimately show ?thesis using replay by (simp add: wallet_history_def)
qed

lemma wallet_history_run:
  "wallet_history (rt_lib s) w \<Longrightarrow> Wallet_run cs w s = (w', s') \<Longrightarrow>
     wallet_history (rt_lib s) w' \<and> rt_lib s' = rt_lib s"
proof (induction cs arbitrary: w s)
  case (Cons c cs)
  show ?case
  proof (cases "Wallet_cmd c w s")
    case (Pair r t)
    show ?thesis
    proof (cases r)
      case (Inl e)
      then have "t = s" using Pair by (auto dest: Wallet_cmd_error)
      then show ?thesis using Cons Pair Inl by simp
    next
      case (Inr v)
      then obtain e where e: "one_event (rt_lib s) w v e" "env_step s t"
        using Pair Wallet_cmd_one_event by blast
      then have "rt_lib t = rt_lib s" by (simp add: env_step_def)
      moreover have "wallet_history (rt_lib s) v"
        using Cons.prems(1) e(1) by (rule wallet_history_one_event)
      ultimately show ?thesis using Cons.IH [of t v] Cons.prems(2) Pair Inr by simp
    qed
  qed
qed simp

lemma NewWallet_history:
  assumes L: "uuid_laws (rt_lib s)" and new: "NewWallet u c s = (Inr w, s')"
  shows "wallet_history (rt_lib s) w \<and> env_step s s'"
proof -
  have c: "c \<noteq> ''''" using new by (auto simp: NewWallet_def go_throw_def)
  show ?thesis
    using new unfolding NewWallet_run [OF L c]
    by (auto simp: wallet_history_def Wallet_ClearChanges_def apply_defs payload_simps L
      zero_Wallet_def env_step_def)
qed

section \<open>Properties\<close>

subsection \<open>Event sourcing\<close>

text \<open>C1. Event sourcing loses nothing: after any sequence of commands on a new wallet, replaying
  the events it emitted onto an empty wallet gives the wallet back, and the events belong to the wallet
  and carry the versions 1, 2, 3, ... up to the wallet's own.\<close>

theorem wallet_replay:
  assumes "uuid_laws (rt_lib s)" and "NewWallet userID currency s = (Inr w0, s0)"
    and "Wallet_run cs w0 s0 = (w, s')"
  shows "Wallet_Reconstitute (rt_lib s) zero_Wallet (Wallet_Changes w) = Wallet_ClearChanges w
    \<and> map ev_Version (Wallet_Changes w) = map of_nat [1..<Suc (length (Wallet_Changes w))]
    \<and> w_Version w = of_nat (length (Wallet_Changes w))
    \<and> list_all (\<lambda>e. ev_WalletID e = w_ID w) (Wallet_Changes w)"
proof -
  have "wallet_history (rt_lib s) w0" "rt_lib s0 = rt_lib s"
    using NewWallet_history [OF assms(1,2)] by (simp_all add: env_step_def)
  then have "wallet_history (rt_lib s) w"
    using wallet_history_run [of s0 w0 cs w s'] assms(3) by simp
  then show ?thesis by (simp add: wallet_history_def Wallet_Changes_def list_all_iff)
qed

theorem wallet_replay_witness:
  "let cs = [CmdDeposit 10 ''d'', CmdReserve 4 7, CmdWithdraw 9 ''w''];
       w0 = projr (fst (NewWallet 5 ''BRL'' sample_rt));
       w = fst (Wallet_run cs w0 (snd (NewWallet 5 ''BRL'' sample_rt)))
   in Wallet_Reconstitute sample_lib zero_Wallet (Wallet_Changes w) = Wallet_ClearChanges w
      \<and> length (Wallet_Changes w) = 3 \<and> sint (w_BalanceCents w) = 10 \<and> sint (w_Reserved w) = 4"
proof -
  define cs where "cs = [CmdDeposit 10 ''d'', CmdReserve 4 7, CmdWithdraw 9 ''w'']"
  have new: "NewWallet 5 ''BRL'' sample_rt =
      (Inr (projr (fst (NewWallet 5 ''BRL'' sample_rt))), snd (NewWallet 5 ''BRL'' sample_rt))"
    by (simp add: NewWallet_run)
  note replay = wallet_replay [of sample_rt 5 "''BRL''", OF _ new surjective_pairing, of cs]
  show ?thesis
    using replay
    by (simp add: Let_def cs_def NewWallet_run Wallet_runs Wallet_Changes_def
        Wallet_AvailableBalance_def)
qed

subsection \<open>No overdraft\<close>

text \<open>What a command can add to the available balance, and the amounts callers are meant to give.\<close>

fun cmd_credit :: "wallet_cmd \<Rightarrow> int" where
  "cmd_credit (CmdDeposit a d) = max 0 (sint a)"
| "cmd_credit (CmdRelease a x) = sint a"
| "cmd_credit _ = 0"

fun cmd_sane :: "wallet_cmd \<Rightarrow> bool" where
  "cmd_sane (CmdReserve a x) \<longleftrightarrow> 0 \<le> sint a"
| "cmd_sane (CmdRelease a x) \<longleftrightarrow> 0 \<le> sint a"
| "cmd_sane _ \<longleftrightarrow> True"

lemma cmd_credit_nonneg: "cmd_sane c \<Longrightarrow> 0 \<le> cmd_credit c"
  by (cases c) auto

lemma Wallet_cmd_available:
  assumes sane: "cmd_sane c" and lo: "0 \<le> sint (Wallet_AvailableBalance w)"
    and hi: "sint (Wallet_AvailableBalance w) + cmd_credit c < 2 ^ 63"
    and run: "Wallet_cmd c w s = (Inr w', s')"
  shows "0 \<le> sint (Wallet_AvailableBalance w')
    \<and> sint (Wallet_AvailableBalance w') \<le> sint (Wallet_AvailableBalance w) + cmd_credit c"
proof (cases c)
  case (CmdDeposit a d)
  then have "Wallet_AvailableBalance w' = Wallet_AvailableBalance w + a" "0 < sint a"
    using run by (auto simp: Wallet_runs Wallet_AvailableBalance_def split: if_splits)
  then show ?thesis
    using CmdDeposit lo hi sint_add_i64 [of "Wallet_AvailableBalance w" a] by (auto simp: in_i64_def)
next
  case (CmdWithdraw a d)
  then have "Wallet_AvailableBalance w' = Wallet_AvailableBalance w - a" "0 < sint a"
    "sint a \<le> sint (Wallet_AvailableBalance w)"
    using run by (auto simp: Wallet_runs Wallet_AvailableBalance_def split: if_splits)
  then show ?thesis
    using CmdWithdraw lo hi sint_diff_i64 [of "Wallet_AvailableBalance w" a] by (auto simp: in_i64_def)
next
  case (CmdReserve a x)
  then have "Wallet_AvailableBalance w' = Wallet_AvailableBalance w - a"
    "sint a \<le> sint (Wallet_AvailableBalance w)"
    using run by (auto simp: Wallet_runs Wallet_AvailableBalance_def split: if_splits)
  then show ?thesis
    using CmdReserve sane lo hi sint_diff_i64 [of "Wallet_AvailableBalance w" a]
    by (auto simp: in_i64_def)
next
  case (CmdRelease a x)
  then have "Wallet_AvailableBalance w' = Wallet_AvailableBalance w + a"
    using run by (auto simp: Wallet_runs Wallet_AvailableBalance_def)
  then show ?thesis
    using CmdRelease sane lo hi sint_add_i64 [of "Wallet_AvailableBalance w" a]
    by (auto simp: in_i64_def)
qed

text \<open>C2. No overdraft: as long as reserved and released amounts are not negative and the deposits
  and releases of the run cannot exceed the range of int64, the available balance of a wallet that
  starts non-negative never becomes negative, whatever commands are given and whichever of them are
  refused.\<close>

theorem wallet_no_overdraft:
  assumes "list_all cmd_sane cs" and "0 \<le> sint (Wallet_AvailableBalance w)"
    and "sint (Wallet_AvailableBalance w) + sum_list (map cmd_credit cs) < 2 ^ 63"
    and "Wallet_run cs w s = (w', s')"
  shows "0 \<le> sint (Wallet_AvailableBalance w')"
  using assms
proof (induction cs arbitrary: w s)
  case (Cons c cs)
  have rest: "0 \<le> sum_list (map cmd_credit cs)"
    using Cons.prems(1) by (auto simp: list_all_iff intro!: sum_list_nonneg cmd_credit_nonneg)
  obtain r t where c: "Wallet_cmd c w s = (r, t)" by fastforce
  show ?case
  proof (cases r)
    case (Inl e)
    then show ?thesis
      using Cons.IH [of w t] Cons.prems c cmd_credit_nonneg [of c] by simp
  next
    case (Inr v)
    then have "0 \<le> sint (Wallet_AvailableBalance v)
        \<and> sint (Wallet_AvailableBalance v) \<le> sint (Wallet_AvailableBalance w) + cmd_credit c"
      using Wallet_cmd_available [of c w s v t] Cons.prems c rest by simp
    then show ?thesis using Cons.IH [of v t] Cons.prems c Inr by simp
  qed
qed simp

theorem wallet_no_overdraft_witness:
  "let cs = [CmdDeposit 10 ''d'', CmdReserve 4 7, CmdWithdraw 9 ''w'', CmdRelease 1 7]
   in 0 \<le> sint (Wallet_AvailableBalance (fst (Wallet_run cs zero_Wallet sample_rt)))"
  using wallet_no_overdraft [of "[CmdDeposit 10 ''d'', CmdReserve 4 7, CmdWithdraw 9 ''w'', CmdRelease 1 7]"
      zero_Wallet sample_rt, OF _ _ _ surjective_pairing]
  by (simp add: Let_def zero_Wallet_def Wallet_AvailableBalance_def)

subsection \<open>Where the guards stop\<close>

text \<open>C40. Deposit has no upper bound: whenever the balance and the amount together reach 2^63 the
  deposit succeeds and leaves a negative balance.\<close>

theorem deposit_wraps_negative:
  assumes "0 < sint amountCents" and "2 ^ 63 \<le> sint (w_BalanceCents w) + sint amountCents"
  shows "\<exists>w' s'. Wallet_Deposit w amountCents description s = (Inr w', s')
    \<and> sint (w_BalanceCents w') = sint (w_BalanceCents w) + sint amountCents - 2 ^ 64
    \<and> sint (w_BalanceCents w') < 0"
proof -
  have range: "sint (w_BalanceCents w) < 2 ^ 63" "sint amountCents < 2 ^ 63"
    using sint_in_i64 [of "w_BalanceCents w"] sint_in_i64 [of amountCents]
    unfolding in_i64_def by blast+
  then show ?thesis
    using assms(1) sint_add_wrap_i64 [OF assms(2)] by (simp add: Wallet_Deposit_run)
qed

theorem deposit_wraps_negative_witness:
  "\<exists>w' s'. Wallet_Deposit (zero_Wallet\<lparr>w_BalanceCents := 2 ^ 63 - 1\<rparr>) 1 ''one cent'' sample_rt = (Inr w', s')
     \<and> sint (w_BalanceCents w') < 0"
  using deposit_wraps_negative [of 1 "zero_Wallet\<lparr>w_BalanceCents := 2 ^ 63 - 1\<rparr>" "''one cent''" sample_rt]
  by auto



end
