(* ===== verification/WalletRepository.thy ===== *)
theory WalletRepository
  imports WalletDomain
begin

text \<open>
  The interfaces of the wallet service, \<open>services/wallet/internal/domain/repository.go\<close>: an interface
  is the record of its methods, as the service holds it. What the service relies on is the locale
  \<open>wallet_store\<close>: a log of events per wallet and at most one snapshot per wallet behind the four
  methods, with errors that may hide a write that did happen.
\<close>

record 's EventStore =
  AppendEvents :: "uuid \<Rightarrow> event list \<Rightarrow> i64 \<Rightarrow> ('s, unit) go"
  LoadEvents :: "uuid \<Rightarrow> i64 \<Rightarrow> ('s, event list) go"

record 's SnapshotStore =
  SaveSnapshot :: "wallet \<Rightarrow> ('s, unit) go"
  LoadSnapshot :: "uuid \<Rightarrow> ('s, wallet option \<times> i64) go"

section \<open>Logs of events\<close>

definition log_version :: "event list \<Rightarrow> i64" where
  "log_version l = (if l = [] then 0 else ev_Version (last l))"

text \<open>New events may be appended at version \<open>v\<close>: they are the wallet's own and count up from \<open>v\<close>.\<close>

definition next_events :: "uuid \<Rightarrow> i64 \<Rightarrow> event list \<Rightarrow> bool" where
  "next_events wid v es \<longleftrightarrow> (\<forall>e \<in> set es. ev_WalletID e = wid \<and> sint v < sint (ev_Version e))
     \<and> sorted_wrt (<) (map (\<lambda>e. sint (ev_Version e)) es)"

text \<open>The log \<open>l'\<close> is \<open>l\<close> with \<open>es\<close> appended for \<open>wid\<close>, which was at version \<open>v\<close>.\<close>

definition appended ::
  "(uuid \<Rightarrow> event list) \<Rightarrow> uuid \<Rightarrow> event list \<Rightarrow> i64 \<Rightarrow> (uuid \<Rightarrow> event list) \<Rightarrow> bool"
where
  "appended l wid es v l' \<longleftrightarrow> log_version (l wid) = v \<and> l' = l(wid := l wid @ es)"

text \<open>A wallet as a snapshot keeps it.\<close>

abbreviation stored :: "wallet \<Rightarrow> wallet" where
  "stored w \<equiv> w\<lparr>w_changes := []\<rparr>"

section \<open>The contract\<close>

locale wallet_store =
  fixes es :: "'a rt_scheme EventStore"
    and ss :: "'a rt_scheme SnapshotStore"
    and log :: "'a rt_scheme \<Rightarrow> uuid \<Rightarrow> event list"
    and snaps :: "'a rt_scheme \<Rightarrow> uuid \<Rightarrow> wallet option"
    and inv :: "'a rt_scheme \<Rightarrow> bool"
    and rest :: "'a rt_scheme \<Rightarrow> 'r"
  assumes log_tick [simp]: "log (s\<lparr>rt_tick := k\<rparr>) = log s"
    and snaps_tick [simp]: "snaps (s\<lparr>rt_tick := k\<rparr>) = snaps s"
    and inv_tick [simp]: "inv (s\<lparr>rt_tick := k\<rparr>) = inv s"
    and rest_tick [simp]: "rest (s\<lparr>rt_tick := k\<rparr>) = rest s"
    and append_effect: "AppendEvents es wid xs v s = (r, s') \<Longrightarrow> inv s \<Longrightarrow> next_events wid v xs \<Longrightarrow>
          inv s' \<and> env_step s s' \<and> rest s' = rest s \<and> snaps s' = snaps s
          \<and> (log s' = log s \<or> appended (log s) wid xs v (log s'))"
    and append_ok: "AppendEvents es wid xs v s = (Inr u, s') \<Longrightarrow> inv s \<Longrightarrow> next_events wid v xs \<Longrightarrow>
          appended (log s) wid xs v (log s')"
    and append_succeeds: "no_faults s \<Longrightarrow> inv s \<Longrightarrow> next_events wid v xs \<Longrightarrow> log_version (log s wid) = v \<Longrightarrow>
          distinct (map ev_ID xs) \<Longrightarrow> (\<And>w e. e \<in> set (log s w) \<Longrightarrow> ev_ID e \<notin> ev_ID ` set xs) \<Longrightarrow>
          \<exists>s'. AppendEvents es wid xs v s = (Inr (), s')"
    and load_effect: "LoadEvents es wid after s = (rl, s') \<Longrightarrow> only_tick s s'"
    and load_ok: "LoadEvents es wid after s = (Inr xs, s') \<Longrightarrow> inv s \<Longrightarrow>
          xs = filter (\<lambda>e. sint after < sint (ev_Version e)) (log s wid)"
    and load_succeeds: "no_faults s \<Longrightarrow> \<exists>xs s'. LoadEvents es wid after s = (Inr xs, s')"
    and save_effect: "SaveSnapshot ss w s = (r, s') \<Longrightarrow> inv s \<Longrightarrow>
          (\<And>old. snaps s (w_ID w) = Some old \<Longrightarrow>
             w_Currency old = w_Currency w \<and> w_UserID old = w_UserID w) \<Longrightarrow>
          inv s' \<and> env_step s s' \<and> rest s' = rest s \<and> log s' = log s
          \<and> (snaps s' = snaps s \<or> snaps s' = (snaps s)(w_ID w \<mapsto> stored w))"
    and save_succeeds: "no_faults s \<Longrightarrow> \<exists>s'. SaveSnapshot ss w s = (Inr (), s')"
    and snapshot_effect: "LoadSnapshot ss wid s = (rs, s') \<Longrightarrow> only_tick s s'"
    and snapshot_ok: "LoadSnapshot ss wid s = (Inr (ow, v), s') \<Longrightarrow>
          \<exists>w. ow = Some w \<and> snaps s wid = Some w \<and> v = w_Version w"

end
