(* ===== verification/WalletService.thy ===== *)
theory WalletService
  imports WalletRepository
begin

text \<open>
  \<open>services/wallet/internal/application/wallet_service.go\<close>: load a wallet from its latest snapshot
  and the events after it, run one command, append what it emitted at the version it was loaded at,
  and take a snapshot every \<open>SnapshotInterval\<close> versions. The interfaces the service holds are its
  first two arguments.
\<close>

section \<open>The service\<close>

record CreateWalletResult =
  cr_WalletID :: uuid
  cr_CreatedAt :: time

record BalanceResult =
  br_WalletID :: uuid
  br_BalanceCents :: i64
  br_Currency :: string
  br_Version :: i64

record DepositResult =
  dr_EventID :: uuid
  dr_NewBalance :: i64
  dr_Version :: i64

record WithdrawResult =
  wr_EventID :: uuid
  wr_NewBalance :: i64
  wr_Version :: i64

definition WalletService_load ::
  "'a rt_scheme EventStore \<Rightarrow> 'a rt_scheme SnapshotStore \<Rightarrow> uuid \<Rightarrow> ('a rt_scheme, wallet) go"
where
  "WalletService_load es ss walletID =
     go_bind (go_try (LoadSnapshot ss walletID)) (\<lambda>loaded.
     let (wallet, snapshotVersion) =
           (case loaded of
              Inr (Some snapshot, version) \<Rightarrow> (snapshot, version)
            | _ \<Rightarrow> (zero_Wallet, 0))
     in go_bind (LoadEvents es walletID snapshotVersion) (\<lambda>events.
        if events = [] \<and> snapshotVersion = 0
        then go_throw (errors_New CodeNotFound ''wallet not found'')
        else go_bind (go_gets rt_lib) (\<lambda>L. go_return (Wallet_Reconstitute L wallet events))))"

definition WalletService_maybeSnapshot ::
  "'a rt_scheme SnapshotStore \<Rightarrow> wallet \<Rightarrow> ('a rt_scheme, unit) go"
where
  "WalletService_maybeSnapshot ss w =
     (if sint (w_Version w) mod SnapshotInterval = 0 then SaveSnapshot ss w else go_return ())"

definition WalletService_CreateWallet ::
  "'a rt_scheme EventStore \<Rightarrow> 'a rt_scheme SnapshotStore \<Rightarrow> uuid \<Rightarrow> string
     \<Rightarrow> ('a rt_scheme, CreateWalletResult) go"
where
  "WalletService_CreateWallet es ss userID currency =
     go_bind (NewWallet userID currency) (\<lambda>wallet.
     go_bind (AppendEvents es (w_ID wallet) (Wallet_Changes wallet) 0) (\<lambda>_.
     go_bind time_Now (\<lambda>now.
     go_return \<lparr>cr_WalletID = w_ID wallet, cr_CreatedAt = now\<rparr>)))"

definition WalletService_GetBalance ::
  "'a rt_scheme EventStore \<Rightarrow> 'a rt_scheme SnapshotStore \<Rightarrow> uuid \<Rightarrow> ('a rt_scheme, BalanceResult) go"
where
  "WalletService_GetBalance es ss walletID =
     go_bind (WalletService_load es ss walletID) (\<lambda>wallet.
     go_return \<lparr>br_WalletID = w_ID wallet, br_BalanceCents = w_BalanceCents wallet,
                br_Currency = w_Currency wallet, br_Version = w_Version wallet\<rparr>)"

definition WalletService_Deposit ::
  "'a rt_scheme EventStore \<Rightarrow> 'a rt_scheme SnapshotStore \<Rightarrow> uuid \<Rightarrow> i64 \<Rightarrow> string
     \<Rightarrow> ('a rt_scheme, DepositResult) go"
where
  "WalletService_Deposit es ss walletID amountCents description =
     go_bind (WalletService_load es ss walletID) (\<lambda>wallet0.
     let prevVersion = w_Version wallet0 in
     go_bind (Wallet_Deposit wallet0 amountCents description) (\<lambda>wallet.
     let changes = Wallet_Changes wallet in
     go_bind (AppendEvents es walletID changes prevVersion) (\<lambda>_.
     go_bind (WalletService_maybeSnapshot ss wallet) (\<lambda>_.
     go_return \<lparr>dr_EventID = ev_ID (hd changes), dr_NewBalance = w_BalanceCents wallet,
                dr_Version = w_Version wallet\<rparr>))))"

definition WalletService_Withdraw ::
  "'a rt_scheme EventStore \<Rightarrow> 'a rt_scheme SnapshotStore \<Rightarrow> uuid \<Rightarrow> i64 \<Rightarrow> string
     \<Rightarrow> ('a rt_scheme, WithdrawResult) go"
where
  "WalletService_Withdraw es ss walletID amountCents description =
     go_bind (WalletService_load es ss walletID) (\<lambda>wallet0.
     let prevVersion = w_Version wallet0 in
     go_bind (Wallet_Withdraw wallet0 amountCents description) (\<lambda>wallet.
     let changes = Wallet_Changes wallet in
     go_bind (AppendEvents es walletID changes prevVersion) (\<lambda>_.
     go_bind (WalletService_maybeSnapshot ss wallet) (\<lambda>_.
     go_return \<lparr>wr_EventID = ev_ID (hd changes), wr_NewBalance = w_BalanceCents wallet,
                wr_Version = w_Version wallet\<rparr>))))"

definition WalletService_ReserveForTransaction ::
  "'a rt_scheme EventStore \<Rightarrow> 'a rt_scheme SnapshotStore \<Rightarrow> uuid \<Rightarrow> i64 \<Rightarrow> uuid \<Rightarrow> ('a rt_scheme, unit) go"
where
  "WalletService_ReserveForTransaction es ss walletID amountCents transactionID =
     go_bind (WalletService_load es ss walletID) (\<lambda>wallet0.
     let prevVersion = w_Version wallet0 in
     go_bind (Wallet_Reserve wallet0 amountCents transactionID) (\<lambda>wallet.
     go_bind (AppendEvents es walletID (Wallet_Changes wallet) prevVersion) (\<lambda>_.
     WalletService_maybeSnapshot ss wallet)))"

definition WalletService_CreditForTransaction ::
  "'a rt_scheme EventStore \<Rightarrow> 'a rt_scheme SnapshotStore \<Rightarrow> uuid \<Rightarrow> i64 \<Rightarrow> uuid \<Rightarrow> ('a rt_scheme, unit) go"
where
  "WalletService_CreditForTransaction es ss walletID amountCents transactionID =
     go_bind (WalletService_load es ss walletID) (\<lambda>wallet0.
     let prevVersion = w_Version wallet0 in
     go_bind (Wallet_Deposit wallet0 amountCents ''saga credit'') (\<lambda>wallet.
     go_bind (AppendEvents es walletID (Wallet_Changes wallet) prevVersion) (\<lambda>_.
     WalletService_maybeSnapshot ss wallet)))"

definition WalletService_ReleaseReservation ::
  "'a rt_scheme EventStore \<Rightarrow> 'a rt_scheme SnapshotStore \<Rightarrow> uuid \<Rightarrow> i64 \<Rightarrow> uuid \<Rightarrow> ('a rt_scheme, unit) go"
where
  "WalletService_ReleaseReservation es ss walletID amountCents transactionID =
     go_bind (WalletService_load es ss walletID) (\<lambda>wallet0.
     let prevVersion = w_Version wallet0 in
     go_bind (Wallet_Release wallet0 amountCents transactionID) (\<lambda>wallet.
     go_bind (AppendEvents es walletID (Wallet_Changes wallet) prevVersion) (\<lambda>_.
     WalletService_maybeSnapshot ss wallet)))"

section \<open>What the five updates share\<close>

text \<open>
  Every update loads, runs a command, appends and may take a snapshot. This function is not in the
  source: it is the common prefix, with the wallet it ends with as its result.
\<close>

definition svc_update ::
  "'a rt_scheme EventStore \<Rightarrow> 'a rt_scheme SnapshotStore \<Rightarrow> uuid \<Rightarrow> wallet_cmd \<Rightarrow> ('a rt_scheme, wallet) go"
where
  "svc_update es ss walletID c =
     go_bind (WalletService_load es ss walletID) (\<lambda>wallet0.
     go_bind (Wallet_cmd c wallet0) (\<lambda>wallet.
     go_bind (AppendEvents es walletID (Wallet_Changes wallet) (w_Version wallet0)) (\<lambda>_.
     go_bind (WalletService_maybeSnapshot ss wallet) (\<lambda>_.
     go_return wallet))))"

lemmas svc_update_simps = svc_update_def Let_def go_map_bind go_map_return

lemma WalletService_Deposit_update:
  "WalletService_Deposit es ss wid a d =
     go_map (\<lambda>w. \<lparr>dr_EventID = ev_ID (hd (Wallet_Changes w)), dr_NewBalance = w_BalanceCents w,
                  dr_Version = w_Version w\<rparr>) (svc_update es ss wid (CmdDeposit a d))"
  by (simp add: WalletService_Deposit_def svc_update_simps)

lemma WalletService_Withdraw_update:
  "WalletService_Withdraw es ss wid a d =
     go_map (\<lambda>w. \<lparr>wr_EventID = ev_ID (hd (Wallet_Changes w)), wr_NewBalance = w_BalanceCents w,
                  wr_Version = w_Version w\<rparr>) (svc_update es ss wid (CmdWithdraw a d))"
  by (simp add: WalletService_Withdraw_def svc_update_simps)

lemma WalletService_ReserveForTransaction_update:
  "WalletService_ReserveForTransaction es ss wid a x =
     go_map (\<lambda>_. ()) (svc_update es ss wid (CmdReserve a x))"
  by (simp add: WalletService_ReserveForTransaction_def svc_update_simps)

lemma WalletService_CreditForTransaction_update:
  "WalletService_CreditForTransaction es ss wid a x =
     go_map (\<lambda>_. ()) (svc_update es ss wid (CmdDeposit a ''saga credit''))"
  by (simp add: WalletService_CreditForTransaction_def svc_update_simps)

lemma WalletService_ReleaseReservation_update:
  "WalletService_ReleaseReservation es ss wid a x =
     go_map (\<lambda>_. ()) (svc_update es ss wid (CmdRelease a x))"
  by (simp add: WalletService_ReleaseReservation_def svc_update_simps)

section \<open>The abstract service: accounts\<close>

text \<open>
  What the service promises, without events, snapshots or a database: an account per wallet, and
  commands that either fail or give the new account.
\<close>

definition replay :: "lib \<Rightarrow> event list \<Rightarrow> wallet" where
  "replay L l = Wallet_Reconstitute L zero_Wallet l"

fun spec_cmd :: "wallet_cmd \<Rightarrow> wallet \<Rightarrow> goerr + wallet" where
  "spec_cmd (CmdDeposit a d) w =
     (if sint a \<le> 0 then Inl (errors_New CodeInvalidArgument ''deposit amount must be positive'')
      else Inr (w\<lparr>w_BalanceCents := w_BalanceCents w + a, w_Version := w_Version w + 1\<rparr>))"
| "spec_cmd (CmdWithdraw a d) w =
     (if sint a \<le> 0 then Inl (errors_New CodeInvalidArgument ''withdrawal amount must be positive'')
      else if sint (w_BalanceCents w - w_Reserved w) < sint a
      then Inl (errors_New CodeInsufficientFunds ''insufficient funds'')
      else Inr (w\<lparr>w_BalanceCents := w_BalanceCents w - a, w_Version := w_Version w + 1\<rparr>))"
| "spec_cmd (CmdReserve a x) w =
     (if sint (w_BalanceCents w - w_Reserved w) < sint a
      then Inl (errors_New CodeInsufficientFunds ''insufficient funds to reserve'')
      else Inr (w\<lparr>w_Reserved := w_Reserved w + a, w_Version := w_Version w + 1\<rparr>))"
| "spec_cmd (CmdRelease a x) w =
     Inr (w\<lparr>w_Reserved := w_Reserved w - a, w_Version := w_Version w + 1\<rparr>)"

definition accounts :: "lib \<Rightarrow> (uuid \<Rightarrow> event list) \<Rightarrow> uuid \<Rightarrow> wallet option" where
  "accounts L lg wid = (if lg wid = [] then None else Some (replay L (lg wid)))"

definition spec_update ::
  "wallet_cmd \<Rightarrow> uuid \<Rightarrow> (uuid \<Rightarrow> wallet option) \<Rightarrow> goerr + (uuid \<Rightarrow> wallet option)"
where
  "spec_update c wid acc =
     (case acc wid of
        None \<Rightarrow> Inl (errors_New CodeNotFound ''wallet not found'')
      | Some w \<Rightarrow> (case spec_cmd c w of Inl e \<Rightarrow> Inl e | Inr w' \<Rightarrow> Inr (acc(wid \<mapsto> w'))))"

lemma replay_append: "replay L (l @ l') = Wallet_Reconstitute L (replay L l) l'"
  by (simp add: replay_def Wallet_Reconstitute_append)

lemma Wallet_Reconstitute_changes [simp]: "w_changes (Wallet_Reconstitute L w l) = w_changes w"
  by (induction l arbitrary: w) simp_all

lemma replay_changes [simp]: "w_changes (replay L l) = []"
  by (simp add: replay_def zero_Wallet_def)

lemma stored_replay [simp]: "stored (replay L l) = replay L l"
  using replay_changes [of L l] by (metis wallet.surjective wallet.update_convs(7))

text \<open>A command of the aggregate implements the abstract one and emits one event for it.\<close>

lemma Wallet_cmd_spec:
  "Wallet_cmd c w s = (r, s') \<Longrightarrow>
     (case spec_cmd c w of
        Inl e \<Rightarrow> r = Inl e \<and> s' = s
      | Inr w' \<Rightarrow> \<exists>e. r = Inr (w'\<lparr>w_changes := w_changes w @ [e]\<rparr>)
                  \<and> ev_ID e = rt_uuid s (rt_tick s) \<and> s' = s\<lparr>rt_tick := Suc (Suc (rt_tick s))\<rparr>)"
  by (cases c) (auto simp: Wallet_runs Wallet_AvailableBalance_def split: if_splits)

section \<open>Well-formed logs and snapshots\<close>

definition numbered :: "event list \<Rightarrow> bool" where
  "numbered l \<longleftrightarrow> int (length l) < 2 ^ 63 \<and> map ev_Version l = map of_nat [1..<Suc (length l)]"

definition own_log :: "uuid \<Rightarrow> event list \<Rightarrow> bool" where
  "own_log wid l \<longleftrightarrow> list_all (\<lambda>e. ev_WalletID e = wid) l
     \<and> (l \<noteq> [] \<longrightarrow> ev_Type (hd l) = EventWalletCreated
           \<and> list_all (\<lambda>e. ev_Type e \<noteq> EventWalletCreated) (tl l))"

definition prefix_replay :: "lib \<Rightarrow> event list \<Rightarrow> wallet \<Rightarrow> bool" where
  "prefix_replay L l w \<longleftrightarrow> list_ex (\<lambda>n. w = replay L (take n l)) [1..<Suc (length l)]"

text \<open>Every snapshot is the replay of a non-empty prefix of its wallet's log.\<close>

definition coherent ::
  "lib \<Rightarrow> (uuid \<Rightarrow> event list) \<Rightarrow> (uuid \<Rightarrow> wallet option) \<Rightarrow> bool"
where
  "coherent L lg sn \<longleftrightarrow>
     (\<forall>wid. numbered (lg wid) \<and> own_log wid (lg wid)
        \<and> pred_option (prefix_replay L (lg wid)) (sn wid))"

lemma prefix_replayI: "0 < n \<Longrightarrow> n \<le> length l \<Longrightarrow> prefix_replay L l (replay L (take n l))"
  by (force simp: prefix_replay_def list_ex_iff)

lemma prefix_replayE:
  assumes "prefix_replay L l w"
  obtains n where "0 < n" and "n \<le> length l" and "w = replay L (take n l)"
proof -
  obtain n where n: "n \<in> set [1..<Suc (length l)]" and w: "w = replay L (take n l)"
    using assms unfolding prefix_replay_def list_ex_iff by blast
  from n have "0 < n" "n \<le> length l" by auto
  then show ?thesis using w by (rule that)
qed

lemma prefix_replay_full: "l \<noteq> [] \<Longrightarrow> prefix_replay L l (replay L l)"
  using prefix_replayI [of "length l" l L] by simp

lemma prefix_replay_snoc: "prefix_replay L l w \<Longrightarrow> prefix_replay L (l @ [e]) w"
proof (elim prefix_replayE)
  fix n
  assume "0 < n" "n \<le> length l" and w: "w = replay L (take n l)"
  then have "prefix_replay L (l @ [e]) (replay L (take n (l @ [e])))"
    by (intro prefix_replayI) simp_all
  then show ?thesis using w \<open>n \<le> length l\<close> by simp
qed

lemma numbered_nth:
  assumes "numbered l" and "i < length l"
  shows "ev_Version (l ! i) = of_nat (Suc i)" and "sint (ev_Version (l ! i)) = int (Suc i)"
proof -
  have "ev_Version (l ! i) = map ev_Version l ! i" using assms(2) by simp
  also have "\<dots> = of_nat (Suc i)"
    using assms unfolding numbered_def by (simp add: nth_append del: upt_Suc)
  finally show v: "ev_Version (l ! i) = of_nat (Suc i)" .
  show "sint (ev_Version (l ! i)) = int (Suc i)"
    unfolding v by (rule sint_of_nat_i64) (use assms in \<open>simp add: numbered_def\<close>)
qed

lemma numbered_version:
  assumes "numbered l" and "n \<le> length l"
  shows "w_Version (replay L (take n l)) = of_nat n"
proof (cases n)
  case 0
  then show ?thesis by (simp add: replay_def zero_Wallet_def)
next
  case (Suc m)
  then have "take n l \<noteq> []" "last (take n l) = l ! m"
    using assms(2) by (auto simp: take_Suc_conv_app_nth)
  then show ?thesis
    using numbered_nth(1) [OF assms(1), of m] assms(2) Suc
    by (simp add: replay_def Wallet_Reconstitute_Version)
qed

lemma log_version_numbered: "numbered l \<Longrightarrow> log_version l = of_nat (length l)"
  using numbered_nth(1) [of l "length l - 1"]
  by (cases "l = []") (simp_all add: log_version_def last_conv_nth)

text \<open>Reading the events after version \<open>n\<close> skips exactly the first \<open>n\<close>.\<close>

lemma numbered_filter_after:
  assumes "numbered l" and "n \<le> length l"
  shows "filter (\<lambda>e. sint (of_nat n :: i64) < sint (ev_Version e)) l = drop n l"
proof -
  let ?P = "\<lambda>e. sint (of_nat n :: i64) < sint (ev_Version e)"
  have n: "sint (of_nat n :: i64) = int n"
    by (rule sint_of_nat_i64) (use assms in \<open>simp add: numbered_def\<close>)
  have "filter ?P (take n l) = []"
  proof (rule filter_False, rule ballI)
    fix e assume "e \<in> set (take n l)"
    then obtain i where "i < n" "e = l ! i" using assms(2) by (auto simp: in_set_conv_nth)
    then show "\<not> ?P e" using numbered_nth(2) [OF assms(1), of i] assms(2) n by simp
  qed
  moreover have "filter ?P (drop n l) = drop n l"
  proof (rule filter_True, rule ballI)
    fix e assume "e \<in> set (drop n l)"
    then obtain i where "i < length l - n" "e = l ! (n + i)" by (auto simp: in_set_conv_nth)
    then show "?P e" using numbered_nth(2) [OF assms(1), of "n + i"] n by simp
  qed
  ultimately show ?thesis by (metis append_Nil append_take_drop_id filter_append)
qed

text \<open>What was replayed up to version \<open>k\<close> and what is read after it make the whole log, however much
  the log has grown since.\<close>

lemma load_prefix:
  assumes num: "numbered l" and k: "k \<le> length l"
  shows "Wallet_Reconstitute L (replay L (take k l)) (filter (\<lambda>e. sint (of_nat k :: i64) < sint (ev_Version e)) l)
           = replay L l"
    and "filter (\<lambda>e. sint (of_nat k :: i64) < sint (ev_Version e)) l = [] \<and> (of_nat k :: i64) = 0 \<longleftrightarrow> l = []"
proof -
  note f = numbered_filter_after [OF num k]
  show "Wallet_Reconstitute L (replay L (take k l)) (filter (\<lambda>e. sint (of_nat k :: i64) < sint (ev_Version e)) l)
      = replay L l"
    unfolding f by (metis append_take_drop_id replay_append)
  have "sint (of_nat k :: i64) = int k"
    by (rule sint_of_nat_i64) (use num k in \<open>simp add: numbered_def\<close>)
  then have "(of_nat k :: i64) = 0 \<longleftrightarrow> k = 0" by auto
  then show "filter (\<lambda>e. sint (of_nat k :: i64) < sint (ev_Version e)) l = [] \<and> (of_nat k :: i64) = 0 \<longleftrightarrow> l = []"
    unfolding f using k by auto
qed

lemma numbered_snoc:
  assumes "numbered l" and "int (Suc (length l)) < 2 ^ 63" and "ev_Version e = log_version l + 1"
  shows "numbered (l @ [e])"
  using assms log_version_numbered [OF assms(1)] by (simp add: numbered_def)

text \<open>Only the creation event sets the identity of a wallet.\<close>

lemma applyEvent_identity:
  "ev_Type e \<noteq> EventWalletCreated \<Longrightarrow>
     w_ID (Wallet_applyEvent L w e) = w_ID w \<and> w_UserID (Wallet_applyEvent L w e) = w_UserID w
     \<and> w_Currency (Wallet_applyEvent L w e) = w_Currency w"
  by (simp add: Wallet_applyEvent_def Let_def)

lemma Reconstitute_identity:
  "list_all (\<lambda>e. ev_Type e \<noteq> EventWalletCreated) l \<Longrightarrow>
     w_ID (Wallet_Reconstitute L w l) = w_ID w \<and> w_UserID (Wallet_Reconstitute L w l) = w_UserID w
     \<and> w_Currency (Wallet_Reconstitute L w l) = w_Currency w"
  by (induction l arbitrary: w) (simp_all add: applyEvent_identity)

lemma replay_identity:
  assumes "own_log wid l" and "0 < n" and "n \<le> length l"
  shows "w_ID (replay L (take n l)) = wid"
    and "w_UserID (replay L (take n l)) = w_UserID (replay L l)"
    and "w_Currency (replay L (take n l)) = w_Currency (replay L l)"
proof -
  obtain e l' where l: "l = e # l'" using assms(2,3) by (cases l) auto
  have e: "ev_Type e = EventWalletCreated" "ev_WalletID e = wid"
    "list_all (\<lambda>e. ev_Type e \<noteq> EventWalletCreated) l'"
    using assms(1) by (simp_all add: own_log_def l)
  obtain m where n: "n = Suc m" using assms(2) by (cases n) auto
  have "list_all (\<lambda>e. ev_Type e \<noteq> EventWalletCreated) (take m l')"
    using e(3) by (auto simp: list_all_iff dest: in_set_takeD)
  note ids = Reconstitute_identity [OF this] Reconstitute_identity [OF e(3)]
  show "w_ID (replay L (take n l)) = wid"
    using e ids by (simp add: replay_def l n Wallet_applyEvent_def Let_def)
  show "w_UserID (replay L (take n l)) = w_UserID (replay L l)"
    "w_Currency (replay L (take n l)) = w_Currency (replay L l)"
    using ids by (simp_all add: replay_def l n)
qed

text \<open>The log of an existing wallet grows by the event of a command, and stays well formed.\<close>

lemma coherent_append:
  assumes "coherent L lg sn" and "lg wid \<noteq> []" and "int (Suc (length (lg wid))) < 2 ^ 63"
    and e: "ev_Version e = log_version (lg wid) + 1" "ev_WalletID e = wid"
      "ev_Type e \<noteq> EventWalletCreated"
  shows "coherent L (lg(wid := lg wid @ [e])) sn"
  unfolding coherent_def
proof (intro allI conjI)
  fix x
  have c: "numbered (lg x)" "own_log x (lg x)" "pred_option (prefix_replay L (lg x)) (sn x)"
    using assms(1) unfolding coherent_def by blast+
  show "numbered ((lg(wid := lg wid @ [e])) x)"
  proof (cases "x = wid")
    case True
    then show ?thesis using numbered_snoc [of "lg wid" e] c(1) assms(3) e(1) by simp
  qed (use c(1) in simp)
  show "own_log x ((lg(wid := lg wid @ [e])) x)"
    using c(2) assms(2) e by (auto simp: own_log_def)
  show "pred_option (prefix_replay L ((lg(wid := lg wid @ [e])) x)) (sn x)"
    using c(3) by (auto simp: prefix_replay_snoc option.pred_set)
qed

lemma coherent_save:
  "coherent L lg sn \<Longrightarrow> lg wid \<noteq> [] \<Longrightarrow> coherent L lg (sn(wid \<mapsto> replay L (lg wid)))"
  by (simp add: coherent_def prefix_replay_full)

text \<open>Everything the service needs of the event a command emits on a loaded wallet.\<close>

lemma command_event:
  assumes coh: "coherent L lg sn" and ne: "lg wid \<noteq> []"
    and room: "int (Suc (length (lg wid))) < 2 ^ 63"
    and run: "Wallet_cmd c (replay L (lg wid)) t = (Inr w, t')" and L: "rt_lib t = L"
  obtains e where "Wallet_Changes w = [e]" and "next_events wid (log_version (lg wid)) [e]"
    and "w_Version (replay L (lg wid)) = log_version (lg wid)"
    and "replay L (lg wid @ [e]) = stored w" and "spec_cmd c (replay L (lg wid)) = Inr (stored w)"
    and "coherent L (lg(wid := lg wid @ [e])) sn" and "w_ID w = wid"
    and "\<And>old. sn wid = Some old \<Longrightarrow> w_Currency old = w_Currency w \<and> w_UserID old = w_UserID w"
    and "ev_ID e = rt_uuid t (rt_tick t)"
proof -
  let ?l = "lg wid" and ?w0 = "replay L (lg wid)"
  have num: "numbered ?l" and own: "own_log wid ?l"
    and snap: "pred_option (prefix_replay L ?l) (sn wid)"
    using coh unfolding coherent_def by blast+
  have lv: "log_version ?l = of_nat (length ?l)" by (rule log_version_numbered [OF num])
  have v0: "w_Version ?w0 = log_version ?l"
    using numbered_version [OF num, of "length ?l" L] lv by simp
  have id0: "w_ID ?w0 = wid"
    using replay_identity(1) [OF own, of "length ?l" L] ne by simp
  obtain e where e: "one_event L ?w0 w e" using Wallet_cmd_one_event [OF run] L by blast
  then have ev: "w = Wallet_apply L ?w0 e" "ev_WalletID e = wid" "ev_Version e = log_version ?l + 1"
    "ev_Type e \<noteq> EventWalletCreated"
    unfolding one_event_def id0 v0 by blast+
  have w: "w = (replay L (?l @ [e]))\<lparr>w_changes := [e]\<rparr>"
    unfolding ev(1) Wallet_apply_Reconstitute replay_append by simp
  have changes: "Wallet_Changes w = [e]" unfolding w Wallet_Changes_def by simp
  have rep: "replay L (?l @ [e]) = stored w"
    unfolding w using stored_replay [of L "?l @ [e]"] by simp
  have ident: "w_UserID w = w_UserID ?w0 \<and> w_Currency w = w_Currency ?w0 \<and> w_ID w = wid"
    unfolding w replay_append using applyEvent_identity [OF ev(4), of L ?w0] id0 by simp
  show thesis
  proof (rule that [of e])
    have "sint (of_nat (length ?l) :: i64) = int (length ?l)"
      "sint (of_nat (Suc (length ?l)) :: i64) = int (Suc (length ?l))"
      by (rule sint_of_nat_i64, use room in simp)+
    then show "next_events wid (log_version ?l) [e]"
      using ev(2,3) by (simp add: next_events_def lv add.commute)
    show "spec_cmd c ?w0 = Inr (stored w)"
    proof (cases "spec_cmd c ?w0")
      case (Inl x)
      then show ?thesis using Wallet_cmd_spec [OF run] by simp
    next
      case (Inr w')
      then obtain e' where "w = w'\<lparr>w_changes := [e']\<rparr>" using Wallet_cmd_spec [OF run] by auto
      moreover have "w_changes w' = []"
        using Inr by (cases c) (auto split: if_splits)
      ultimately show ?thesis using Inr by simp
    qed
    show "coherent L (lg(wid := ?l @ [e])) sn"
      by (rule coherent_append [OF coh ne room ev(3) ev(2) ev(4)])
    show "w_Currency old = w_Currency w \<and> w_UserID old = w_UserID w" if "sn wid = Some old" for old
    proof -
      have "prefix_replay L ?l old" using snap that by simp
      then show ?thesis
        by (elim prefix_replayE) (use replay_identity(2,3) [OF own] ident in simp)
    qed
    show "ev_ID e = rt_uuid t (rt_tick t)"
    proof (cases "spec_cmd c ?w0")
      case (Inl x)
      then show ?thesis using Wallet_cmd_spec [OF run] by simp
    next
      case (Inr w')
      then obtain e' where "w = w'\<lparr>w_changes := [e']\<rparr>" "ev_ID e' = rt_uuid t (rt_tick t)"
        using Wallet_cmd_spec [OF run] by auto
      then show ?thesis using changes by (simp add: Wallet_Changes_def)
    qed
  qed (use changes rep v0 ident in simp_all)
qed

section \<open>The service over any store that keeps the contract\<close>

context wallet_store
begin

definition store_ok :: "'a rt_scheme \<Rightarrow> bool" where
  "store_ok s \<longleftrightarrow> inv s \<and> coherent (rt_lib s) (log s) (snaps s)"

lemma store_okD:
  assumes "store_ok s"
  shows "inv s" "numbered (log s wid)" "own_log wid (log s wid)"
    "snaps s wid = Some w \<Longrightarrow> prefix_replay (rt_lib s) (log s wid) w"
proof -
  have "numbered (log s wid) \<and> own_log wid (log s wid)
      \<and> pred_option (prefix_replay (rt_lib s) (log s wid)) (snaps s wid)" and inv: "inv s"
    using assms unfolding store_ok_def coherent_def by blast+
  then show "numbered (log s wid)" "own_log wid (log s wid)"
    "snaps s wid = Some w \<Longrightarrow> prefix_replay (rt_lib s) (log s wid) w" by simp_all
  show "inv s" by (rule inv)
qed

lemma store_ok_tick [simp]: "store_ok (s\<lparr>rt_tick := k\<rparr>) = store_ok s"
  by (simp add: store_ok_def)

text \<open>
  Loading is replaying the whole log: the snapshot, when there is one and it could be read, only
  saves the prefix it stands for. A failed read of the snapshot costs time, not correctness.
\<close>

lemma load_from:
  assumes ok: "store_ok s"
    and base: "(w0, v0) = (case loaded of Inr (Some w, v) \<Rightarrow> (w, v) | _ \<Rightarrow> (zero_Wallet, 0))"
    and loaded: "\<And>w v. loaded = Inr (Some w, v) \<Longrightarrow> snaps s wid = Some w \<and> v = w_Version w"
  shows "Wallet_Reconstitute (rt_lib s) w0 (filter (\<lambda>e. sint v0 < sint (ev_Version e)) (log s wid))
           = replay (rt_lib s) (log s wid)"
    and "filter (\<lambda>e. sint v0 < sint (ev_Version e)) (log s wid) = [] \<and> v0 = 0 \<longleftrightarrow> log s wid = []"
proof -
  let ?l = "log s wid" and ?L = "rt_lib s"
  have num: "numbered ?l" using store_okD(2) [OF ok] .
  obtain n where n: "n \<le> length ?l" "w0 = replay ?L (take n ?l)" "v0 = of_nat n"
  proof (cases "\<exists>w v. loaded = Inr (Some w, v)")
    case True
    then obtain w v where l: "loaded = Inr (Some w, v)" by blast
    then have "prefix_replay ?L ?l w"
      using store_okD(4) [OF ok] loaded [OF l] by blast
    then obtain n where "0 < n" "n \<le> length ?l" "w = replay ?L (take n ?l)"
      by (rule prefix_replayE)
    moreover have "w0 = w" "v0 = w_Version w" using base loaded [OF l] l by simp_all
    ultimately show ?thesis
      using that [of n] numbered_version [OF num, of n ?L] by blast
  next
    case False
    then have "w0 = zero_Wallet" "v0 = 0"
      using base by (auto split: sum.splits option.splits prod.splits)
    then show ?thesis using that [of 0] by (simp add: replay_def)
  qed
  show "Wallet_Reconstitute ?L w0 (filter (\<lambda>e. sint v0 < sint (ev_Version e)) ?l) = replay ?L ?l"
    unfolding n(2,3) by (rule load_prefix(1) [OF num n(1)])
  show "filter (\<lambda>e. sint v0 < sint (ev_Version e)) ?l = [] \<and> v0 = 0 \<longleftrightarrow> ?l = []"
    unfolding n(3) by (rule load_prefix(2) [OF num n(1)])
qed

lemma load_spec:
  assumes ok: "store_ok s" and run: "WalletService_load es ss wid s = (r, s')"
  shows "only_tick s s'"
    and "r = Inr w \<Longrightarrow> log s wid \<noteq> [] \<and> w = replay (rt_lib s) (log s wid)"
    and "no_faults s \<Longrightarrow> r = (if log s wid = [] then Inl (errors_New CodeNotFound ''wallet not found'')
           else Inr (replay (rt_lib s) (log s wid)))"
proof -
  let ?l = "log s wid" and ?L = "rt_lib s"
  obtain loaded s1 where snap: "LoadSnapshot ss wid s = (loaded, s1)" by fastforce
  have st1: "only_tick s s1" by (rule snapshot_effect [OF snap])
  then obtain k1 where s1: "s1 = s\<lparr>rt_tick := k1\<rparr>" by (rule only_tickE)
  obtain w0 v0 where base: "(w0, v0) = (case loaded of Inr (Some w, v) \<Rightarrow> (w, v) | _ \<Rightarrow> (zero_Wallet, 0))"
    by (metis surj_pair)
  obtain evs s2 where load: "LoadEvents es wid v0 s1 = (evs, s2)" by fastforce
  have st2: "only_tick s1 s2" by (rule load_effect [OF load])
  then obtain k2 where s2: "s2 = s1\<lparr>rt_tick := k2\<rparr>" by (rule only_tickE)
  have loaded: "snaps s wid = Some w \<and> v = w_Version w" if "loaded = Inr (Some w, v)" for w v
    using snapshot_ok [of wid s "Some w" v s1] snap that by auto
  note reads = load_from [OF ok base loaded]
  have lib: "rt_lib s2 = ?L" by (simp add: s1 s2)
  have body: "WalletService_load es ss wid s =
      (case evs of
         Inl e \<Rightarrow> (Inl e, s2)
       | Inr xs \<Rightarrow> (if xs = [] \<and> v0 = 0 then Inl (errors_New CodeNotFound ''wallet not found'')
                   else Inr (Wallet_Reconstitute ?L w0 xs), s2))"
    unfolding WalletService_load_def Let_def
    by (simp add: go_simps snap base [symmetric] load lib split: sum.splits)
  have "s' = s2" using run body by (auto split: sum.splits)
  then show "only_tick s s'" using only_tick_trans [OF st1 st2] by simp
  have xs: "xs = filter (\<lambda>e. sint v0 < sint (ev_Version e)) ?l" if "evs = Inr xs" for xs
    using load_ok [of wid v0 s1 xs s2] load that store_okD(1) [OF ok] by (simp add: s1)
  have res: "r = (if ?l = [] then Inl (errors_New CodeNotFound ''wallet not found'')
      else Inr (replay ?L ?l))" if "evs = Inr xs" for xs
    using run body that xs [OF that] reads by auto
  show "log s wid \<noteq> [] \<and> w = replay ?L ?l" if "r = Inr w"
    using run body res that by (auto split: sum.splits if_splits)
  show "r = (if ?l = [] then Inl (errors_New CodeNotFound ''wallet not found'')
      else Inr (replay ?L ?l))" if "no_faults s"
  proof -
    have "no_faults s1" using that by (simp add: s1)
    then have "\<exists>xs. evs = Inr xs" using load_succeeds [of s1 wid v0] load by auto
    then show ?thesis using res by blast
  qed
qed

end

section \<open>Updates implement the abstract service\<close>

lemma accounts_append:
  "accounts L (lg(wid := lg wid @ [e])) = (accounts L lg)(wid \<mapsto> replay L (lg wid @ [e]))"
  by (rule ext) (simp add: accounts_def)

definition ids_fresh :: "'a rt_scheme \<Rightarrow> (uuid \<Rightarrow> event list) \<Rightarrow> bool" where
  "ids_fresh s lg \<longleftrightarrow> (\<forall>k \<ge> rt_tick s. \<forall>wid. rt_uuid s k \<notin> ev_ID ` set (lg wid))"

text \<open>What an update may have done to the store when it returns, whatever it returns.\<close>

definition update_outcome ::
  "lib \<Rightarrow> wallet_cmd \<Rightarrow> uuid \<Rightarrow> (uuid \<Rightarrow> event list) \<Rightarrow> goerr + wallet \<Rightarrow> (uuid \<Rightarrow> event list) \<Rightarrow> bool"
where
  "update_outcome L c wid lg r lg' \<longleftrightarrow>
     (case r of
        Inl e \<Rightarrow> accounts L lg' = accounts L lg \<or> spec_update c wid (accounts L lg) = Inr (accounts L lg')
      | Inr w \<Rightarrow> spec_update c wid (accounts L lg) = Inr (accounts L lg')
               \<and> accounts L lg' wid = Some (stored w)
               \<and> Wallet_Changes w = [last (lg' wid)])"

text \<open>At most one event was added, to the log of that wallet.\<close>

definition grown :: "(uuid \<Rightarrow> event list) \<Rightarrow> uuid \<Rightarrow> (uuid \<Rightarrow> event list) \<Rightarrow> bool" where
  "grown lg wid lg' \<longleftrightarrow> lg' = lg \<or> (\<exists>e. lg' = lg(wid := lg wid @ [e]))"

lemma spec_update_existing:
  "lg wid \<noteq> [] \<Longrightarrow> spec_cmd c (replay L (lg wid)) = Inr w' \<Longrightarrow> replay L (lg wid @ [e]) = w' \<Longrightarrow>
     spec_update c wid (accounts L lg) = Inr (accounts L (lg(wid := lg wid @ [e])))"
  by (simp add: spec_update_def accounts_append) (simp add: accounts_def)

context wallet_store
begin

lemma maybeSnapshot_spec:
  assumes ok: "store_ok s" and ne: "log s (w_ID w) \<noteq> []"
    and w: "stored w = replay (rt_lib s) (log s (w_ID w))"
    and ident: "\<And>old. snaps s (w_ID w) = Some old \<Longrightarrow> w_Currency old = w_Currency w \<and> w_UserID old = w_UserID w"
    and run: "WalletService_maybeSnapshot ss w s = (r, s')"
  shows "store_ok s' \<and> env_step s s' \<and> log s' = log s \<and> rest s' = rest s"
    and "no_faults s \<Longrightarrow> r = Inr ()"
proof -
  show "store_ok s' \<and> env_step s s' \<and> log s' = log s \<and> rest s' = rest s"
  proof (cases "sint (w_Version w) mod SnapshotInterval = 0")
    case True
    then have save: "SaveSnapshot ss w s = (r, s')"
      using run by (simp add: WalletService_maybeSnapshot_def)
    have eff: "inv s'" "env_step s s'" "log s' = log s" "rest s' = rest s"
      "snaps s' = snaps s \<or> snaps s' = (snaps s)(w_ID w \<mapsto> stored w)"
      using save_effect [OF save store_okD(1) [OF ok] ident] by blast+
    have L: "rt_lib s' = rt_lib s" using eff(2) by (simp add: env_step_def)
    have "coherent (rt_lib s) (log s) (snaps s)" using ok by (simp add: store_ok_def)
    then have "coherent (rt_lib s') (log s') (snaps s')"
      using eff(5) coherent_save [of "rt_lib s" "log s" "snaps s" "w_ID w"] ne w L eff(3) by auto
    then show ?thesis using eff by (simp add: store_ok_def)
  next
    case False
    then show ?thesis using run ok by (simp add: WalletService_maybeSnapshot_def go_return_def)
  qed
  show "r = Inr ()" if "no_faults s"
    using run save_succeeds [OF that, of w]
    by (auto simp: WalletService_maybeSnapshot_def go_return_def split: if_splits)
qed

lemma update_steps:
  assumes "svc_update es ss wid c s = (r, s')"
  obtains (load) e where "WalletService_load es ss wid s = (Inl e, s')" "r = Inl e"
    | (command) w0 s1 e where "WalletService_load es ss wid s = (Inr w0, s1)"
        "Wallet_cmd c w0 s1 = (Inl e, s')" "r = Inl e"
    | (append) w0 s1 w s2 e where "WalletService_load es ss wid s = (Inr w0, s1)"
        "Wallet_cmd c w0 s1 = (Inr w, s2)"
        "AppendEvents es wid (Wallet_Changes w) (w_Version w0) s2 = (Inl e, s')" "r = Inl e"
    | (snapshot) w0 s1 w s2 s3 q where "WalletService_load es ss wid s = (Inr w0, s1)"
        "Wallet_cmd c w0 s1 = (Inr w, s2)"
        "AppendEvents es wid (Wallet_Changes w) (w_Version w0) s2 = (Inr (), s3)"
        "WalletService_maybeSnapshot ss w s3 = (q, s')"
        "r = (case q of Inl e \<Rightarrow> Inl e | Inr u \<Rightarrow> Inr w)"
  using assms
  by (auto simp: svc_update_def go_simps split: prod.splits sum.splits)

lemma append_event:
  assumes ok: "store_ok s2" and e: "next_events wid (log_version (log s2 wid)) [e]"
    and coh: "coherent (rt_lib s2) ((log s2)(wid := log s2 wid @ [e])) (snaps s2)"
    and run: "AppendEvents es wid [e] (log_version (log s2 wid)) s2 = (r, s3)"
  shows "store_ok s3 \<and> env_step s2 s3 \<and> snaps s3 = snaps s2 \<and> rest s3 = rest s2
      \<and> (log s3 = log s2 \<or> log s3 = (log s2)(wid := log s2 wid @ [e]))"
    and "r = Inr u \<Longrightarrow> log s3 = (log s2)(wid := log s2 wid @ [e])"
proof -
  have inv: "inv s2" using ok by (rule store_okD)
  have eff: "inv s3" "env_step s2 s3" "snaps s3 = snaps s2"
      "rest s3 = rest s2" "log s3 = log s2 \<or> log s3 = (log s2)(wid := log s2 wid @ [e])"
    using append_effect [OF run inv e] unfolding appended_def by blast+
  have "rt_lib s3 = rt_lib s2" using eff(2) by (simp add: env_step_def)
  then have "coherent (rt_lib s3) (log s3) (snaps s3)"
    using eff(3,5) coh ok unfolding store_ok_def by auto
  then show "store_ok s3 \<and> env_step s2 s3 \<and> snaps s3 = snaps s2 \<and> rest s3 = rest s2
      \<and> (log s3 = log s2 \<or> log s3 = (log s2)(wid := log s2 wid @ [e]))"
    using eff by (simp add: store_ok_def)
  show "log s3 = (log s2)(wid := log s2 wid @ [e])" if "r = Inr u"
    using append_ok [OF _ inv e] run that unfolding appended_def by blast
qed

text \<open>
  The main lemma. An update that succeeds did the abstract command; one that fails did nothing, or
  did it and lost the answer. The store stays well formed in every case.
\<close>

lemma update_refines:
  assumes ok: "store_ok s" and room: "int (Suc (length (log s wid))) < 2 ^ 63"
    and run: "svc_update es ss wid c s = (r, s')"
  shows "store_ok s' \<and> env_step s s' \<and> update_outcome (rt_lib s) c wid (log s) r (log s')
    \<and> grown (log s) wid (log s') \<and> rest s' = rest s"
  using run
proof (cases rule: update_steps)
  case (load e)
  have "only_tick s s'" by (rule load_spec(1) [OF ok load(1)])
  then show ?thesis using load(2) ok by (elim only_tickE) (simp add: update_outcome_def grown_def)
next
  case (command w0 s1 e)
  then have "s' = s1" by (auto dest: Wallet_cmd_error)
  then have "only_tick s s'" using load_spec(1) [OF ok command(1)] by simp
  then show ?thesis using command(3) ok by (elim only_tickE) (simp add: update_outcome_def grown_def)
next
  case (append w0 s1 w s2 e)
  obtain k1 where k1: "rt_tick s \<le> k1" and s1: "s1 = s\<lparr>rt_tick := k1\<rparr>"
    using load_spec(1) [OF ok append(1)] by (rule only_tickE)
  have w0: "log s wid \<noteq> []" "w0 = replay (rt_lib s) (log s wid)"
    using load_spec(2) [OF ok append(1)] by blast+
  have coh: "coherent (rt_lib s) (log s) (snaps s)" using ok by (simp add: store_ok_def)
  have lib1: "rt_lib s1 = rt_lib s" by (simp add: s1)
  from command_event [OF coh w0(1) room append(2) [unfolded w0(2)] lib1]
  obtain x where x: "Wallet_Changes w = [x]" "next_events wid (log_version (log s wid)) [x]"
    "w_Version w0 = log_version (log s wid)" "replay (rt_lib s) (log s wid @ [x]) = stored w"
    "spec_cmd c w0 = Inr (stored w)"
    "coherent (rt_lib s) ((log s)(wid := log s wid @ [x])) (snaps s)"
    unfolding w0(2) by metis
  obtain k2 where k2: "rt_tick s \<le> k2" and s2: "s2 = s\<lparr>rt_tick := k2\<rparr>"
    using that [of "Suc (Suc k1)"] Wallet_cmd_spec [OF append(2)] s1 k1 x(5) by auto
  have "store_ok s' \<and> env_step s2 s' \<and> rest s' = rest s
      \<and> (log s' = log s \<or> log s' = (log s)(wid := log s wid @ [x]))"
    using append_event(1) [of s2 wid x "Inl e" s'] append(3) x ok by (simp add: s2)
  moreover have "env_step s s2" using k2 by (simp add: s2)
  moreover have "spec_update c wid (accounts (rt_lib s) (log s))
      = Inr (accounts (rt_lib s) ((log s)(wid := log s wid @ [x])))"
    by (rule spec_update_existing [of "log s" wid, OF w0(1) x(5) [unfolded w0(2)] x(4)])
  ultimately show ?thesis using append(4) by (auto simp: update_outcome_def grown_def intro: env_step_trans)
next
  case (snapshot w0 s1 w s2 s3 q)
  obtain k1 where k1: "rt_tick s \<le> k1" and s1: "s1 = s\<lparr>rt_tick := k1\<rparr>"
    using load_spec(1) [OF ok snapshot(1)] by (rule only_tickE)
  have w0: "log s wid \<noteq> []" "w0 = replay (rt_lib s) (log s wid)"
    using load_spec(2) [OF ok snapshot(1)] by blast+
  have coh: "coherent (rt_lib s) (log s) (snaps s)" using ok by (simp add: store_ok_def)
  have lib1: "rt_lib s1 = rt_lib s" by (simp add: s1)
  from command_event [OF coh w0(1) room snapshot(2) [unfolded w0(2)] lib1]
  obtain x where x: "Wallet_Changes w = [x]" "next_events wid (log_version (log s wid)) [x]"
    "w_Version w0 = log_version (log s wid)" "replay (rt_lib s) (log s wid @ [x]) = stored w"
    "spec_cmd c w0 = Inr (stored w)"
    "coherent (rt_lib s) ((log s)(wid := log s wid @ [x])) (snaps s)" "w_ID w = wid"
    "\<And>old. snaps s wid = Some old \<Longrightarrow> w_Currency old = w_Currency w \<and> w_UserID old = w_UserID w"
    unfolding w0(2) by metis
  obtain k2 where k2: "rt_tick s \<le> k2" and s2: "s2 = s\<lparr>rt_tick := k2\<rparr>"
    using that [of "Suc (Suc k1)"] Wallet_cmd_spec [OF snapshot(2)] s1 k1 x(5) by auto
  have app: "store_ok s3 \<and> env_step s2 s3 \<and> snaps s3 = snaps s \<and> rest s3 = rest s" "log s3 = (log s)(wid := log s wid @ [x])"
  proof -
    have ok2: "store_ok s2" and log2: "log s2 = log s" and snaps2: "snaps s2 = snaps s"
      and lib2: "rt_lib s2 = rt_lib s" and rest2: "rest s2 = rest s" using ok by (simp_all add: s2)
    note ap = append_event [of s2 wid x "Inr ()" s3, unfolded log2 snaps2 lib2 rest2, OF ok2 x(2,6)
        snapshot(3) [unfolded x(1,3)]]
    show "store_ok s3 \<and> env_step s2 s3 \<and> snaps s3 = snaps s \<and> rest s3 = rest s" using ap(1) by blast
    show "log s3 = (log s)(wid := log s wid @ [x])" using ap(2) by blast
  qed
  have env: "env_step s s3" using app(1) k2 by (auto simp: s2 env_step_def)
  have L: "rt_lib s3 = rt_lib s" using env by (simp add: env_step_def)
  have snap: "store_ok s' \<and> env_step s3 s' \<and> log s' = log s3 \<and> rest s' = rest s3"
    by (rule maybeSnapshot_spec(1) [OF _ _ _ _ snapshot(4)])
      (use app x L in \<open>auto simp: x(7)\<close>)
  have "spec_update c wid (accounts (rt_lib s) (log s))
      = Inr (accounts (rt_lib s) ((log s)(wid := log s wid @ [x])))"
    by (rule spec_update_existing [of "log s" wid, OF w0(1) x(5) [unfolded w0(2)] x(4)])
  then have spec: "spec_update c wid (accounts (rt_lib s) (log s)) = Inr (accounts (rt_lib s) (log s'))"
    using snap app(2) by simp
  have acc: "accounts (rt_lib s) (log s') wid = Some (stored w)"
    using snap app(2) x(4) by (simp add: accounts_def)
  have ch: "Wallet_Changes w = [last (log s' wid)]"
    using snap app(2) x(1) by simp
  have "update_outcome (rt_lib s) c wid (log s) r (log s')"
    using spec acc ch snapshot(5) by (cases q) (simp_all add: update_outcome_def)
  moreover have "grown (log s) wid (log s')" using snap app(2) unfolding grown_def by auto
  ultimately show ?thesis using snap app(1) env env_step_trans by metis
qed

end

section \<open>Without failures the answer is the abstract one\<close>

context wallet_store
begin

lemma update_total:
  assumes ok: "store_ok s" and room: "int (Suc (length (log s wid))) < 2 ^ 63"
    and nf: "no_faults s" and fresh: "ids_fresh s (log s)"
    and run: "svc_update es ss wid c s = (r, s')"
  shows "case spec_update c wid (accounts (rt_lib s) (log s)) of Inl e \<Rightarrow> r = Inl e | Inr acc \<Rightarrow> \<exists>w. r = Inr w"
proof -
  obtain r0 s1 where load: "WalletService_load es ss wid s = (r0, s1)" by fastforce
  obtain k1 where k1: "rt_tick s \<le> k1" and s1: "s1 = s\<lparr>rt_tick := k1\<rparr>"
    using load_spec(1) [OF ok load] by (rule only_tickE)
  note r0 = load_spec(3) [OF ok load nf]
  show ?thesis
  proof (cases "log s wid = []")
    case True
    then have "r = Inl (errors_New CodeNotFound ''wallet not found'')"
      using run load r0 by (simp add: svc_update_def go_bind_def)
    then show ?thesis using True by (simp add: spec_update_def accounts_def)
  next
    case False
    let ?w0 = "replay (rt_lib s) (log s wid)"
    have load': "WalletService_load es ss wid s = (Inr ?w0, s1)" using load r0 False by simp
    obtain r1 s2 where cmd: "Wallet_cmd c ?w0 s1 = (r1, s2)" by fastforce
    have acc: "accounts (rt_lib s) (log s) wid = Some ?w0" using False by (simp add: accounts_def)
    show ?thesis
    proof (cases "spec_cmd c ?w0")
      case (Inl e)
      then have "r1 = Inl e" using Wallet_cmd_spec [OF cmd] by simp
      then have "r = Inl e" using run load' cmd by (simp add: svc_update_def go_bind_def)
      then show ?thesis using Inl acc by (simp add: spec_update_def)
    next
      case (Inr w')
      then obtain w where r1: "r1 = Inr w" and s2: "s2 = s\<lparr>rt_tick := Suc (Suc (rt_tick s1))\<rparr>"
        using Wallet_cmd_spec [OF cmd] by (auto simp: s1)
      have coh: "coherent (rt_lib s) (log s) (snaps s)" using ok by (simp add: store_ok_def)
      have lib1: "rt_lib s1 = rt_lib s" by (simp add: s1)
      from command_event [OF coh False room cmd [unfolded r1] lib1]
      obtain x where x: "Wallet_Changes w = [x]" "next_events wid (log_version (log s wid)) [x]"
        "w_Version ?w0 = log_version (log s wid)" "replay (rt_lib s) (log s wid @ [x]) = stored w"
        "coherent (rt_lib s) ((log s)(wid := log s wid @ [x])) (snaps s)" "w_ID w = wid"
        "\<And>old. snaps s wid = Some old \<Longrightarrow> w_Currency old = w_Currency w \<and> w_UserID old = w_UserID w"
        "ev_ID x = rt_uuid s1 (rt_tick s1)"
        by metis
      have ok2: "store_ok s2" and log2: "log s2 = log s" and snaps2: "snaps s2 = snaps s"
        and lib2: "rt_lib s2 = rt_lib s" and nf2: "no_faults s2" using ok nf by (simp_all add: s2)
      have "ev_ID x \<notin> ev_ID ` set (log s w)" for w
        using fresh k1 x(8) unfolding ids_fresh_def by (simp add: s1)
      then have "ev_ID e \<noteq> ev_ID x" if "e \<in> set (log s w)" for w e
        using that by (metis image_eqI)
      then obtain s3 where app: "AppendEvents es wid [x] (log_version (log s wid)) s2 = (Inr (), s3)"
        using append_succeeds [OF nf2 store_okD(1) [OF ok2], of wid "log_version (log s wid)" "[x]"] x(2)
        by (auto simp: log2)
      note ap = append_event [of s2 wid x "Inr ()" s3, unfolded log2 snaps2 lib2, OF ok2 x(2,5) app]
      have ok3: "store_ok s3" and env3: "env_step s2 s3" and snaps3: "snaps s3 = snaps s"
        and log3: "log s3 = (log s)(wid := log s wid @ [x])" using ap by blast+
      have L3: "rt_lib s3 = rt_lib s" and nf3: "no_faults s3"
        using env3 lib2 nf2 by (simp_all add: env_step_lib env_step_no_faults)
      obtain q s4 where snap: "WalletService_maybeSnapshot ss w s3 = (q, s4)" by fastforce
      have "q = Inr ()"
        by (rule maybeSnapshot_spec(2) [OF ok3 _ _ _ snap nf3])
          (use x(4,6,7) log3 snaps3 L3 in auto)
      then have "r = Inr w"
        using run load' cmd r1 x(1,3) app snap by (simp add: svc_update_def go_simps)
      moreover have "spec_update c wid (accounts (rt_lib s) (log s))
          = Inr ((accounts (rt_lib s) (log s))(wid \<mapsto> w'))"
        using acc Inr by (simp add: spec_update_def)
      ultimately show ?thesis by simp
    qed
  qed
qed

end

section \<open>Creating a wallet\<close>

definition new_account :: "uuid \<Rightarrow> uuid \<Rightarrow> string \<Rightarrow> wallet" where
  "new_account wid u currency =
     \<lparr>w_ID = wid, w_UserID = u, w_Currency = currency, w_BalanceCents = 0, w_Reserved = 0,
      w_Version = 1, w_changes = []\<rparr>"

definition created :: "uuid \<Rightarrow> uuid \<Rightarrow> string \<Rightarrow> (uuid \<Rightarrow> wallet option) \<Rightarrow> (uuid \<Rightarrow> wallet option) \<Rightarrow> bool" where
  "created wid u currency acc acc' \<longleftrightarrow>
     acc wid = None \<and> acc' = acc(wid \<mapsto> new_account wid u currency)"

lemma created_event:
  assumes "uuid_laws L" and "ev_Type e = EventWalletCreated" and "ev_WalletID e = wid"
    and "ev_Payload e = WalletCreatedPayload_Marshal L \<lparr>wc_UserID = u, wc_Currency = currency\<rparr>"
    and "ev_Version e = 1"
  shows "replay L [e] = new_account wid u currency"
  using assms by (simp add: replay_def new_account_def Wallet_applyEvent_def payload_simps zero_Wallet_def)

lemma numbered_empty: "numbered l \<Longrightarrow> log_version l = 0 \<Longrightarrow> l = []"
proof (rule ccontr)
  assume num: "numbered l" and v: "log_version l = 0" and ne: "l \<noteq> []"
  then have "sint (log_version l) = int (length l)"
    using sint_of_nat_i64 [of "length l"] by (simp add: log_version_numbered numbered_def)
  then show False using v ne by simp
qed

lemma coherent_create:
  assumes "coherent L lg sn" and "lg wid = []"
    and "ev_Version e = 1" "ev_WalletID e = wid" "ev_Type e = EventWalletCreated"
  shows "coherent L (lg(wid := [e])) sn"
  unfolding coherent_def
proof (intro allI conjI)
  fix x
  have c: "numbered (lg x)" "own_log x (lg x)" "pred_option (prefix_replay L (lg x)) (sn x)"
    using assms(1) unfolding coherent_def by blast+
  have "numbered [e]" using assms(3) by (simp add: numbered_def)
  then show "numbered ((lg(wid := [e])) x)" using c(1) by simp
  show "own_log x ((lg(wid := [e])) x)" using c(2) assms(4,5) by (simp add: own_log_def)
  show "pred_option (prefix_replay L ((lg(wid := [e])) x)) (sn x)"
    using c(3) assms(2) prefix_replay_snoc [of L "[]" _ e] by (auto simp: option.pred_set)
qed

context wallet_store
begin

lemma create_refines:
  assumes ok: "store_ok s" and laws: "uuid_laws (rt_lib s)"
    and run: "WalletService_CreateWallet es ss u currency s = (r, s')"
  shows "store_ok s' \<and> env_step s s'
      \<and> (log s' = log s \<or> currency \<noteq> ''''
           \<and> created (rt_uuid s (Suc (rt_tick s))) u currency
               (accounts (rt_lib s) (log s)) (accounts (rt_lib s) (log s')))
      \<and> grown (log s) (rt_uuid s (Suc (rt_tick s))) (log s') \<and> rest s' = rest s"
    and "r = Inr x \<Longrightarrow> currency \<noteq> '''' \<and> cr_WalletID x = rt_uuid s (Suc (rt_tick s))
      \<and> created (cr_WalletID x) u currency
               (accounts (rt_lib s) (log s)) (accounts (rt_lib s) (log s'))"
proof -
  let ?wid = "rt_uuid s (Suc (rt_tick s))" and ?L = "rt_lib s"
  let ?A = "\<lambda>s'. created ?wid u currency (accounts ?L (log s)) (accounts ?L (log s'))"
  have "store_ok s' \<and> env_step s s' \<and> (log s' = log s \<or> currency \<noteq> '''' \<and> ?A s')
    \<and> grown (log s) ?wid (log s') \<and> rest s' = rest s \<and> (\<forall>x. r = Inr x \<longrightarrow> currency \<noteq> '''' \<and> cr_WalletID x = ?wid \<and> ?A s')"
  proof (cases "currency = ''''")
    case True
    then show ?thesis
      using run ok by (auto simp: WalletService_CreateWallet_def NewWallet_def go_throw_def grown_def)
  next
    case False
    define e where "e = \<lparr>ev_ID = rt_uuid s (rt_tick s), ev_WalletID = ?wid, ev_Type = EventWalletCreated,
        ev_Payload = WalletCreatedPayload_Marshal ?L \<lparr>wc_UserID = u, wc_Currency = currency\<rparr>,
        ev_Version = 1, ev_OccuredAt = rt_now s (Suc (Suc (rt_tick s)))\<rparr>"
    define s1 where "s1 = s\<lparr>rt_tick := Suc (Suc (Suc (rt_tick s)))\<rparr>"
    obtain q s2 where app: "AppendEvents es ?wid [e] 0 s1 = (q, s2)" by fastforce
    have st: "store_ok s1" "log s1 = log s" "snaps s1 = snaps s" "rt_lib s1 = ?L" "env_step s s1"
        "rest s1 = rest s"
      using ok by (simp_all add: s1_def)
    have nxt: "next_events ?wid 0 [e]" by (simp add: next_events_def e_def)
    have eff: "inv s2" "env_step s1 s2" "snaps s2 = snaps s1" "rest s2 = rest s1"
        "log s2 = log s \<or> appended (log s) ?wid [e] 0 (log s2)"
      using append_effect [OF app store_okD(1) [OF st(1)] nxt] st(2) by simp_all
    have coh: "coherent ?L (log s) (snaps s)" using ok by (simp add: store_ok_def)
    have new: "?A s2 \<and> coherent ?L (log s2) (snaps s)" if "appended (log s) ?wid [e] 0 (log s2)"
    proof -
      have nil: "log s ?wid = []" and l: "log s2 = (log s)(?wid := [e])"
        using that numbered_empty [OF store_okD(2) [OF ok]] by (auto simp: appended_def)
      have "replay ?L [e] = new_account ?wid u currency"
        by (rule created_event [OF laws]) (simp_all add: e_def)
      then have "?A s2"
        unfolding created_def l using nil accounts_append [of ?L "log s" ?wid e] by (simp add: accounts_def)
      moreover have "coherent ?L (log s2) (snaps s)"
        unfolding l by (rule coherent_create [OF coh nil]) (simp_all add: e_def)
      ultimately show ?thesis by blast
    qed
    have grown: "grown (log s) ?wid (log s2)" using eff(5) by (auto simp: grown_def appended_def)
    have ok2: "store_ok s2" "env_step s s2" "log s2 = log s \<or> ?A s2" "rest s2 = rest s"
      using eff st coh new env_step_trans [OF st(5) eff(2)] env_step_lib [OF eff(2)]
      by (auto simp: store_ok_def)
    show ?thesis
    proof (cases q)
      case (Inl x)
      then have "r = Inl x \<and> s' = s2"
        using run app False laws
        by (simp add: WalletService_CreateWallet_def go_bind_def NewWallet_run Wallet_Changes_def
            Let_def e_def s1_def)
      then show ?thesis using ok2 grown False by blast
    next
      case (Inr y)
      have "r = Inr \<lparr>cr_WalletID = ?wid, cr_CreatedAt = rt_now s2 (rt_tick s2)\<rparr>
          \<and> s' = s2\<lparr>rt_tick := Suc (rt_tick s2)\<rparr>"
        using run app Inr False laws
        by (simp add: WalletService_CreateWallet_def go_bind_def NewWallet_run Wallet_Changes_def
            Let_def e_def s1_def time_Now_def go_return_def)
      moreover have "?A s2"
        using append_ok [OF app [unfolded Inr] store_okD(1) [OF st(1)] nxt] st(2) new by simp
      ultimately show ?thesis using ok2 grown False env_step_trans [OF ok2(2), of "s2\<lparr>rt_tick := Suc (rt_tick s2)\<rparr>"] by simp
    qed
  qed
  then show "store_ok s' \<and> env_step s s'
      \<and> (log s' = log s \<or> currency \<noteq> '''' \<and> created ?wid u currency
               (accounts (rt_lib s) (log s)) (accounts (rt_lib s) (log s')))
      \<and> grown (log s) ?wid (log s') \<and> rest s' = rest s"
    and "r = Inr x \<Longrightarrow> currency \<noteq> '''' \<and> cr_WalletID x = ?wid
      \<and> created (cr_WalletID x) u currency (accounts (rt_lib s) (log s)) (accounts (rt_lib s) (log s'))"
    by auto
qed

lemma balance_refines:
  assumes ok: "store_ok s" and run: "WalletService_GetBalance es ss wid s = (r, s')"
  shows "only_tick s s'"
    and "r = Inr b \<Longrightarrow> \<exists>w. accounts (rt_lib s) (log s) wid = Some w \<and>
        b = \<lparr>br_WalletID = w_ID w, br_BalanceCents = w_BalanceCents w, br_Currency = w_Currency w,
             br_Version = w_Version w\<rparr>"
proof -
  obtain q t where load: "WalletService_load es ss wid s = (q, t)" by fastforce
  have "s' = t" using run load by (auto simp: WalletService_GetBalance_def go_simps split: sum.splits)
  then show "only_tick s s'" using load_spec(1) [OF ok load] by simp
  assume "r = Inr b"
  then obtain w where "q = Inr w" and b: "b = \<lparr>br_WalletID = w_ID w, br_BalanceCents = w_BalanceCents w,
      br_Currency = w_Currency w, br_Version = w_Version w\<rparr>"
    using run load by (auto simp: WalletService_GetBalance_def go_simps split: sum.splits)
  then show "\<exists>w. accounts (rt_lib s) (log s) wid = Some w \<and>
      b = \<lparr>br_WalletID = w_ID w, br_BalanceCents = w_BalanceCents w, br_Currency = w_Currency w,
           br_Version = w_Version w\<rparr>"
    using load_spec(2) [OF ok load] by (auto simp: accounts_def)
qed

end

end
