(* ===== verification/Sql.thy ===== *)
theory Sql
  imports Errors
begin

text \<open>
  What the adapters use of \<open>database/sql\<close>, over the tables the migrations declare. A table is the
  list of its rows in the order they were inserted. Each call of the driver asks the environment for
  its outcome (\<open>driver_call\<close>): a query that fails reads nothing, a statement that fails may or may
  not have taken effect. The statements of the source are given as functions on the state, with
  the error of a violated constraint on the left.
\<close>

section \<open>Calls of the driver\<close>

definition sql_query :: "('a rt_scheme \<Rightarrow> 'r) \<Rightarrow> ('a rt_scheme, 'r) go" where
  "sql_query q = go_bind driver_call (\<lambda>f.
     case f of
       NoFault \<Rightarrow> go_gets q
     | FailBefore msg \<Rightarrow> go_throw (PlainError msg)
     | FailAfter msg \<Rightarrow> go_throw (PlainError msg))"

definition sql_exec :: "('a rt_scheme \<Rightarrow> goerr + 'a rt_scheme) \<Rightarrow> ('a rt_scheme, unit) go" where
  "sql_exec stmt = go_bind driver_call (\<lambda>f s.
     case f of
       NoFault \<Rightarrow> (case stmt s of Inl e \<Rightarrow> (Inl e, s) | Inr s' \<Rightarrow> (Inr (), s'))
     | FailBefore msg \<Rightarrow> (Inl (PlainError msg), s)
     | FailAfter msg \<Rightarrow> (Inl (PlainError msg), case stmt s of Inl e \<Rightarrow> s | Inr s' \<Rightarrow> s'))"

text \<open>\<open>for rows.Next() { rows.Scan(...) }\<close>, each scan wrapped with the message \<open>msg\<close>.\<close>

fun sql_scan :: "string \<Rightarrow> 'r list \<Rightarrow> ('a rt_scheme, 'r list) go" where
  "sql_scan msg [] = go_return []"
| "sql_scan msg (r # rs) =
     go_bind (go_wrap CodeInternal msg (sql_query (\<lambda>_. r))) (\<lambda>x.
     go_bind (sql_scan msg rs) (\<lambda>xs. go_return (x # xs)))"

definition duplicate_key :: "string \<Rightarrow> goerr" where
  "duplicate_key index =
     PlainError (''pq: duplicate key value violates unique constraint '' @ index)"

section \<open>Facts\<close>

lemma driver_call_run [go_simps]:
  "driver_call s = (Inr (rt_fault s (rt_tick s)), s\<lparr>rt_tick := Suc (rt_tick s)\<rparr>)"
  by (simp add: driver_call_def)

lemma sql_query_run:
  "sql_query q s =
     (let s1 = s\<lparr>rt_tick := Suc (rt_tick s)\<rparr> in
      case rt_fault s (rt_tick s) of
        NoFault \<Rightarrow> (Inr (q s1), s1)
      | FailBefore msg \<Rightarrow> (Inl (PlainError msg), s1)
      | FailAfter msg \<Rightarrow> (Inl (PlainError msg), s1))"
  by (simp add: sql_query_def go_simps Let_def split: fault.splits)

lemma sql_exec_run:
  "sql_exec stmt s =
     (let s1 = s\<lparr>rt_tick := Suc (rt_tick s)\<rparr> in
      case rt_fault s (rt_tick s) of
        NoFault \<Rightarrow> (case stmt s1 of Inl e \<Rightarrow> (Inl e, s1) | Inr s' \<Rightarrow> (Inr (), s'))
      | FailBefore msg \<Rightarrow> (Inl (PlainError msg), s1)
      | FailAfter msg \<Rightarrow> (Inl (PlainError msg), case stmt s1 of Inl e \<Rightarrow> s1 | Inr s' \<Rightarrow> s'))"
  by (simp add: sql_exec_def go_simps Let_def split: fault.splits)

lemma sql_query_no_fault [simp]:
  "no_faults s \<Longrightarrow> sql_query q s = (let s1 = s\<lparr>rt_tick := Suc (rt_tick s)\<rparr> in (Inr (q s1), s1))"
  by (simp add: sql_query_run)

lemma sql_exec_no_fault [simp]:
  "no_faults s \<Longrightarrow> sql_exec stmt s =
     (let s1 = s\<lparr>rt_tick := Suc (rt_tick s)\<rparr> in
      case stmt s1 of Inl e \<Rightarrow> (Inl e, s1) | Inr s' \<Rightarrow> (Inr (), s'))"
  by (simp add: sql_exec_run)

lemma sql_query_cases:
  assumes "sql_query q s = (r, s')"
  obtains (ok) "r = Inr (q s')" "s' = s\<lparr>rt_tick := Suc (rt_tick s)\<rparr>"
    | (failed) msg where "r = Inl (PlainError msg)" "s' = s\<lparr>rt_tick := Suc (rt_tick s)\<rparr>"
proof (cases "rt_fault s (rt_tick s)")
  case NoFault
  then have "r = Inr (q s') \<and> s' = s\<lparr>rt_tick := Suc (rt_tick s)\<rparr>"
    using assms by (auto simp: sql_query_run Let_def)
  then show ?thesis using ok by blast
next
  case (FailBefore msg)
  show ?thesis by (rule failed [of msg]) (use assms FailBefore in \<open>simp_all add: sql_query_run Let_def\<close>)
next
  case (FailAfter msg)
  show ?thesis by (rule failed [of msg]) (use assms FailAfter in \<open>simp_all add: sql_query_run Let_def\<close>)
qed

lemma sql_exec_cases:
  assumes "sql_exec stmt s = (r, s')"
  obtains (ok) "r = Inr ()" "stmt (s\<lparr>rt_tick := Suc (rt_tick s)\<rparr>) = Inr s'"
    | (lost) e where "r = Inl e" "stmt (s\<lparr>rt_tick := Suc (rt_tick s)\<rparr>) = Inr s'"
    | (failed) e where "r = Inl e" "s' = s\<lparr>rt_tick := Suc (rt_tick s)\<rparr>"
proof -
  let ?s1 = "s\<lparr>rt_tick := Suc (rt_tick s)\<rparr>"
  show ?thesis
  proof (cases "stmt ?s1")
    case (Inl e)
    then have "(\<exists>e. r = Inl e) \<and> s' = ?s1"
      using assms by (cases "rt_fault s (rt_tick s)") (auto simp: sql_exec_run Let_def)
    then show ?thesis using failed by blast
  next
    case (Inr t)
    show ?thesis
    proof (cases "rt_fault s (rt_tick s)")
      case NoFault
      then show ?thesis using assms Inr ok by (simp add: sql_exec_run Let_def)
    next
      case (FailBefore msg)
      then have "r = Inl (PlainError msg) \<and> s' = ?s1"
        using assms by (auto simp: sql_exec_run Let_def)
      then show ?thesis using failed by blast
    next
      case (FailAfter msg)
      then have "r = Inl (PlainError msg) \<and> s' = t"
        using assms Inr by (auto simp: sql_exec_run Let_def)
      then show ?thesis using Inr lost by blast
    qed
  qed
qed

text \<open>Scanning returns the rows it was given or fails; it changes nothing but the call counter.\<close>

lemma sql_scan_result: "sql_scan msg rs s = (Inr xs, s') \<Longrightarrow> xs = rs"
proof (induction rs arbitrary: s xs s')
  case (Cons r rs)
  then show ?case
    by (auto simp: go_simps sql_query_run Let_def split: prod.splits sum.splits fault.splits)
qed (simp add: go_simps)

lemma sql_query_only_tick: "sql_query q s = (r, s') \<Longrightarrow> only_tick s s'"
  by (erule sql_query_cases) (simp_all add: only_tickI)

lemma sql_scan_only_tick: "sql_scan msg rs s = (r, s') \<Longrightarrow> only_tick s s'"
proof (induction rs arbitrary: s r s')
  case (Cons x rs)
  obtain q t where q: "sql_query (\<lambda>_. x) s = (q, t)" by fastforce
  have st: "only_tick s t" by (rule sql_query_only_tick [OF q])
  obtain qs u where qs: "sql_scan msg rs t = (qs, u)" by fastforce
  have "s' = t \<or> s' = u"
    using Cons.prems by (auto simp: go_simps q qs split: sum.splits)
  then show ?case using st Cons.IH [OF qs] only_tick_trans by blast
qed (simp add: go_return_def)

lemma sql_scan_no_fault [simp]:
  "no_faults s \<Longrightarrow> sql_scan msg rs s = (Inr rs, s\<lparr>rt_tick := rt_tick s + length rs\<rparr>)"
  by (induction rs arbitrary: s) (simp_all add: go_simps Let_def)

section \<open>Statements and selects as the adapters write them\<close>

lemma sql_exec_effect:
  assumes "sql_exec stmt s = (r, s')"
    and "\<And>t. stmt (s\<lparr>rt_tick := Suc (rt_tick s)\<rparr>) = Inr t \<Longrightarrow> P t"
    and "P (s\<lparr>rt_tick := Suc (rt_tick s)\<rparr>)"
  shows "P s'"
  using assms(1) by (cases rule: sql_exec_cases) (use assms(2,3) in auto)

lemma sql_exec_ok:
  assumes "sql_exec stmt s = (Inr u, s')"
  shows "stmt (s\<lparr>rt_tick := Suc (rt_tick s)\<rparr>) = Inr s'"
  using assms by (cases rule: sql_exec_cases) auto

lemma go_wrap_cases:
  assumes "go_wrap c msg m s = (r, s')"
  obtains q where "m s = (q, s')" and "r = (case q of Inl e \<Rightarrow> Inl (DomainError c msg (Some e)) | Inr x \<Rightarrow> Inr x)"
  using assms by (auto simp: go_wrap_def split: prod.splits sum.splits)

lemma go_wrap_Inr [simp]: "go_wrap c msg m s = (Inr x, s') \<longleftrightarrow> m s = (Inr x, s')"
  by (auto simp: go_wrap_def split: prod.splits sum.splits)

lemma wrap_exec_effect:
  assumes "go_wrap c msg (sql_exec stmt) s = (r, s')"
    and "\<And>t. stmt (s\<lparr>rt_tick := Suc (rt_tick s)\<rparr>) = Inr t \<Longrightarrow> P t"
    and "P (s\<lparr>rt_tick := Suc (rt_tick s)\<rparr>)"
  shows "P s'"
  using assms(1) by (rule go_wrap_cases) (erule sql_exec_effect, use assms(2,3) in auto)

lemma wrap_exec_ok:
  "go_wrap c msg (sql_exec stmt) s = (Inr u, s') \<Longrightarrow> stmt (s\<lparr>rt_tick := Suc (rt_tick s)\<rparr>) = Inr s'"
  by (simp add: sql_exec_ok)

lemma wrap_exec_succeeds:
  "no_faults s \<Longrightarrow> stmt (s\<lparr>rt_tick := Suc (rt_tick s)\<rparr>) = Inr t \<Longrightarrow>
     go_wrap c msg (sql_exec stmt) s = (Inr (), t)"
  by (simp add: Let_def)

lemma sql_query_ok: "sql_query q s = (Inr x, s') \<Longrightarrow> x = q (s\<lparr>rt_tick := Suc (rt_tick s)\<rparr>)"
  by (auto elim!: sql_query_cases)

lemma wrap_query_effect: "go_wrap c msg (sql_query q) s = (r, s') \<Longrightarrow> only_tick s s'"
  by (erule go_wrap_cases) (erule sql_query_only_tick)

lemma wrap_query_ok:
  "go_wrap c msg (sql_query q) s = (Inr x, s') \<Longrightarrow> x = q (s\<lparr>rt_tick := Suc (rt_tick s)\<rparr>)"
  by (auto elim!: sql_query_cases)

text \<open>A query the server may refuse.\<close>

definition sql_query_checked :: "('a rt_scheme \<Rightarrow> goerr + 'r) \<Rightarrow> ('a rt_scheme, 'r) go" where
  "sql_query_checked q =
     go_bind (sql_query q) (\<lambda>res. case res of Inl e \<Rightarrow> go_throw e | Inr r \<Rightarrow> go_return r)"

lemma sql_query_checked_effect: "sql_query_checked q s = (r, s') \<Longrightarrow> only_tick s s'"
  by (auto simp: sql_query_checked_def go_simps sql_query_run Let_def split: fault.splits sum.splits)

lemma sql_query_checked_ok:
  "sql_query_checked q s = (Inr x, s') \<Longrightarrow> q (s\<lparr>rt_tick := Suc (rt_tick s)\<rparr>) = Inr x"
  by (auto simp: sql_query_checked_def go_simps sql_query_run Let_def split: fault.splits sum.splits)

text \<open>\<open>rows, err := db.Query(...)\<close>, the loop that scans, and \<open>return xs, rows.Err()\<close>.\<close>

definition sql_select_checked ::
  "string \<Rightarrow> string \<Rightarrow> ('a rt_scheme \<Rightarrow> goerr + 'r list) \<Rightarrow> ('a rt_scheme, 'r list) go"
where
  "sql_select_checked query_msg scan_msg q =
     go_bind (go_wrap CodeInternal query_msg (sql_query_checked q)) (\<lambda>rows.
     go_bind (sql_scan scan_msg rows) (\<lambda>xs.
     go_bind (sql_query (\<lambda>_. ())) (\<lambda>_. go_return xs)))"

definition sql_select :: "string \<Rightarrow> string \<Rightarrow> ('a rt_scheme \<Rightarrow> 'r list) \<Rightarrow> ('a rt_scheme, 'r list) go" where
  "sql_select query_msg scan_msg q = sql_select_checked query_msg scan_msg (\<lambda>s. Inr (q s))"

lemma sql_select_checked_effect:
  assumes "sql_select_checked m1 m2 q s = (r, s')"
  shows "only_tick s s'"
proof -
  obtain q1 s1 where q1: "sql_query_checked q s = (q1, s1)" by fastforce
  have t1: "only_tick s s1" by (rule sql_query_checked_effect [OF q1])
  show ?thesis
  proof (cases q1)
    case (Inl e)
    then show ?thesis using assms q1 t1 by (simp add: sql_select_checked_def go_simps)
  next
    case (Inr rows)
    obtain q2 s2 where q2: "sql_scan m2 rows s1 = (q2, s2)" by fastforce
    obtain q3 s3 where q3: "sql_query (\<lambda>_. ()) s2 = (q3, s3)" by fastforce
    have "only_tick s1 s2" "only_tick s2 s3"
      using sql_scan_only_tick [OF q2] sql_query_only_tick [OF q3] by blast+
    moreover have "s' = s2 \<or> s' = s3"
      using assms q1 q2 q3 Inr by (auto simp: sql_select_checked_def go_simps split: sum.splits)
    ultimately show ?thesis using t1 only_tick_trans by blast
  qed
qed

lemma sql_select_checked_ok:
  assumes "sql_select_checked m1 m2 q s = (Inr xs, s')"
  shows "q (s\<lparr>rt_tick := Suc (rt_tick s)\<rparr>) = Inr xs"
  using assms unfolding sql_select_checked_def
  by (auto elim!: go_bind_InrE sql_query_cases dest!: sql_scan_result sql_query_checked_ok simp: go_return_def)

lemma sql_select_checked_succeeds:
  "no_faults s \<Longrightarrow> q (s\<lparr>rt_tick := Suc (rt_tick s)\<rparr>) = Inr xs \<Longrightarrow>
     \<exists>s'. sql_select_checked m1 m2 q s = (Inr xs, s')"
  by (simp add: sql_select_checked_def sql_query_checked_def go_simps Let_def)

lemma sql_select_effect: "sql_select m1 m2 q s = (r, s') \<Longrightarrow> only_tick s s'"
  unfolding sql_select_def by (rule sql_select_checked_effect)

lemma sql_select_ok: "sql_select m1 m2 q s = (Inr xs, s') \<Longrightarrow> xs = q (s\<lparr>rt_tick := Suc (rt_tick s)\<rparr>)"
  unfolding sql_select_def by (drule sql_select_checked_ok) simp

lemma sql_select_succeeds:
  "no_faults s \<Longrightarrow> \<exists>s'. sql_select m1 m2 q s = (Inr (q (s\<lparr>rt_tick := Suc (rt_tick s)\<rparr>)), s')"
  unfolding sql_select_def by (rule sql_select_checked_succeeds) simp_all

text \<open>\<open>StructScan\<close> of one row, with \<open>sql.ErrNoRows\<close> told apart.\<close>

lemma find_row_effect:
  assumes "go_bind (go_wrap c msg (sql_query q)) (\<lambda>row. case row of None \<Rightarrow> go_throw e | Some r \<Rightarrow> go_return (f r)) s = (res, s')"
  shows "only_tick s s'"
  using assms by (auto simp: go_simps sql_query_run Let_def split: fault.splits option.splits)

lemma find_row_ok:
  assumes "go_bind (go_wrap c msg (sql_query q)) (\<lambda>row. case row of None \<Rightarrow> go_throw e | Some r \<Rightarrow> go_return (f r)) s = (Inr x, s')"
  shows "\<exists>r. q (s\<lparr>rt_tick := Suc (rt_tick s)\<rparr>) = Some r \<and> x = f r"
  using assms by (auto simp: go_simps sql_query_run Let_def split: fault.splits option.splits)

lemma find_row_succeeds:
  assumes "no_faults s" and "q (s\<lparr>rt_tick := Suc (rt_tick s)\<rparr>) = Some r"
  shows "\<exists>s'. go_bind (go_wrap c msg (sql_query q)) (\<lambda>row. case row of None \<Rightarrow> go_throw e | Some r \<Rightarrow> go_return (f r)) s
    = (Inr (f r), s')"
  using assms by (simp add: go_simps Let_def)

section \<open>Tables with a key\<close>

text \<open>The row of a key, and \<open>INSERT ... ON CONFLICT (key) DO UPDATE SET ...\<close>, where \<open>upd old new\<close> is
  the row the update leaves; \<open>ON CONFLICT DO NOTHING\<close> leaves the old one.\<close>

definition row_of :: "('r \<Rightarrow> 'k) \<Rightarrow> 'r list \<Rightarrow> 'k \<Rightarrow> 'r option" where
  "row_of key rows k = find (\<lambda>r. key r = k) rows"

definition sql_upsert :: "('r \<Rightarrow> 'k) \<Rightarrow> ('r \<Rightarrow> 'r \<Rightarrow> 'r) \<Rightarrow> 'r \<Rightarrow> 'r list \<Rightarrow> 'r list" where
  "sql_upsert key upd x rows =
     (if key x \<in> key ` set rows then map (\<lambda>r. if key r = key x then upd r x else r) rows else rows @ [x])"

definition merged :: "('r \<Rightarrow> 'r \<Rightarrow> 'r) \<Rightarrow> 'r option \<Rightarrow> 'r \<Rightarrow> 'r" where
  "merged upd old x = (case old of None \<Rightarrow> x | Some r \<Rightarrow> upd r x)"

lemma merged_simps [simp]: "merged upd None x = x" "merged upd (Some r) x = upd r x"
  by (simp_all add: merged_def)

lemma row_of_None: "row_of key rows k = None \<longleftrightarrow> k \<notin> key ` set rows"
  by (auto simp: row_of_def find_None_iff)

lemma row_of_Some: "row_of key rows k = Some r \<Longrightarrow> r \<in> set rows \<and> key r = k"
  by (auto simp: row_of_def find_Some_iff)

lemma row_of_append [simp]:
  "row_of key (rows @ rows') k = (case row_of key rows k of None \<Rightarrow> row_of key rows' k | Some r \<Rightarrow> Some r)"
  by (induction rows) (simp_all add: row_of_def)

lemma row_of_Nil [simp]: "row_of key [] k = None"
  by (simp add: row_of_def)

lemma row_of_Cons: "row_of key (x # rows) k = (if key x = k then Some x else row_of key rows k)"
  by (simp add: row_of_def)

lemma row_of_map_update:
  assumes "\<And>r. key (upd r x) = key r"
  shows "row_of key (map (\<lambda>r. if key r = k then upd r x else r) rows) j
    = (if j = k then map_option (\<lambda>r. upd r x) (row_of key rows j) else row_of key rows j)"
  using assms by (induction rows) (auto simp: row_of_def)

lemma row_of_upsert:
  assumes "\<And>r x. key (upd r x) = key r"
  shows "row_of key (sql_upsert key upd x rows) = (row_of key rows)(key x \<mapsto> merged upd (row_of key rows (key x)) x)"
proof (cases "key x \<in> key ` set rows")
  case True
  then obtain r where "row_of key rows (key x) = Some r" using row_of_None by (metis not_Some_eq)
  then show ?thesis
    using True assms by (intro ext) (simp add: sql_upsert_def row_of_map_update)
next
  case False
  then show ?thesis
    using row_of_None [of key rows "key x"]
    by (intro ext) (simp add: sql_upsert_def row_of_Cons split: option.splits)
qed

lemma upsert_keys [simp]:
  assumes "\<And>r x. key (upd r x) = key r"
  shows "distinct (map key (sql_upsert key upd x rows)) = distinct (map key rows)"
  using assms by (auto simp: sql_upsert_def o_def if_distrib [of key] cong: if_cong)

text \<open>A page of an ordered query: \<open>LIMIT n OFFSET k\<close>. The server refuses negative numbers.\<close>

definition sql_page :: "int \<Rightarrow> int \<Rightarrow> 'r list \<Rightarrow> goerr + 'r list" where
  "sql_page limit offset rows =
     (if limit < 0 then Inl (PlainError ''pq: LIMIT must not be negative'')
      else if offset < 0 then Inl (PlainError ''pq: OFFSET must not be negative'')
      else Inr (take (nat limit) (drop (nat offset) rows)))"

end
