(* ===== verification/Outbox.thy ===== *)
theory Outbox
  imports Sql Json "HOL-Library.Multiset"
begin

text \<open>
  The transactional outbox and the inbox, as the wallet and the transaction service keep them: an
  event to publish is a row of a table, a consumed event is remembered by its identifier. The two
  services have the same struct, the same interface and the same statements over tables of
  different names; here are the struct, the interfaces (\<open>domain/outbox.go\<close> of the wallet,
  \<open>domain/events.go\<close> and \<open>domain/repository.go\<close> of the transaction service), the statements as
  functions on the rows, and the contracts of the interfaces as the locales \<open>outbox_table\<close> and
  \<open>processed_table\<close>. The records of Kafka are here too.
\<close>

section \<open>Data\<close>

record outbox_event =
  oe_ID :: uuid
  oe_Topic :: string
  oe_Key :: string
  oe_Payload :: json
  oe_EventType :: string
  oe_PublishedAt :: "time option"
  oe_CreatedAt :: time

text \<open>
  \<open>kgo.Record\<close>: what the services set of it. A value that is not JSON is \<open>None\<close>; a header is a
  key and its bytes as text.
\<close>

record kafka_record =
  kr_Topic :: string
  kr_Key :: string
  kr_Value :: "json option"
  kr_Headers :: "(string \<times> string) list"

text \<open>\<open>headerValue\<close>, the same function in four services: the first header of that key, or empty.\<close>

fun headerValue :: "(string \<times> string) list \<Rightarrow> string \<Rightarrow> string" where
  "headerValue [] key = ''''"
| "headerValue ((k, v) # hs) key = (if k = key then v else headerValue hs key)"

section \<open>Interfaces\<close>

record 's OutboxRepository =
  OutboxSave :: "outbox_event \<Rightarrow> ('s, unit) go"
  FetchUnpublished :: "nat \<Rightarrow> ('s, outbox_event list) go"
  MarkPublished :: "uuid \<Rightarrow> ('s, unit) go"

record 's ProcessedEventRepository =
  IsProcessed :: "uuid \<Rightarrow> ('s, bool) go"
  MarkProcessed :: "uuid \<Rightarrow> ('s, unit) go"

section \<open>Statements over the rows\<close>

text \<open>The server's clock, read when the statement runs.\<close>

definition sql_NOW :: "'a rt_scheme \<Rightarrow> time" where
  "sql_NOW s = rt_now s (rt_tick s - 1)"

text \<open>\<open>INSERT INTO ... (id, topic, key, payload, event_type, created_at) VALUES ...\<close>\<close>

definition outbox_insert :: "string \<Rightarrow> outbox_event \<Rightarrow> outbox_event list \<Rightarrow> goerr + outbox_event list" where
  "outbox_insert pkey e rows =
     (if oe_ID e \<in> oe_ID ` set rows then Inl (duplicate_key pkey)
      else Inr (rows @ [e\<lparr>oe_PublishedAt := None\<rparr>]))"

text \<open>\<open>SELECT ... WHERE published_at IS NULL ORDER BY created_at ASC LIMIT n\<close>\<close>

definition outbox_unpublished :: "nat \<Rightarrow> outbox_event list \<Rightarrow> outbox_event list" where
  "outbox_unpublished limit rows =
     take limit (sort_key oe_CreatedAt (filter (\<lambda>e. oe_PublishedAt e = None) rows))"

text \<open>\<open>UPDATE ... SET published_at = NOW() WHERE id = $1\<close>\<close>

definition outbox_mark :: "time \<Rightarrow> uuid \<Rightarrow> outbox_event list \<Rightarrow> outbox_event list" where
  "outbox_mark now i rows =
     map (\<lambda>e. if oe_ID e = i then e\<lparr>oe_PublishedAt := Some now\<rparr> else e) rows"

lemma outbox_mark_ids [simp]: "map oe_ID (outbox_mark now i rows) = map oe_ID rows"
  by (simp add: outbox_mark_def)

text \<open>\<open>INSERT ... ON CONFLICT DO NOTHING\<close>\<close>

definition mark_processed :: "time \<Rightarrow> uuid \<Rightarrow> (uuid \<Rightarrow> time option) \<Rightarrow> uuid \<Rightarrow> time option" where
  "mark_processed now i t = (case t i of None \<Rightarrow> t(i \<mapsto> now) | Some _ \<Rightarrow> t)"

definition processed_ids :: "(uuid \<Rightarrow> time option) \<Rightarrow> uuid set" where
  "processed_ids t = dom t"

lemma processed_ids_iff: "t i = None \<longleftrightarrow> i \<notin> processed_ids t"
  by (simp add: processed_ids_def domIff)

lemma processed_ids_mark [simp]: "processed_ids (mark_processed now i t) = insert i (processed_ids t)"
  by (auto simp: mark_processed_def processed_ids_def split: option.splits)

text \<open>Rows that differ only in when they were published.\<close>

definition same_rows :: "outbox_event list \<Rightarrow> outbox_event list \<Rightarrow> bool" where
  "same_rows rows rows' \<longleftrightarrow>
     map (\<lambda>e. e\<lparr>oe_PublishedAt := None\<rparr>) rows = map (\<lambda>e. e\<lparr>oe_PublishedAt := None\<rparr>) rows'"

lemma same_rows_refl [simp]: "same_rows rows rows"
  by (simp add: same_rows_def)

lemma same_rows_trans: "same_rows a b \<Longrightarrow> same_rows b c \<Longrightarrow> same_rows a c"
  by (simp add: same_rows_def)

lemma same_rows_mark [simp]: "same_rows rows (outbox_mark now i rows)"
  by (simp add: same_rows_def outbox_mark_def)

text \<open>Identifiers of the rows that are not published yet, oldest row first.\<close>

definition pending :: "outbox_event list \<Rightarrow> uuid set" where
  "pending rows = oe_ID ` {e \<in> set rows. oe_PublishedAt e = None}"

lemma pending_mark: "pending (outbox_mark now i rows) = pending rows - {i}"
  by (induction rows) (auto simp: pending_def outbox_mark_def)

lemma set_outbox_unpublished:
  "e \<in> set (outbox_unpublished n rows) \<Longrightarrow> e \<in> set rows \<and> oe_PublishedAt e = None"
  by (auto simp: outbox_unpublished_def dest: in_set_takeD)

lemma outbox_unpublished_all:
  "length rows \<le> n \<Longrightarrow> set (outbox_unpublished n rows) = {e \<in> set rows. oe_PublishedAt e = None}"
proof -
  assume "length rows \<le> n"
  then have "length (filter (\<lambda>e. oe_PublishedAt e = None) rows) \<le> n"
    using length_filter_le le_trans by blast
  then show ?thesis by (simp add: outbox_unpublished_def)
qed

lemma distinct_outbox_unpublished:
  assumes "distinct (map oe_ID rows)"
  shows "distinct (map oe_ID (outbox_unpublished n rows))"
proof -
  have "distinct (map oe_ID (filter (\<lambda>e. oe_PublishedAt e = None) rows))"
    using assms by (rule distinct_map_filter)
  then have "distinct (map oe_ID (sort_key oe_CreatedAt (filter (\<lambda>e. oe_PublishedAt e = None) rows)))"
    by (simp add: distinct_map)
  then show ?thesis unfolding outbox_unpublished_def take_map [symmetric] by (rule distinct_take)
qed

section \<open>Contracts\<close>

text \<open>
  What a statement that may be lost leaves of a table: as it was, or changed; changed when the
  caller was told so.
\<close>

locale outbox_table =
  fixes ob :: "'a rt_scheme OutboxRepository"
    and rows :: "'a rt_scheme \<Rightarrow> outbox_event list"
    and rest :: "'a rt_scheme \<Rightarrow> 'r"
  assumes rows_tick [simp]: "rows (s\<lparr>rt_tick := k\<rparr>) = rows s"
    and rest_tick [simp]: "rest (s\<lparr>rt_tick := k\<rparr>) = rest s"
    and save_effect: "OutboxSave ob e s = (r, s') \<Longrightarrow> env_step s s' \<and> rest s' = rest s
          \<and> (rows s' = rows s \<or> oe_ID e \<notin> oe_ID ` set (rows s) \<and> rows s' = rows s @ [e\<lparr>oe_PublishedAt := None\<rparr>])"
    and save_ok: "OutboxSave ob e s = (Inr u, s') \<Longrightarrow>
          oe_ID e \<notin> oe_ID ` set (rows s) \<and> rows s' = rows s @ [e\<lparr>oe_PublishedAt := None\<rparr>]"
    and save_succeeds: "no_faults s \<Longrightarrow> oe_ID e \<notin> oe_ID ` set (rows s) \<Longrightarrow>
          \<exists>s'. OutboxSave ob e s = (Inr (), s')"
    and fetch_effect: "FetchUnpublished ob n s = (rf, s') \<Longrightarrow> only_tick s s'"
    and fetch_ok: "FetchUnpublished ob n s = (Inr xs, s') \<Longrightarrow> xs = outbox_unpublished n (rows s)"
    and fetch_succeeds: "no_faults s \<Longrightarrow> \<exists>xs s'. FetchUnpublished ob n s = (Inr xs, s')"
    and mark_effect: "MarkPublished ob i s = (r, s') \<Longrightarrow> env_step s s' \<and> rest s' = rest s
          \<and> (rows s' = rows s \<or> (\<exists>t. rows s' = outbox_mark t i (rows s)))"
    and mark_ok: "MarkPublished ob i s = (Inr u, s') \<Longrightarrow> \<exists>t. rows s' = outbox_mark t i (rows s)"
    and mark_succeeds: "no_faults s \<Longrightarrow> \<exists>s'. MarkPublished ob i s = (Inr (), s')"

locale processed_table =
  fixes pe :: "'a rt_scheme ProcessedEventRepository"
    and seen :: "'a rt_scheme \<Rightarrow> uuid set"
    and rest :: "'a rt_scheme \<Rightarrow> 'r"
  assumes seen_tick [simp]: "seen (s\<lparr>rt_tick := k\<rparr>) = seen s"
    and rest_tick [simp]: "rest (s\<lparr>rt_tick := k\<rparr>) = rest s"
    and is_effect: "IsProcessed pe i s = (rb, s') \<Longrightarrow> only_tick s s'"
    and is_ok: "IsProcessed pe i s = (Inr b, s') \<Longrightarrow> b \<longleftrightarrow> i \<in> seen s"
    and is_succeeds: "no_faults s \<Longrightarrow> \<exists>b s'. IsProcessed pe i s = (Inr b, s')"
    and mark_effect: "MarkProcessed pe i s = (r, s') \<Longrightarrow> env_step s s' \<and> rest s' = rest s
          \<and> (seen s' = seen s \<or> seen s' = insert i (seen s))"
    and mark_ok: "MarkProcessed pe i s = (Inr u, s') \<Longrightarrow> seen s' = insert i (seen s)"
    and mark_succeeds: "no_faults s \<Longrightarrow> \<exists>s'. MarkProcessed pe i s = (Inr (), s')"

text \<open>
  Every consumer opens with the same guard: an identifier it has seen ends the call, a failed lookup
  is its error, and otherwise the body runs.
\<close>

context processed_table
begin

lemma processed_guard:
  assumes run: "go_bind (IsProcessed pe i) (\<lambda>already. if already then go_return () else B) s = (r, t)"
  obtains (duplicate) "i \<in> seen s" "only_tick s t"
    | (unknown) e where "r = Inl e" "only_tick s t"
    | (fresh) s1 where "i \<notin> seen s" "only_tick s s1" "B s1 = (r, t)"
proof -
  obtain q s1 where q: "IsProcessed pe i s = (q, s1)" by fastforce
  have s1: "only_tick s s1" by (rule is_effect [OF q])
  show thesis
  proof (cases q)
    case (Inl e)
    then have "r = Inl e" "t = s1" using run q by (simp_all add: go_simps)
    then show thesis using unknown s1 by blast
  next
    case (Inr b)
    then have "b \<longleftrightarrow> i \<in> seen s" using is_ok q by blast
    then show thesis using run q Inr s1 duplicate fresh by (cases b) (simp_all add: go_simps)
  qed
qed

text \<open>When nothing fails, an identifier that is new runs the body and is remembered.\<close>

lemma once_succeeds:
  assumes nf: "no_faults s" and new: "i \<notin> seen s"
    and body: "\<And>s1. only_tick s s1 \<Longrightarrow> \<exists>s2. B s1 = (Inr u, s2) \<and> no_faults s2"
  shows "\<exists>t. go_bind (IsProcessed pe i) (\<lambda>already. if already then go_return ()
    else go_bind B (\<lambda>_. MarkProcessed pe i)) s = (Inr (), t)"
proof -
  obtain b s1 where look: "IsProcessed pe i s = (Inr b, s1)" using is_succeeds [OF nf] by blast
  have b: "\<not> b" using is_ok [OF look] new by simp
  obtain s2 where "B s1 = (Inr u, s2)" "no_faults s2" using body [OF is_effect [OF look]] by blast
  moreover obtain t where "MarkProcessed pe i s2 = (Inr (), t)"
    using mark_succeeds calculation(2) by blast
  ultimately show ?thesis using look b by (simp add: go_simps)
qed

end

end
