(* ===== verification/OutboxWorker.thy ===== *)
theory OutboxWorker
  imports Outbox
begin

text \<open>
  The outbox worker, \<open>adapters/outbound/kafka/outbox_worker.go\<close> of the wallet and of the transaction
  service (the two files differ in a package name and the breaker's name): every half second it
  fetches the oldest unpublished rows, publishes them in order and marks each one; and
  \<open>pkg/breaker\<close>, the settings of the circuit breaker it publishes through.

  The Kafka client, the circuit breaker and the retry policy are other people's code: they are the
  arguments \<open>produce\<close>, \<open>execute\<close> and \<open>retry\<close>, and what the worker relies on are the laws
  \<open>produce_law\<close>, \<open>execute_law\<close> and \<open>retry_law\<close>.
\<close>

section \<open>The breaker's settings (pkg/breaker)\<close>

record breaker_settings =
  bs_Name :: string
  bs_MaxRequests :: nat
  bs_Interval :: int
  bs_Timeout :: int
  bs_ReadyToTrip :: "nat \<Rightarrow> bool" \<comment> \<open>of the consecutive failures\<close>

definition second :: int where "second = 10 ^ 9"

definition breaker_New :: "string \<Rightarrow> breaker_settings" where
  "breaker_New name =
     \<lparr>bs_Name = name, bs_MaxRequests = 3, bs_Interval = 60 * second, bs_Timeout = 30 * second,
      bs_ReadyToTrip = (\<lambda>consecutiveFailures. 5 < consecutiveFailures)\<rparr>"

section \<open>The worker\<close>

definition OutboxWorker_record :: "lib \<Rightarrow> outbox_event \<Rightarrow> kafka_record" where
  "OutboxWorker_record L e =
     \<lparr>kr_Topic = oe_Topic e, kr_Key = oe_Key e, kr_Value = Some (oe_Payload e),
      kr_Headers = [(''event_type'', oe_EventType e), (''event_id'', uuid_String L (oe_ID e))]\<rparr>"

definition OutboxWorker_publishWithRetry ::
  "(kafka_record \<Rightarrow> ('s, unit) go) \<Rightarrow> (('s, unit) go \<Rightarrow> ('s, unit) go) \<Rightarrow> (('s, unit) go \<Rightarrow> ('s, unit) go)
     \<Rightarrow> kafka_record \<Rightarrow> ('s, unit) go"
where
  "OutboxWorker_publishWithRetry produce execute retry record = retry (execute (produce record))"

text \<open>The loop over the batch: an error of publishing ends it, an error of marking is only logged.\<close>

fun OutboxWorker_publishBatch ::
  "'a rt_scheme OutboxRepository \<Rightarrow> (kafka_record \<Rightarrow> ('a rt_scheme, unit) go) \<Rightarrow> outbox_event list
     \<Rightarrow> ('a rt_scheme, unit) go"
where
  "OutboxWorker_publishBatch outbox publish [] = go_return ()"
| "OutboxWorker_publishBatch outbox publish (e # es) =
     go_bind (go_gets rt_lib) (\<lambda>L.
     go_bind (go_try (publish (OutboxWorker_record L e))) (\<lambda>res.
     case res of
       Inl err \<Rightarrow> go_return ()
     | Inr _ \<Rightarrow>
         go_bind (go_try (MarkPublished outbox (oe_ID e))) (\<lambda>_.
         OutboxWorker_publishBatch outbox publish es)))"

definition OutboxWorker_flush ::
  "'a rt_scheme OutboxRepository \<Rightarrow> (kafka_record \<Rightarrow> ('a rt_scheme, unit) go) \<Rightarrow> ('a rt_scheme, unit) go"
where
  "OutboxWorker_flush outbox publish =
     go_bind (go_try (FetchUnpublished outbox 100)) (\<lambda>res.
     case res of
       Inl err \<Rightarrow> go_return ()
     | Inr events \<Rightarrow> OutboxWorker_publishBatch outbox publish events)"

text \<open>\<open>Run\<close>: one flush per tick of the timer, for as many ticks as there are before the context ends.\<close>

fun OutboxWorker_Run ::
  "nat \<Rightarrow> 'a rt_scheme OutboxRepository \<Rightarrow> (kafka_record \<Rightarrow> ('a rt_scheme, unit) go) \<Rightarrow> ('a rt_scheme, unit) go"
where
  "OutboxWorker_Run 0 outbox publish = go_return ()"
| "OutboxWorker_Run (Suc ticks) outbox publish =
     go_bind (OutboxWorker_flush outbox publish) (\<lambda>_. OutboxWorker_Run ticks outbox publish)"

section \<open>What the worker relies on\<close>

text \<open>
  \<open>ProduceSync(...).FirstErr()\<close>: the record is appended to its topic or it is not; it is when the
  answer is nil. \<open>topic\<close> reads the broker's log, \<open>frame\<close> everything the producer cannot touch.
\<close>

definition produce_law ::
  "('a rt_scheme \<Rightarrow> kafka_record list) \<Rightarrow> ('a rt_scheme \<Rightarrow> 'f) \<Rightarrow> (kafka_record \<Rightarrow> ('a rt_scheme, unit) go) \<Rightarrow> bool"
where
  "produce_law topic frame produce \<longleftrightarrow>
     (\<forall>r s q s'. produce r s = (q, s') \<longrightarrow> env_step s s' \<and> frame s' = frame s
        \<and> (topic s' = topic s \<and> (\<exists>e. q = Inl e) \<or> topic s' = topic s @ [r]))"

text \<open>The breaker refuses the call with an error of its own, or makes it and hands its error on.\<close>

definition execute_law :: "(('a rt_scheme, unit) go \<Rightarrow> ('a rt_scheme, unit) go) \<Rightarrow> bool" where
  "execute_law execute \<longleftrightarrow>
     (\<forall>op s. \<exists>s1. only_tick s s1 \<and>
        ((\<exists>e. execute op s = (Inl e, s1))
         \<or> (\<exists>q s2 s3. op s1 = (q, s2) \<and> only_tick s2 s3 \<and> execute op s = (q, s3))))"

text \<open>
  \<open>backoff.Retry\<close> makes one or more attempts: it returns nil after the first that does, and an error
  after one that failed.
\<close>

inductive attempts :: "('s, unit) go \<Rightarrow> 's \<Rightarrow> goerr + unit \<Rightarrow> 's \<Rightarrow> bool" for op where
  first_success: "op s = (Inr (), s') \<Longrightarrow> attempts op s (Inr ()) s'"
| give_up: "op s = (Inl e, s') \<Longrightarrow> attempts op s (Inl e') s'"
| again: "op s = (Inl e, s1) \<Longrightarrow> attempts op s1 q s' \<Longrightarrow> attempts op s q s'"

definition retry_law :: "(('s, unit) go \<Rightarrow> ('s, unit) go) \<Rightarrow> bool" where
  "retry_law retry \<longleftrightarrow> (\<forall>op s q s'. retry op s = (q, s') \<longrightarrow> attempts op s q s')"

text \<open>What follows of publishing: the record was sent some number of times, at least once on success.\<close>

definition publishes ::
  "('a rt_scheme \<Rightarrow> kafka_record list) \<Rightarrow> ('a rt_scheme \<Rightarrow> 'f) \<Rightarrow> (kafka_record \<Rightarrow> ('a rt_scheme, unit) go) \<Rightarrow> bool"
where
  "publishes topic frame publish \<longleftrightarrow>
     (\<forall>r s q s'. publish r s = (q, s') \<longrightarrow> env_step s s' \<and> frame s' = frame s
        \<and> (\<exists>n. topic s' = topic s @ replicate n r \<and> (q = Inr () \<longrightarrow> 0 < n)))"

lemma execute_once:
  assumes prod: "produce_law topic frame produce" and exec: "execute_law execute"
    and tick: "\<And>s k. topic (s\<lparr>rt_tick := k\<rparr>) = topic s" "\<And>s k. frame (s\<lparr>rt_tick := k\<rparr>) = frame s"
    and run: "execute (produce r) s = (q, s')"
  shows "env_step s s' \<and> frame s' = frame s
     \<and> (topic s' = topic s \<and> (\<exists>e. q = Inl e) \<or> topic s' = topic s @ [r])"
proof -
  obtain s1 where s1: "only_tick s s1"
    and c: "(\<exists>e. execute (produce r) s = (Inl e, s1))
      \<or> (\<exists>q s2 s3. produce r s1 = (q, s2) \<and> only_tick s2 s3 \<and> execute (produce r) s = (q, s3))"
    using exec unfolding execute_law_def by meson
  have t1: "env_step s s1" "topic s1 = topic s" "frame s1 = frame s"
    using s1 by (auto elim!: only_tickE simp: tick)
  from c show ?thesis
  proof
    assume "\<exists>e. execute (produce r) s = (Inl e, s1)"
    then show ?thesis using run t1 by auto
  next
    assume "\<exists>q s2 s3. produce r s1 = (q, s2) \<and> only_tick s2 s3 \<and> execute (produce r) s = (q, s3)"
    then obtain s2 where p: "produce r s1 = (q, s2)" and t2: "only_tick s2 s'" using run by auto
    have "env_step s1 s2 \<and> frame s2 = frame s1
       \<and> (topic s2 = topic s1 \<and> (\<exists>e. q = Inl e) \<or> topic s2 = topic s1 @ [r])"
      using prod p unfolding produce_law_def by blast
    moreover have "env_step s2 s'" "topic s' = topic s2" "frame s' = frame s2"
      using t2 by (auto elim!: only_tickE simp: tick)
    ultimately show ?thesis using t1 env_step_trans by metis
  qed
qed

lemma publishWithRetry_publishes:
  assumes prod: "produce_law topic frame produce" and exec: "execute_law execute" and ret: "retry_law retry"
    and tick: "\<And>s k. topic (s\<lparr>rt_tick := k\<rparr>) = topic s" "\<And>s k. frame (s\<lparr>rt_tick := k\<rparr>) = frame s"
  shows "publishes topic frame (OutboxWorker_publishWithRetry produce execute retry)"
  unfolding publishes_def OutboxWorker_publishWithRetry_def
proof (intro allI impI)
  fix r s q s'
  assume "retry (execute (produce r)) s = (q, s')"
  then have "attempts (execute (produce r)) s q s'" using ret by (simp add: retry_law_def)
  note one = execute_once [OF prod exec tick]
  from \<open>attempts (execute (produce r)) s q s'\<close>
  show "env_step s s' \<and> frame s' = frame s
      \<and> (\<exists>n. topic s' = topic s @ replicate n r \<and> (q = Inr () \<longrightarrow> 0 < n))"
  proof (induction rule: attempts.induct)
    case (first_success s s')
    from one [OF this] have "env_step s s'" "frame s' = frame s" "topic s' = topic s @ replicate 1 r" by auto
    then show ?case by blast
  next
    case (give_up s e s' e')
    from one [OF this] have "env_step s s'" "frame s' = frame s"
      "topic s' = topic s @ replicate 0 r \<or> topic s' = topic s @ replicate 1 r" by auto
    then show ?case by blast
  next
    case (again s e s1 q s')
    from again.IH obtain n where IH: "env_step s1 s'" "frame s' = frame s1"
      "topic s' = topic s1 @ replicate n r" "q = Inr () \<longrightarrow> 0 < n" by blast
    from one [OF again(1)] obtain m where "env_step s s1" "frame s1 = frame s" "topic s1 = topic s @ replicate m r"
      by (metis append_Nil2 replicate_0 replicate_Suc One_nat_def)
    then have "env_step s s'" "frame s' = frame s" "topic s' = topic s @ replicate (m + n) r"
      using IH env_step_trans by (auto simp: replicate_add)
    then show ?case using IH(4) by (metis add_gr_0)
  qed
qed

section \<open>What a flush does\<close>

text \<open>
  The records sent for a batch: those of its events, in order, each one or more times, up to the
  event whose publishing failed, which may have been sent too.
\<close>

inductive delivers :: "lib \<Rightarrow> outbox_event list \<Rightarrow> kafka_record list \<Rightarrow> bool" for L where
  batch_end: "delivers L [] []"
| stopped: "delivers L (e # es) (replicate n (OutboxWorker_record L e))"
| next_event: "delivers L es rs \<Longrightarrow>
    delivers L (e # es) (replicate (Suc n) (OutboxWorker_record L e) @ rs)"

inductive_simps delivers_Nil [simp]: "delivers L [] rs"

lemma delivers_set: "delivers L es rs \<Longrightarrow> set rs \<subseteq> OutboxWorker_record L ` set es"
  by (induction rule: delivers.induct) (auto simp: set_replicate_conv_if)

lemma same_rows_member:
  assumes "same_rows rows rows'" and "e' \<in> set rows'"
  obtains e where "e \<in> set rows" "oe_ID e = oe_ID e'" "OutboxWorker_record L e = OutboxWorker_record L e'"
proof -
  have "e'\<lparr>oe_PublishedAt := None\<rparr> \<in> set (map (\<lambda>e. e\<lparr>oe_PublishedAt := None\<rparr>) rows)"
    using assms unfolding same_rows_def by simp
  then obtain e where e: "e \<in> set rows" "e'\<lparr>oe_PublishedAt := None\<rparr> = e\<lparr>oe_PublishedAt := None\<rparr>" by auto
  show thesis
    by (rule that [OF e(1)])
      (use arg_cong [OF e(2), of oe_ID] arg_cong [OF e(2), of "OutboxWorker_record L"]
       in \<open>simp_all add: OutboxWorker_record_def\<close>)
qed

context outbox_table
begin

lemma publishBatch_spec:
  assumes pub: "publishes (\<lambda>s. tp (rest s)) rows publish"
    and run: "OutboxWorker_publishBatch ob publish es s = (r, s')"
  shows "r = Inr () \<and> env_step s s' \<and> same_rows (rows s) (rows s') \<and> pending (rows s') \<subseteq> pending (rows s)
    \<and> (\<exists>sent. tp (rest s') = tp (rest s) @ sent \<and> delivers (rt_lib s) es sent
         \<and> (\<forall>i \<in> pending (rows s) - pending (rows s').
              \<exists>e \<in> set es. oe_ID e = i \<and> OutboxWorker_record (rt_lib s) e \<in> set sent))"
  using run
proof (induction es arbitrary: s)
  case (Cons e es)
  let ?rec = "OutboxWorker_record (rt_lib s) e"
  obtain q s1 where p: "publish ?rec s = (q, s1)" by fastforce
  obtain n where n: "env_step s s1" "rows s1 = rows s" "tp (rest s1) = tp (rest s) @ replicate n ?rec"
    "q = Inr () \<longrightarrow> 0 < n"
    using pub p unfolding publishes_def by metis
  show ?case
  proof (cases q)
    case (Inl err)
    then have "r = Inr () \<and> s' = s1" using Cons.prems p by (simp add: go_simps)
    then show ?thesis using n stopped by auto
  next
    case (Inr u)
    obtain q2 s2 where m: "MarkPublished ob (oe_ID e) s1 = (q2, s2)" by fastforce
    have rest: "OutboxWorker_publishBatch ob publish es s2 = (r, s')"
      using Cons.prems p m Inr by (simp add: go_simps)
    have m2: "env_step s1 s2" "rest s2 = rest s1"
      "rows s2 = rows s1 \<or> (\<exists>t. rows s2 = outbox_mark t (oe_ID e) (rows s1))"
      using mark_effect [OF m] by blast+
    have L: "rt_lib s2 = rt_lib s" using n(1) m2(1) env_step_lib by metis
    have rows2: "same_rows (rows s) (rows s2)" "pending (rows s2) \<subseteq> pending (rows s)"
      "pending (rows s) - pending (rows s2) \<subseteq> {oe_ID e}"
      using m2(3) n(2) by (auto simp: pending_mark)
    obtain sent where IH: "r = Inr ()" "env_step s2 s'" "same_rows (rows s2) (rows s')"
      "pending (rows s') \<subseteq> pending (rows s2)" "tp (rest s') = tp (rest s2) @ sent"
      "delivers (rt_lib s) es sent"
      "\<forall>i \<in> pending (rows s2) - pending (rows s').
          \<exists>e \<in> set es. oe_ID e = i \<and> OutboxWorker_record (rt_lib s) e \<in> set sent"
      using Cons.IH [OF rest] unfolding L by blast
    obtain k where k: "n = Suc k" using n(4) Inr by (cases n) auto
    let ?sent = "replicate n ?rec @ sent"
    have "tp (rest s') = tp (rest s) @ ?sent" using IH(5) m2(2) n(3) by simp
    moreover have "delivers (rt_lib s) (e # es) ?sent" unfolding k by (rule next_event [OF IH(6)])
    moreover have "\<exists>e' \<in> set (e # es). oe_ID e' = i \<and> OutboxWorker_record (rt_lib s) e' \<in> set ?sent"
      if "i \<in> pending (rows s) - pending (rows s')" for i
    proof (cases "i \<in> pending (rows s2)")
      case True
      then show ?thesis using IH(7) that by auto
    next
      case False
      then have "i = oe_ID e" using that rows2(3) by blast
      then show ?thesis using k by auto
    qed
    moreover have "env_step s s'" using n(1) m2(1) IH(2) env_step_trans by metis
    moreover have "same_rows (rows s) (rows s')" using rows2(1) IH(3) same_rows_trans by blast
    ultimately show ?thesis using IH(1,4) rows2(2) by blast
  qed
qed (simp add: go_return_def)

lemma flush_spec:
  assumes pub: "publishes (\<lambda>s. tp (rest s)) rows publish"
    and run: "OutboxWorker_flush ob publish s = (r, s')"
  shows "r = Inr () \<and> env_step s s' \<and> same_rows (rows s) (rows s') \<and> pending (rows s') \<subseteq> pending (rows s)
    \<and> (\<exists>sent. tp (rest s') = tp (rest s) @ sent
         \<and> (sent = [] \<or> delivers (rt_lib s) (outbox_unpublished 100 (rows s)) sent)
         \<and> (\<forall>i \<in> pending (rows s) - pending (rows s').
              \<exists>e \<in> set (rows s). oe_ID e = i \<and> OutboxWorker_record (rt_lib s) e \<in> set sent))"
proof -
  obtain q s1 where f: "FetchUnpublished ob 100 s = (q, s1)" by fastforce
  obtain k where s1: "s1 = s\<lparr>rt_tick := k\<rparr>" and k: "rt_tick s \<le> k"
    using fetch_effect [OF f] by (rule only_tickE)
  show ?thesis
  proof (cases q)
    case (Inl e)
    then have "r = Inr () \<and> s' = s1" using run f by (simp add: OutboxWorker_flush_def go_simps)
    then show ?thesis using k by (simp add: s1)
  next
    case (Inr es)
    then have es: "es = outbox_unpublished 100 (rows s)" using fetch_ok f by simp
    have "OutboxWorker_publishBatch ob publish es s1 = (r, s')"
      using run f Inr by (simp add: OutboxWorker_flush_def go_simps)
    from publishBatch_spec [OF pub this]
    obtain sent where b: "r = Inr ()" "env_step s1 s'" "same_rows (rows s) (rows s')"
      "pending (rows s') \<subseteq> pending (rows s)" "tp (rest s') = tp (rest s) @ sent"
      "delivers (rt_lib s) es sent"
      "\<forall>i \<in> pending (rows s) - pending (rows s').
          \<exists>e \<in> set es. oe_ID e = i \<and> OutboxWorker_record (rt_lib s) e \<in> set sent"
      unfolding s1 by auto
    have "env_step s s'" using b(2) k by (auto simp: s1 env_step_def)
    moreover have "e \<in> set (rows s)" if "e \<in> set es" for e
      using that set_outbox_unpublished unfolding es by blast
    ultimately show ?thesis using b unfolding es by blast
  qed
qed

text \<open>When nothing fails, a flush publishes its whole batch, in order and once.\<close>

lemma publishBatch_all:
  assumes pub: "publishes (\<lambda>s. tp (rest s)) rows publish"
    and good: "\<And>rec s. no_faults s \<Longrightarrow> \<exists>s'. publish rec s = (Inr (), s') \<and> tp (rest s') = tp (rest s) @ [rec]"
    and nf: "no_faults s" and run: "OutboxWorker_publishBatch ob publish es s = (r, s')"
  shows "tp (rest s') = tp (rest s) @ map (OutboxWorker_record (rt_lib s)) es
    \<and> pending (rows s') = pending (rows s) - oe_ID ` set es"
  using nf run
proof (induction es arbitrary: s)
  case (Cons e es)
  let ?rec = "OutboxWorker_record (rt_lib s) e"
  obtain s1 where p: "publish ?rec s = (Inr (), s1)" "tp (rest s1) = tp (rest s) @ [?rec]"
    using good [OF Cons.prems(1)] by blast
  have e1: "env_step s s1" "rows s1 = rows s" using pub p(1) unfolding publishes_def by blast+
  then have nf1: "no_faults s1" using Cons.prems(1) by (simp add: env_step_no_faults)
  then obtain s2 where m: "MarkPublished ob (oe_ID e) s1 = (Inr (), s2)" using mark_succeeds by blast
  have e2: "env_step s1 s2" "rest s2 = rest s1" using mark_effect [OF m] by blast+
  obtain t where t: "rows s2 = outbox_mark t (oe_ID e) (rows s1)" using mark_ok [OF m] by blast
  have "OutboxWorker_publishBatch ob publish es s2 = (r, s')"
    using Cons.prems(2) p(1) m by (simp add: go_simps)
  moreover have "no_faults s2" using nf1 e2(1) by (simp add: env_step_no_faults)
  moreover have "rt_lib s2 = rt_lib s" using e1(1) e2(1) env_step_lib by metis
  ultimately show ?case
    using Cons.IH [of s2] t e1(2) e2(2) p(2) by (auto simp: pending_mark)
qed (simp add: go_return_def)

lemma flush_all:
  assumes pub: "publishes (\<lambda>s. tp (rest s)) rows publish"
    and good: "\<And>rec s. no_faults s \<Longrightarrow> \<exists>s'. publish rec s = (Inr (), s') \<and> tp (rest s') = tp (rest s) @ [rec]"
    and nf: "no_faults s" and run: "OutboxWorker_flush ob publish s = (r, s')"
  shows "tp (rest s') = tp (rest s) @ map (OutboxWorker_record (rt_lib s)) (outbox_unpublished 100 (rows s))
    \<and> pending (rows s') = pending (rows s) - oe_ID ` set (outbox_unpublished 100 (rows s))"
proof -
  obtain es s1 where f: "FetchUnpublished ob 100 s = (Inr es, s1)" using fetch_succeeds [OF nf] by blast
  obtain k where s1: "s1 = s\<lparr>rt_tick := k\<rparr>" using fetch_effect [OF f] by (rule only_tickE)
  have es: "es = outbox_unpublished 100 (rows s)" by (rule fetch_ok [OF f])
  have "OutboxWorker_publishBatch ob publish es s1 = (r, s')"
    using run f by (simp add: OutboxWorker_flush_def go_simps)
  from publishBatch_all [OF pub good _ this] show ?thesis using nf unfolding s1 es by simp
qed

text \<open>Over any number of ticks: no row is lost, and what is marked as published was sent.\<close>

lemma Run_spec:
  assumes pub: "publishes (\<lambda>s. tp (rest s)) rows publish"
    and run: "OutboxWorker_Run ticks ob publish s = (r, s')"
  shows "env_step s s' \<and> same_rows (rows s) (rows s') \<and> pending (rows s') \<subseteq> pending (rows s)
    \<and> (\<exists>sent. tp (rest s') = tp (rest s) @ sent
         \<and> (\<forall>i \<in> pending (rows s) - pending (rows s').
              \<exists>e \<in> set (rows s). oe_ID e = i \<and> OutboxWorker_record (rt_lib s) e \<in> set sent))"
  using run
proof (induction ticks arbitrary: s)
  case (Suc ticks)
  obtain q s1 where f: "OutboxWorker_flush ob publish s = (q, s1)" by fastforce
  from flush_spec [OF pub this] obtain sent where fl: "q = Inr ()" "env_step s s1"
    "same_rows (rows s) (rows s1)" "pending (rows s1) \<subseteq> pending (rows s)"
    "tp (rest s1) = tp (rest s) @ sent"
    "\<forall>i \<in> pending (rows s) - pending (rows s1). \<exists>e \<in> set (rows s). oe_ID e = i
       \<and> OutboxWorker_record (rt_lib s) e \<in> set sent" by blast
  have "OutboxWorker_Run ticks ob publish s1 = (r, s')" using Suc.prems f fl(1) by (simp add: go_simps)
  from Suc.IH [OF this] obtain sent2 where IH: "env_step s1 s'" "same_rows (rows s1) (rows s')"
    "pending (rows s') \<subseteq> pending (rows s1)" "tp (rest s') = tp (rest s1) @ sent2"
    "\<forall>i \<in> pending (rows s1) - pending (rows s'). \<exists>e \<in> set (rows s1). oe_ID e = i
       \<and> OutboxWorker_record (rt_lib s1) e \<in> set sent2" by blast
  have L: "rt_lib s1 = rt_lib s" using fl(2) by (rule env_step_lib)
  have "\<exists>e \<in> set (rows s). oe_ID e = i \<and> OutboxWorker_record (rt_lib s) e \<in> set (sent @ sent2)"
    if "i \<in> pending (rows s) - pending (rows s')" for i
  proof (cases "i \<in> pending (rows s1)")
    case True
    then have "i \<in> pending (rows s1) - pending (rows s')" using that by simp
    from bspec [OF IH(5) this] obtain e1 where e1: "e1 \<in> set (rows s1)" "oe_ID e1 = i"
      "OutboxWorker_record (rt_lib s) e1 \<in> set sent2" unfolding L by (elim bexE conjE)
    obtain e where "e \<in> set (rows s)" "oe_ID e = oe_ID e1"
      "OutboxWorker_record (rt_lib s) e = OutboxWorker_record (rt_lib s) e1"
      by (rule same_rows_member [OF fl(3) e1(1)])
    then show ?thesis using e1(2,3) by (intro bexI [of _ e]) simp_all
  qed (use that fl(6) in auto)
  moreover have "tp (rest s') = tp (rest s) @ sent @ sent2" using fl(5) IH(4) by simp
  moreover have "env_step s s'" by (rule env_step_trans [OF fl(2) IH(1)])
  moreover have "same_rows (rows s) (rows s')" by (rule same_rows_trans [OF fl(3) IH(2)])
  moreover have "pending (rows s') \<subseteq> pending (rows s)" by (rule order_trans [OF IH(3) fl(4)])
  ultimately show ?case by blast
qed (simp add: go_return_def)

end

section \<open>The outbox is drained\<close>

lemma card_pending:
  assumes "distinct (map oe_ID rows)"
  shows "card (pending rows) = length (filter (\<lambda>e. oe_PublishedAt e = None) rows)"
proof -
  have "pending rows = set (map oe_ID (filter (\<lambda>e. oe_PublishedAt e = None) rows))"
    by (auto simp: pending_def)
  then show ?thesis
    using distinct_card [OF distinct_map_filter [OF assms, of "\<lambda>e. oe_PublishedAt e = None"]] by simp
qed

lemma card_batch:
  assumes "distinct (map oe_ID rows)"
  shows "card (oe_ID ` set (outbox_unpublished n rows)) = min n (card (pending rows))"
    and "oe_ID ` set (outbox_unpublished n rows) \<subseteq> pending rows"
proof -
  have "card (set (map oe_ID (outbox_unpublished n rows))) = length (outbox_unpublished n rows)"
    using distinct_card [OF distinct_outbox_unpublished [OF assms]] by (metis length_map)
  then show "card (oe_ID ` set (outbox_unpublished n rows)) = min n (card (pending rows))"
    using card_pending [OF assms] by (simp add: outbox_unpublished_def min.commute)
  show "oe_ID ` set (outbox_unpublished n rows) \<subseteq> pending rows"
    by (auto simp: pending_def dest: set_outbox_unpublished)
qed

lemma same_rows_ids: "same_rows rows rows' \<Longrightarrow> map oe_ID rows = map oe_ID rows'"
  unfolding same_rows_def by (drule arg_cong [where f = "map oe_ID"]) (simp add: comp_def)

context outbox_table
begin

lemma Run_drains:
  assumes pub: "publishes (\<lambda>s. tp (rest s)) rows publish"
    and good: "\<And>rec s. no_faults s \<Longrightarrow> \<exists>s'. publish rec s = (Inr (), s') \<and> tp (rest s') = tp (rest s) @ [rec]"
    and "no_faults s" "distinct (map oe_ID (rows s))" "card (pending (rows s)) \<le> 100 * ticks"
    and "OutboxWorker_Run ticks ob publish s = (r, s')"
  shows "pending (rows s') = {}"
  using assms(3-6)
proof (induction ticks arbitrary: s)
  case 0
  then have "s' = s" "card (pending (rows s)) = 0" by (simp_all add: go_return_def)
  then show ?case by (simp add: pending_def card_eq_0_iff)
next
  case (Suc ticks)
  obtain q s1 where f: "OutboxWorker_flush ob publish s = (q, s1)" by fastforce
  have fl: "q = Inr ()" "env_step s s1" "same_rows (rows s) (rows s1)"
    using flush_spec [OF pub f] by blast+
  have p1: "pending (rows s1) = pending (rows s) - oe_ID ` set (outbox_unpublished 100 (rows s))"
    using flush_all [OF pub good Suc.prems(1) f] by blast
  have "card (pending (rows s1)) = card (pending (rows s)) - min 100 (card (pending (rows s)))"
    unfolding p1 using card_batch [OF Suc.prems(2), of 100]
    by (subst card_Diff_subset) (auto simp: finite_subset)
  then have "card (pending (rows s1)) \<le> 100 * ticks" using Suc.prems(3) by simp
  moreover have "OutboxWorker_Run ticks ob publish s1 = (r, s')"
    using Suc.prems(4) f fl(1) by (simp add: go_simps)
  moreover have "no_faults s1" using Suc.prems(1) fl(2) by (simp add: env_step_no_faults)
  moreover have "distinct (map oe_ID (rows s1))" using Suc.prems(2) same_rows_ids [OF fl(3)] by simp
  ultimately show ?case using Suc.IH by blast
qed

end

end
