(* ===== verification/WalletPostgres.thy ===== *)
theory WalletPostgres
  imports WalletService OutboxWorker
begin

text \<open>
  The wallet service's PostgreSQL adapters: \<open>event_store.go\<close> (event store, snapshots) and
  \<open>outbox_repo.go\<close> (outbox, processed events) over the tables of
  \<open>services/wallet/migrations\<close>. The adapters are shown to keep the contracts the service and the
  saga handler rely on.
\<close>

section \<open>Tables\<close>

record snapshot_row =
  sn_balance_cents :: i64
  sn_reserved :: i64
  sn_currency :: string
  sn_user_id :: uuid
  sn_version :: i64
  sn_created_at :: time

record wallet_db = rt +
  wallet_events :: "event list"
  wallet_snapshots :: "uuid \<Rightarrow> snapshot_row option"
  wallet_outbox_events :: "outbox_event list"
  processed_events :: "uuid \<Rightarrow> time option"

text \<open>An empty database and the environment of the witnesses.\<close>

definition sample_wallet_db :: wallet_db where
  "sample_wallet_db = rt.extend sample_rt
     \<lparr>wallet_events = [], wallet_snapshots = (\<lambda>_. None), wallet_outbox_events = [],
      processed_events = (\<lambda>_. None)\<rparr>"

section \<open>The event store (event_store.go)\<close>

text \<open>\<open>SELECT COALESCE(MAX(version), 0) FROM wallet_events WHERE wallet_id = $1\<close>\<close>

definition max_version :: "uuid \<Rightarrow> event list \<Rightarrow> i64" where
  "max_version walletID rows =
     (let versions = map ev_Version (filter (\<lambda>e. ev_WalletID e = walletID) rows)
      in if versions = [] then 0
         else fold (\<lambda>v m. if sint m < sint v then v else m) (tl versions) (hd versions))"

text \<open>
  \<open>INSERT INTO wallet_events\<close> against the rows the transaction sees: the primary key \<open>id\<close> and
  \<open>UNIQUE (wallet_id, version)\<close>.
\<close>

definition insert_event :: "event \<Rightarrow> event list \<Rightarrow> goerr + event list" where
  "insert_event e rows =
     (if list_ex (\<lambda>r. ev_ID r = ev_ID e) rows then Inl (duplicate_key ''wallet_events_pkey'')
      else if list_ex (\<lambda>r. ev_WalletID r = ev_WalletID e \<and> ev_Version r = ev_Version e) rows
      then Inl (duplicate_key ''wallet_events_wallet_id_version_key'')
      else Inr (rows @ [e]))"

text \<open>
  The loop over the new events inside the transaction. The rows inserted so far are the
  transaction's own until it commits: they are the accumulator \<open>own\<close>.
\<close>

fun EventStore_insertEvents ::
  "event list \<Rightarrow> event list \<Rightarrow> ('a wallet_db_scheme, event list) go"
where
  "EventStore_insertEvents own [] = go_return own"
| "EventStore_insertEvents own (e # es) =
     go_bind (go_wrap CodeInternal ''append event''
        (go_bind (sql_query (\<lambda>s. insert_event e (wallet_events s @ own))) (\<lambda>res.
         case res of Inl err \<Rightarrow> go_throw err | Inr rows \<Rightarrow> go_return ()))) (\<lambda>_.
     EventStore_insertEvents (own @ [e]) es)"

definition conflict_message :: "i64 \<Rightarrow> i64 \<Rightarrow> string" where
  "conflict_message expectedVersion currentVersion =
     ''optimistic concurrency conflict: expected version '' @ show_int (sint expectedVersion)
       @ '', got '' @ show_int (sint currentVersion)"

text \<open>
  \<open>tx.Rollback\<close>, deferred, discards the transaction's rows on every return before \<open>Commit\<close>; here
  they are dropped with the accumulator. \<open>Commit\<close> makes them visible, and may fail before or after
  it did.
\<close>

definition EventStore_AppendEvents ::
  "uuid \<Rightarrow> event list \<Rightarrow> i64 \<Rightarrow> ('a wallet_db_scheme, unit) go"
where
  "EventStore_AppendEvents walletID events expectedVersion =
     go_bind (go_wrap CodeInternal ''begin transaction'' (sql_query (\<lambda>_. ()))) (\<lambda>_.
     go_bind (go_wrap CodeInternal ''read current version''
        (sql_query (\<lambda>s. max_version walletID (wallet_events s)))) (\<lambda>currentVersion.
     if currentVersion \<noteq> expectedVersion
     then go_throw (errors_New CodeConflict (conflict_message expectedVersion currentVersion))
     else
       go_bind (EventStore_insertEvents [] events) (\<lambda>own.
       go_wrap CodeInternal ''commit transaction''
         (sql_exec (\<lambda>s. Inr (s\<lparr>wallet_events := wallet_events s @ own\<rparr>))))))"

definition EventStore_LoadEvents :: "uuid \<Rightarrow> i64 \<Rightarrow> ('a wallet_db_scheme, event list) go" where
  "EventStore_LoadEvents walletID afterVersion =
     go_bind (go_wrap CodeInternal ''load events''
        (sql_query (\<lambda>s. sort_key (\<lambda>e. sint (ev_Version e))
           (filter (\<lambda>e. ev_WalletID e = walletID \<and> sint afterVersion < sint (ev_Version e))
              (wallet_events s))))) (\<lambda>rows.
     go_bind (sql_scan ''scan event'' rows) (\<lambda>events.
     go_bind (go_wrap CodeInternal ''iterate events'' (sql_query (\<lambda>_. ()))) (\<lambda>_.
     go_return events)))"

text \<open>The upsert keeps the currency and the user of the row that is there.\<close>

definition upsert_snapshot :: "time \<Rightarrow> wallet \<Rightarrow> snapshot_row option \<Rightarrow> snapshot_row" where
  "upsert_snapshot now w old =
     (case old of
        None \<Rightarrow> \<lparr>sn_balance_cents = w_BalanceCents w, sn_reserved = w_Reserved w,
                 sn_currency = w_Currency w, sn_user_id = w_UserID w, sn_version = w_Version w,
                 sn_created_at = now\<rparr>
      | Some row \<Rightarrow> row\<lparr>sn_balance_cents := w_BalanceCents w, sn_reserved := w_Reserved w,
                 sn_version := w_Version w, sn_created_at := now\<rparr>)"

definition SnapshotStore_SaveSnapshot :: "wallet \<Rightarrow> ('a wallet_db_scheme, unit) go" where
  "SnapshotStore_SaveSnapshot w =
     go_wrap CodeInternal ''save snapshot''
       (sql_exec (\<lambda>s. Inr (s\<lparr>wallet_snapshots := (wallet_snapshots s)
          (w_ID w \<mapsto> upsert_snapshot (sql_NOW s) w (wallet_snapshots s (w_ID w)))\<rparr>)))"

definition wallet_of_row :: "uuid \<Rightarrow> snapshot_row \<Rightarrow> wallet" where
  "wallet_of_row walletID row =
     \<lparr>w_ID = walletID, w_UserID = sn_user_id row, w_Currency = sn_currency row,
      w_BalanceCents = sn_balance_cents row, w_Reserved = sn_reserved row,
      w_Version = sn_version row, w_changes = []\<rparr>"

definition SnapshotStore_LoadSnapshot :: "uuid \<Rightarrow> ('a wallet_db_scheme, wallet option \<times> i64) go" where
  "SnapshotStore_LoadSnapshot walletID =
     go_bind (go_wrap CodeInternal ''load snapshot''
        (sql_query (\<lambda>s. wallet_snapshots s walletID))) (\<lambda>row.
     case row of
       None \<Rightarrow> go_throw (errors_New CodeNotFound ''no snapshot'')
     | Some r \<Rightarrow> go_return (Some (wallet_of_row walletID r), w_Version (wallet_of_row walletID r)))"

definition EventStore_postgres :: "'a wallet_db_scheme EventStore" where
  "EventStore_postgres =
     \<lparr>AppendEvents = EventStore_AppendEvents, LoadEvents = EventStore_LoadEvents\<rparr>"

definition SnapshotStore_postgres :: "'a wallet_db_scheme SnapshotStore" where
  "SnapshotStore_postgres =
     \<lparr>SaveSnapshot = SnapshotStore_SaveSnapshot, LoadSnapshot = SnapshotStore_LoadSnapshot\<rparr>"

section \<open>Outbox and processed events (outbox_repo.go)\<close>

definition WalletOutboxRepository_Save :: "outbox_event \<Rightarrow> ('a wallet_db_scheme, unit) go" where
  "WalletOutboxRepository_Save event =
     go_wrap CodeInternal ''save wallet outbox event''
       (sql_exec (\<lambda>s. case outbox_insert ''wallet_outbox_events_pkey'' event (wallet_outbox_events s) of
          Inl e \<Rightarrow> Inl e
        | Inr rows \<Rightarrow> Inr (s\<lparr>wallet_outbox_events := rows\<rparr>)))"

definition WalletOutboxRepository_FetchUnpublished :: "nat \<Rightarrow> ('a wallet_db_scheme, outbox_event list) go" where
  "WalletOutboxRepository_FetchUnpublished limit =
     sql_select ''fetch wallet outbox events'' ''scan wallet outbox event''
       (\<lambda>s. outbox_unpublished limit (wallet_outbox_events s))"

definition WalletOutboxRepository_MarkPublished :: "uuid \<Rightarrow> ('a wallet_db_scheme, unit) go" where
  "WalletOutboxRepository_MarkPublished i =
     go_wrap CodeInternal ''mark wallet outbox published''
       (sql_exec (\<lambda>s. Inr (s\<lparr>wallet_outbox_events :=
          outbox_mark (sql_NOW s) i (wallet_outbox_events s)\<rparr>)))"

definition ProcessedEventRepository_IsProcessed :: "uuid \<Rightarrow> ('a wallet_db_scheme, bool) go" where
  "ProcessedEventRepository_IsProcessed eventID =
     go_wrap CodeInternal ''check processed event''
       (sql_query (\<lambda>s. processed_events s eventID \<noteq> None))"

definition ProcessedEventRepository_MarkProcessed :: "uuid \<Rightarrow> ('a wallet_db_scheme, unit) go" where
  "ProcessedEventRepository_MarkProcessed eventID =
     go_wrap CodeInternal ''mark event processed''
       (sql_exec (\<lambda>s. Inr (s\<lparr>processed_events := mark_processed (sql_NOW s) eventID (processed_events s)\<rparr>)))"

definition WalletOutbox_postgres :: "'a wallet_db_scheme OutboxRepository" where
  "WalletOutbox_postgres =
     \<lparr>OutboxSave = WalletOutboxRepository_Save, FetchUnpublished = WalletOutboxRepository_FetchUnpublished,
      MarkPublished = WalletOutboxRepository_MarkPublished\<rparr>"

definition WalletProcessed_postgres :: "'a wallet_db_scheme ProcessedEventRepository" where
  "WalletProcessed_postgres =
     \<lparr>IsProcessed = ProcessedEventRepository_IsProcessed,
      MarkProcessed = ProcessedEventRepository_MarkProcessed\<rparr>"

section \<open>The log of a wallet in the table\<close>

definition table_log :: "event list \<Rightarrow> uuid \<Rightarrow> event list" where
  "table_log rows wid = sort_key (\<lambda>e. sint (ev_Version e)) (filter (\<lambda>e. ev_WalletID e = wid) rows)"

definition table_inv :: "event list \<Rightarrow> bool" where
  "table_inv rows \<longleftrightarrow> distinct (map ev_ID rows) \<and> distinct (map (\<lambda>e. (ev_WalletID e, ev_Version e)) rows)"

lemma fold_max_version:
  "fold (\<lambda>v m. if sint m < sint v then v else m) vs (v :: i64) \<in> set (v # vs)
   \<and> (\<forall>x \<in> set (v # vs). sint x \<le> sint (fold (\<lambda>v m. if sint m < sint v then v else m) vs v))"
proof (induction vs arbitrary: v)
  case (Cons a vs)
  show ?case using Cons.IH [of v] Cons.IH [of a] by (cases "sint v < sint a") auto
qed simp

lemma sint_inject_i64: "sint (a :: i64) = sint b \<Longrightarrow> a = b"
  by (metis i64_sint_inverse)

lemma sorted_last_max:
  "sorted (map f l) \<Longrightarrow> e \<in> set l \<Longrightarrow> f e \<le> f (last l)"
  by (induction l) auto

lemma max_version_log: "max_version wid rows = log_version (table_log rows wid)"
proof (cases "filter (\<lambda>e. ev_WalletID e = wid) rows")
  case Nil
  then show ?thesis by (simp add: max_version_def table_log_def log_version_def)
next
  case (Cons e0 es)
  let ?own = "e0 # es" and ?l = "table_log rows wid"
  let ?m = "fold (\<lambda>v m. if sint m < sint v then v else m) (map ev_Version es) (ev_Version e0)"
  have set: "set ?l = set ?own" unfolding table_log_def Cons by (rule set_sort)
  then have ne: "?l \<noteq> []" by (metis list.distinct(1) set_empty)
  have sorted: "sorted (map (\<lambda>e. sint (ev_Version e)) ?l)" by (simp add: table_log_def)
  have m: "?m = max_version wid rows" using Cons by (simp add: max_version_def)
  have in_m: "?m \<in> ev_Version ` set ?own" and ge: "\<And>e. e \<in> set ?own \<Longrightarrow> sint (ev_Version e) \<le> sint ?m"
    using fold_max_version [of "map ev_Version es" "ev_Version e0"] by auto
  obtain e where e: "e \<in> set ?l" "?m = ev_Version e" using in_m set by auto
  have "sint ?m \<le> sint (ev_Version (last ?l))"
    using sorted_last_max [OF sorted e(1)] e(2) by simp
  moreover have "sint (ev_Version (last ?l)) \<le> sint ?m" using ge set last_in_set [OF ne] by blast
  ultimately have "?m = ev_Version (last ?l)" by (intro sint_inject_i64) simp
  then show ?thesis using m ne by (simp add: log_version_def)
qed

lemma filter_after_log:
  "sort_key (\<lambda>e. sint (ev_Version e))
     (filter (\<lambda>e. ev_WalletID e = wid \<and> sint after < sint (ev_Version e)) rows)
   = filter (\<lambda>e. sint after < sint (ev_Version e)) (table_log rows wid)"
  by (simp add: table_log_def filter_sort conj_commute)

lemma table_log_append:
  assumes nxt: "next_events wid v xs" and v: "log_version (table_log rows wid) = v"
    and range: "\<And>e. e \<in> set (table_log rows wid) \<Longrightarrow> sint (ev_Version e) \<le> sint v"
  shows "table_log (rows @ xs) = (table_log rows)(wid := table_log rows wid @ xs)"
proof (rule ext)
  fix x
  let ?f = "\<lambda>e. sint (ev_Version e)"
  have own: "filter (\<lambda>e. ev_WalletID e = x) xs = (if x = wid then xs else [])"
    using nxt by (auto simp: next_events_def filter_id_conv filter_empty_conv)
  show "table_log (rows @ xs) x = ((table_log rows)(wid := table_log rows wid @ xs)) x"
  proof (cases "x = wid")
    case False
    then show ?thesis using own by (simp add: table_log_def)
  next
    case True
    let ?own = "filter (\<lambda>e. ev_WalletID e = wid) rows"
    have "sort_key ?f (?own @ xs) = sort_key ?f ?own @ xs"
    proof (rule properties_for_sort_key)
      show "mset (sort_key ?f ?own @ xs) = mset (?own @ xs)" by simp
      show "filter (\<lambda>x. ?f k = ?f x) (sort_key ?f ?own @ xs) = filter (\<lambda>x. ?f k = ?f x) (?own @ xs)" for k
        using sort_key_stable [of ?f "?f k" ?own] by (simp add: eq_commute)
      have "sorted (map ?f xs)"
        using nxt unfolding next_events_def by (blast intro: strict_sorted_imp_sorted)
      moreover have "?f a \<le> ?f b" if a: "a \<in> set (sort_key ?f ?own)" and b: "b \<in> set xs" for a b
      proof -
        have "?f a \<le> sint v" using range [of a] a by (simp add: table_log_def)
        moreover have "sint v < ?f b" using nxt b by (simp add: next_events_def)
        ultimately show ?thesis by simp
      qed
      ultimately show "sorted (map ?f (sort_key ?f ?own @ xs))"
        by (simp add: sorted_append)
    qed
    then show ?thesis using own True by (simp add: table_log_def)
  qed
qed

lemma log_version_max:
  assumes "e \<in> set (table_log rows wid)"
  shows "sint (ev_Version e) \<le> sint (log_version (table_log rows wid))"
proof -
  have "sorted (map (\<lambda>e. sint (ev_Version e)) (table_log rows wid))" by (simp add: table_log_def)
  from sorted_last_max [OF this assms] show ?thesis using assms by (auto simp: log_version_def)
qed

section \<open>Appending in a transaction\<close>

lemma insert_event_ok:
  "insert_event e rows = Inr rows' \<Longrightarrow> rows' = rows @ [e] \<and> (table_inv rows \<longrightarrow> table_inv (rows @ [e]))"
  by (auto simp: insert_event_def table_inv_def list_ex_iff split: if_splits)

lemma insert_event_succeeds:
  assumes "table_inv (rows @ [e])"
  shows "insert_event e rows = Inr (rows @ [e])"
proof -
  have "ev_ID e \<notin> ev_ID ` set rows" "(ev_WalletID e, ev_Version e) \<notin> (\<lambda>e. (ev_WalletID e, ev_Version e)) ` set rows"
    using assms by (simp_all add: table_inv_def)
  then have "\<not> list_ex (\<lambda>r. ev_ID r = ev_ID e) rows"
    "\<not> list_ex (\<lambda>r. ev_WalletID r = ev_WalletID e \<and> ev_Version r = ev_Version e) rows"
    unfolding list_ex_iff image_iff by metis+
  then show ?thesis by (simp add: insert_event_def)
qed

lemma table_inv_prefix: "table_inv (xs @ ys) \<Longrightarrow> table_inv xs"
  by (simp add: table_inv_def)

lemma insertEvents_effect: "EventStore_insertEvents own es s = (r, s') \<Longrightarrow> only_tick s s'"
proof (induction es arbitrary: own s)
  case (Cons e es)
  obtain q t where q: "sql_query (\<lambda>s. insert_event e (wallet_events s @ own)) s = (q, t)" by fastforce
  have st: "only_tick s t" by (rule sql_query_only_tick [OF q])
  have "s' = t \<or> EventStore_insertEvents (own @ [e]) es t = (r, s')"
    using Cons.prems q by (auto simp: go_simps split: sum.splits)
  then show ?case using st Cons.IH only_tick_trans by blast
qed (simp add: go_return_def)

lemma insertEvents_ok:
  "EventStore_insertEvents own es s = (Inr own', s') \<Longrightarrow>
     own' = own @ es \<and> (table_inv (wallet_events s @ own) \<longrightarrow> table_inv (wallet_events s @ own @ es))"
proof (induction es arbitrary: own s)
  case (Cons e es)
  obtain q t where q: "sql_query (\<lambda>s. insert_event e (wallet_events s @ own)) s = (q, t)" by fastforce
  have ok: "\<exists>rows. q = Inr (Inr rows)" and rest: "EventStore_insertEvents (own @ [e]) es t = (Inr own', s')"
    using Cons.prems q by (auto simp: go_simps split: sum.splits)
  have t: "wallet_events t = wallet_events s" "q = Inr x \<Longrightarrow> x = insert_event e (wallet_events s @ own)" for x
    using q by (auto elim!: sql_query_cases)
  obtain rows where "insert_event e (wallet_events s @ own) = Inr rows" using ok t(2) by auto
  then have "table_inv (wallet_events s @ own) \<longrightarrow> table_inv (wallet_events s @ own @ [e])"
    using insert_event_ok [of e "wallet_events s @ own"] by simp
  then show ?case using Cons.IH [OF rest] t(1) by simp
qed (simp add: go_return_def)

lemma insertEvents_succeeds:
  "no_faults s \<Longrightarrow> table_inv (wallet_events s @ own @ es) \<Longrightarrow>
     \<exists>s'. EventStore_insertEvents own es s = (Inr (own @ es), s')"
proof (induction es arbitrary: own s)
  case (Cons e es)
  let ?t = "s\<lparr>rt_tick := Suc (rt_tick s)\<rparr>"
  have "insert_event e (wallet_events s @ own) = Inr (wallet_events s @ own @ [e])"
    using insert_event_succeeds [of "wallet_events s @ own" e]
      table_inv_prefix [of "wallet_events s @ own @ [e]" es] Cons.prems(2) by simp
  then have "EventStore_insertEvents own (e # es) s = EventStore_insertEvents (own @ [e]) es ?t"
    using Cons.prems(1) by (simp add: go_simps Let_def)
  then show ?case using Cons.IH [of ?t "own @ [e]"] Cons.prems by simp
qed (simp add: go_return_def)

lemma AppendEvents_cases:
  assumes run: "EventStore_AppendEvents wid es v s = (r, s')"
  obtains (unchanged) e where "only_tick s s'" "r = Inl e"
    | (appended) k where "rt_tick s \<le> k"
        "s' = s\<lparr>rt_tick := k, wallet_events := wallet_events s @ es\<rparr>"
        "max_version wid (wallet_events s) = v"
        "table_inv (wallet_events s) \<longrightarrow> table_inv (wallet_events s @ es)"
proof -
  have "(only_tick s s' \<and> (\<exists>e. r = Inl e)) \<or> (\<exists>k. rt_tick s \<le> k
      \<and> s' = s\<lparr>rt_tick := k, wallet_events := wallet_events s @ es\<rparr>
      \<and> max_version wid (wallet_events s) = v
      \<and> (table_inv (wallet_events s) \<longrightarrow> table_inv (wallet_events s @ es)))" (is "?same s' r \<or> ?app")
  proof -
    obtain q1 s1 where b: "sql_query (\<lambda>_. ()) s = (q1, s1)" by fastforce
    obtain q2 s2 where m: "sql_query (\<lambda>s. max_version wid (wallet_events s)) s1 = (q2, s2)" by fastforce
    obtain q3 s3 where i: "EventStore_insertEvents [] es s2 = (q3, s3)" by fastforce
    have t: "only_tick s s1" "only_tick s s2" "only_tick s s3"
      using sql_query_only_tick [OF b] sql_query_only_tick [OF m] insertEvents_effect [OF i]
      by (blast intro: only_tick_trans)+
    show ?thesis
    proof (cases "\<exists>u. q1 = Inr u \<and> q2 = Inr v \<and> q3 = Inr es")
      case False
      then have "(\<exists>e. r = Inl e) \<and> (s' = s1 \<or> s' = s2 \<or> s' = s3)"
        using run b m i insertEvents_ok [of "[]" es s2]
        by (auto simp: EventStore_AppendEvents_def go_simps split: sum.splits if_splits)
      then show ?thesis using t by blast
    next
      case True
      obtain k where k: "rt_tick s \<le> k" "s3 = s\<lparr>rt_tick := k\<rparr>" using t(3) by (rule only_tickE)
      obtain k2 where k2: "s2 = s\<lparr>rt_tick := k2\<rparr>" using t(2) by (rule only_tickE)
      obtain k1 where k1: "s1 = s\<lparr>rt_tick := k1\<rparr>" using t(1) by (rule only_tickE)
      have v: "max_version wid (wallet_events s) = v" using m True k1 by (auto elim!: sql_query_cases)
      have inv: "table_inv (wallet_events s) \<longrightarrow> table_inv (wallet_events s @ es)"
        using insertEvents_ok [of "[]" es s2 es s3] i True k2 by simp
      obtain q4 where c: "sql_exec (\<lambda>s. Inr (s\<lparr>wallet_events := wallet_events s @ es\<rparr>)) s3 = (q4, s')"
        and r: "r = (case q4 of Inl e \<Rightarrow> Inl (DomainError CodeInternal ''commit transaction'' (Some e)) | Inr x \<Rightarrow> Inr x)"
        using run b m i True
        by (auto simp: EventStore_AppendEvents_def go_simps split: sum.splits prod.splits)
      from c show ?thesis
      proof (cases rule: sql_exec_cases)
        case ok
        then have "s' = s\<lparr>rt_tick := Suc k, wallet_events := wallet_events s @ es\<rparr>" using k by simp
        then show ?thesis using v inv k(1) by (metis le_SucI)
      next
        case (lost e)
        then have "s' = s\<lparr>rt_tick := Suc k, wallet_events := wallet_events s @ es\<rparr>" using k by simp
        then show ?thesis using v inv k(1) by (metis le_SucI)
      next
        case (failed e)
        then have "s' = s\<lparr>rt_tick := Suc k\<rparr>" using k by simp
        then show ?thesis using failed(1) r k(1) by (auto intro: only_tickI)
      qed
    qed
  qed
  then show thesis using that by blast
qed

lemma AppendEvents_ok:
  assumes "EventStore_AppendEvents wid es v s = (Inr u, s')"
  obtains k where "rt_tick s \<le> k" "s' = s\<lparr>rt_tick := k, wallet_events := wallet_events s @ es\<rparr>"
    "max_version wid (wallet_events s) = v"
    "table_inv (wallet_events s) \<longrightarrow> table_inv (wallet_events s @ es)"
  using assms by (cases rule: AppendEvents_cases) auto

lemma AppendEvents_succeeds:
  assumes nf: "no_faults s" and v: "max_version wid (wallet_events s) = v"
    and inv: "table_inv (wallet_events s @ es)"
  shows "\<exists>s'. EventStore_AppendEvents wid es v s = (Inr (), s')"
proof -
  let ?t = "s\<lparr>rt_tick := Suc (Suc (rt_tick s))\<rparr>"
  obtain u where i: "EventStore_insertEvents [] es ?t = (Inr es, u)"
    using insertEvents_succeeds [of ?t "[]" es] nf inv by auto
  have "no_faults u" using insertEvents_effect [OF i] nf by (auto elim!: only_tickE)
  then show ?thesis
    using nf v i by (simp add: EventStore_AppendEvents_def go_simps Let_def)
qed

section \<open>The adapters keep the contracts\<close>

definition wallet_log :: "'a wallet_db_scheme \<Rightarrow> uuid \<Rightarrow> event list" where
  "wallet_log s = table_log (wallet_events s)"

definition wallet_snaps :: "'a wallet_db_scheme \<Rightarrow> uuid \<Rightarrow> wallet option" where
  "wallet_snaps s wid = map_option (wallet_of_row wid) (wallet_snapshots s wid)"

definition wallet_inv :: "'a wallet_db_scheme \<Rightarrow> bool" where
  "wallet_inv s \<longleftrightarrow> table_inv (wallet_events s)"

lemmas wallet_abs_defs = wallet_log_def wallet_snaps_def wallet_inv_def

lemma wallet_snaps_upd:
  "wallet_snaps (s\<lparr>wallet_events := x, rt_tick := k\<rparr>) = wallet_snaps s"
  by (rule ext) (simp add: wallet_snaps_def)

text \<open>The rest of the database and of the world, which the two stores leave alone.\<close>

definition wallet_rest ::
  "'a wallet_db_scheme \<Rightarrow> outbox_event list \<times> (uuid \<Rightarrow> time option) \<times> 'a"
where
  "wallet_rest s = (wallet_outbox_events s, processed_events s, wallet_db.more s)"

lemma wallet_rest_simps [simp]:
  "wallet_rest (s\<lparr>rt_tick := k\<rparr>) = wallet_rest s"
  "wallet_rest (s\<lparr>wallet_events := x\<rparr>) = wallet_rest s"
  "wallet_rest (s\<lparr>wallet_snapshots := y\<rparr>) = wallet_rest s"
  by (simp_all add: wallet_rest_def)

lemma postgres_append_effect:
  assumes run: "EventStore_AppendEvents wid xs v s = (r, s')" and inv: "wallet_inv s"
    and nxt: "next_events wid v xs"
  shows "wallet_inv s' \<and> env_step s s' \<and> wallet_rest s' = wallet_rest s \<and> wallet_snaps s' = wallet_snaps s
      \<and> (wallet_log s' = wallet_log s \<or> appended (wallet_log s) wid xs v (wallet_log s'))"
    and "r = Inr u \<Longrightarrow> appended (wallet_log s) wid xs v (wallet_log s')"
proof -
  have app: "appended (wallet_log s) wid xs v (table_log (wallet_events s @ xs))"
    if "max_version wid (wallet_events s) = v"
  proof -
    have v: "log_version (table_log (wallet_events s) wid) = v" using that by (simp add: max_version_log)
    have "table_log (wallet_events s @ xs)
        = (table_log (wallet_events s))(wid := table_log (wallet_events s) wid @ xs)"
      by (rule table_log_append [OF nxt v]) (use log_version_max v in blast)
    then show ?thesis using v by (simp add: appended_def wallet_log_def)
  qed
  from run show "wallet_inv s' \<and> env_step s s' \<and> wallet_rest s' = wallet_rest s \<and> wallet_snaps s' = wallet_snaps s
      \<and> (wallet_log s' = wallet_log s \<or> appended (wallet_log s) wid xs v (wallet_log s'))"
  proof (cases rule: AppendEvents_cases)
    case (unchanged e)
    from unchanged(1) show ?thesis
      by (elim only_tickE) (use inv in \<open>simp add: wallet_abs_defs fun_eq_iff\<close>)
  next
    case (appended k)
    then show ?thesis
      using app inv by (simp add: wallet_abs_defs fun_eq_iff env_step_def)
  qed
  show "appended (wallet_log s) wid xs v (wallet_log s')" if "r = Inr u"
    using run [unfolded that] by (rule AppendEvents_ok) (use app in \<open>simp add: wallet_log_def\<close>)
qed

lemma set_table_log: "set (table_log rows wid) = {e \<in> set rows. ev_WalletID e = wid}"
  by (simp add: table_log_def)

text \<open>New versions of a wallet's log are new to the table.\<close>

lemma table_inv_extend:
  assumes inv: "table_inv rows" and nxt: "next_events wid (log_version (table_log rows wid)) xs"
    and ids: "distinct (map ev_ID xs)" "\<And>w e. e \<in> set (table_log rows w) \<Longrightarrow> ev_ID e \<notin> ev_ID ` set xs"
  shows "table_inv (rows @ xs)"
proof -
  let ?v = "log_version (table_log rows wid)" and ?k = "\<lambda>e. (ev_WalletID e, ev_Version e)"
  have "distinct (map (\<lambda>e. sint (ev_Version e)) xs)"
    using nxt by (auto simp: next_events_def strict_sorted_iff)
  then have "distinct (map ?k xs)"
    unfolding distinct_map inj_on_def by (metis prod.inject)
  moreover have "?k ` set rows \<inter> ?k ` set xs = {}"
  proof (rule equals0I)
    fix p assume "p \<in> ?k ` set rows \<inter> ?k ` set xs"
    then obtain a b where a: "a \<in> set rows" and b: "b \<in> set xs" and eq: "?k a = ?k b" by auto
    have "ev_WalletID b = wid" "sint ?v < sint (ev_Version b)" using nxt b by (simp_all add: next_events_def)
    then have "a \<in> set (table_log rows wid)" using a eq by (simp add: set_table_log)
    then have "sint (ev_Version a) \<le> sint ?v" by (rule log_version_max)
    then show False using eq \<open>sint ?v < sint (ev_Version b)\<close> by simp
  qed
  moreover have "ev_ID ` set rows \<inter> ev_ID ` set xs = {}"
    using ids(2) by (fastforce simp: set_table_log)
  ultimately show ?thesis using inv ids(1) by (simp add: table_inv_def)
qed

lemma postgres_load_effect: "EventStore_LoadEvents wid after s = (r, s') \<Longrightarrow> only_tick s s'"
proof -
  assume run: "EventStore_LoadEvents wid after s = (r, s')"
  obtain q1 s1 where q1: "sql_query (\<lambda>s. sort_key (\<lambda>e. sint (ev_Version e))
      (filter (\<lambda>e. ev_WalletID e = wid \<and> sint after < sint (ev_Version e)) (wallet_events s))) s = (q1, s1)"
    by fastforce
  have t1: "only_tick s s1" by (rule sql_query_only_tick [OF q1])
  show ?thesis
  proof (cases q1)
    case (Inl e)
    then show ?thesis using run q1 t1 by (simp add: EventStore_LoadEvents_def go_simps)
  next
    case (Inr rows)
    obtain q2 s2 where q2: "sql_scan ''scan event'' rows s1 = (q2, s2)" by fastforce
    obtain q3 s3 where q3: "sql_query (\<lambda>_. ()) s2 = (q3, s3)" by fastforce
    have "only_tick s1 s2" "only_tick s2 s3"
      using sql_scan_only_tick [OF q2] sql_query_only_tick [OF q3] by blast+
    moreover have "s' = s2 \<or> s' = s3"
      using run q1 q2 q3 Inr by (auto simp: EventStore_LoadEvents_def go_simps split: sum.splits)
    ultimately show ?thesis using t1 only_tick_trans by blast
  qed
qed

lemma postgres_load_ok:
  "EventStore_LoadEvents wid after s = (Inr xs, s') \<Longrightarrow>
     xs = filter (\<lambda>e. sint after < sint (ev_Version e)) (wallet_log s wid)"
  by (auto simp: EventStore_LoadEvents_def go_simps wallet_log_def filter_after_log
      dest!: sql_scan_result elim!: sql_query_cases split: prod.splits sum.splits)

lemma postgres_load_succeeds:
  "no_faults s \<Longrightarrow> \<exists>xs s'. EventStore_LoadEvents wid after s = (Inr xs, s')"
  by (simp add: EventStore_LoadEvents_def go_simps Let_def)

lemma postgres_save_effect:
  assumes run: "SnapshotStore_SaveSnapshot w s = (r, s')" and inv: "wallet_inv s"
    and same: "\<And>old. wallet_snaps s (w_ID w) = Some old \<Longrightarrow>
      w_Currency old = w_Currency w \<and> w_UserID old = w_UserID w"
  shows "wallet_inv s' \<and> env_step s s' \<and> wallet_rest s' = wallet_rest s \<and> wallet_log s' = wallet_log s
    \<and> (wallet_snaps s' = wallet_snaps s \<or> wallet_snaps s' = (wallet_snaps s)(w_ID w \<mapsto> stored w))"
proof -
  have upsert: "wallet_of_row (w_ID w) (upsert_snapshot now w (wallet_snapshots s (w_ID w))) = stored w" for now
    using same [unfolded wallet_snaps_def]
    by (cases "wallet_snapshots s (w_ID w)") (auto simp: wallet_of_row_def upsert_snapshot_def)
  obtain q where "sql_exec (\<lambda>s. Inr (s\<lparr>wallet_snapshots := (wallet_snapshots s)
      (w_ID w \<mapsto> upsert_snapshot (sql_NOW s) w (wallet_snapshots s (w_ID w)))\<rparr>)) s = (q, s')"
    using run unfolding SnapshotStore_SaveSnapshot_def by (rule go_wrap_cases)
  then show ?thesis
    by (rule sql_exec_effect)
      (use inv upsert in \<open>auto simp: wallet_abs_defs fun_eq_iff env_step_def\<close>)
qed

lemma postgres_snapshot:
  assumes "SnapshotStore_LoadSnapshot wid s = (r, s')"
  shows "only_tick s s'"
    and "r = Inr (ow, v) \<Longrightarrow> \<exists>w. ow = Some w \<and> wallet_snaps s wid = Some w \<and> v = w_Version w"
proof -
  obtain q t where q: "sql_query (\<lambda>s. wallet_snapshots s wid) s = (q, t)" by fastforce
  have st: "s' = t"
    using assms q by (auto simp: SnapshotStore_LoadSnapshot_def go_simps split: sum.splits option.splits)
  then show "only_tick s s'" using sql_query_only_tick [OF q] by simp
  assume "r = Inr (ow, v)"
  then obtain row where "q = Inr (Some row)" "ow = Some (wallet_of_row wid row)"
    "v = w_Version (wallet_of_row wid row)"
    using assms q by (auto simp: SnapshotStore_LoadSnapshot_def go_simps split: sum.splits option.splits)
  moreover from this(1) have "wallet_snapshots s wid = Some row" using q by (auto elim!: sql_query_cases)
  ultimately show "\<exists>w. ow = Some w \<and> wallet_snaps s wid = Some w \<and> v = w_Version w"
    by (simp add: wallet_snaps_def)
qed

lemmas postgres_stores = EventStore_postgres_def SnapshotStore_postgres_def

interpretation wallet_pg: wallet_store EventStore_postgres SnapshotStore_postgres
  wallet_log wallet_snaps wallet_inv wallet_rest
proof (unfold_locales, unfold postgres_stores EventStore.simps SnapshotStore.simps)
  fix s :: "'a wallet_db_scheme" and wid v k
  show "wallet_log (s\<lparr>rt_tick := k\<rparr>) = wallet_log s"
    "wallet_inv (s\<lparr>rt_tick := k\<rparr>) = wallet_inv s"
    "wallet_snaps (s\<lparr>rt_tick := k\<rparr>) = wallet_snaps s"
    "wallet_rest (s\<lparr>rt_tick := k\<rparr>) = wallet_rest s"
    by (simp_all add: wallet_abs_defs fun_eq_iff)
  show "\<exists>xs s'. EventStore_LoadEvents wid v s = (Inr xs, s')" if "no_faults s"
    using that by (rule postgres_load_succeeds)
  show "\<exists>s'. SnapshotStore_SaveSnapshot w s = (Inr (), s')" if "no_faults s" for w
    using that by (simp add: SnapshotStore_SaveSnapshot_def go_simps Let_def)
  show "\<exists>s'. EventStore_AppendEvents wid xs v s = (Inr (), s')"
    if "no_faults s" "wallet_inv s" "next_events wid v xs" "log_version (wallet_log s wid) = v"
      "distinct (map ev_ID xs)" "\<And>w e. e \<in> set (wallet_log s w) \<Longrightarrow> ev_ID e \<notin> ev_ID ` set xs" for xs
  proof (rule AppendEvents_succeeds [OF that(1)])
    show "max_version wid (wallet_events s) = v" using that(4) by (simp add: max_version_log wallet_log_def)
    show "table_inv (wallet_events s @ xs)"
      by (rule table_inv_extend [of _ wid]) (use that in \<open>simp_all add: wallet_abs_defs\<close>)
  qed
qed (erule (2) postgres_append_effect(1) | erule (2) postgres_append_effect(2) [OF _ _ _ refl]
  | erule postgres_load_effect | erule postgres_load_ok
  | (rule postgres_save_effect, assumption, assumption, blast)
  | erule postgres_snapshot(1) | erule postgres_snapshot(2) [OF _ refl])+

lemmas wallet_outbox_defs = WalletOutbox_postgres_def WalletOutboxRepository_Save_def
  WalletOutboxRepository_FetchUnpublished_def WalletOutboxRepository_MarkPublished_def

lemmas wallet_processed_defs = WalletProcessed_postgres_def
  ProcessedEventRepository_IsProcessed_def ProcessedEventRepository_MarkProcessed_def

interpretation wallet_outbox_pg: outbox_table WalletOutbox_postgres wallet_outbox_events
  "\<lambda>s. (wallet_events s, wallet_snapshots s, processed_events s, wallet_db.more s)"
proof (unfold_locales, unfold wallet_outbox_defs OutboxRepository.simps)
qed (auto simp: outbox_insert_def env_step_def Let_def elim!: wrap_exec_effect
  dest!: sql_exec_ok dest: sql_select_effect sql_select_ok
  intro: sql_select_succeeds split: if_splits)

interpretation wallet_processed_pg: processed_table WalletProcessed_postgres "\<lambda>s. processed_ids (processed_events s)"
  "\<lambda>s. (wallet_events s, wallet_snapshots s, wallet_outbox_events s, wallet_db.more s)"
proof (unfold_locales, unfold wallet_processed_defs ProcessedEventRepository.simps)
qed (auto simp: env_step_def Let_def processed_ids_iff simp del: not_None_eq elim!: wrap_exec_effect
  dest!: sql_exec_ok sql_query_ok dest: wrap_query_effect)

end
