(* ===== verification/WalletCorrect.thy ===== *)
theory WalletCorrect
  imports WalletPostgres "HOL-Library.Sublist"
begin

text \<open>
  The wallet service on its PostgreSQL adapters: every operation of \<open>wallet_service.go\<close>, run on the
  tables, implements the abstract accounts, whatever calls of the driver fail. The properties
  follow from the contract's lemmas by the interpretation \<open>wallet_pg\<close>.
\<close>

section \<open>Well-formed databases\<close>

definition wallet_db_ok :: "'a wallet_db_scheme \<Rightarrow> bool" where
  "wallet_db_ok s \<longleftrightarrow> table_inv (wallet_events s)
     \<and> coherent (rt_lib s) (wallet_log s) (wallet_snaps s)"

abbreviation wallet_accounts :: "'a wallet_db_scheme \<Rightarrow> uuid \<Rightarrow> wallet option" where
  "wallet_accounts s \<equiv> accounts (rt_lib s) (wallet_log s)"

text \<open>The next version still fits the column.\<close>

definition has_room :: "'a wallet_db_scheme \<Rightarrow> uuid \<Rightarrow> bool" where
  "has_room s wid \<longleftrightarrow> int (Suc (length (wallet_log s wid))) < 2 ^ 63"

lemma wallet_db_ok_store: "wallet_db_ok s \<longleftrightarrow> wallet_pg.store_ok s"
  by (simp add: wallet_db_ok_def wallet_pg.store_ok_def wallet_inv_def)

text \<open>An update that succeeds did the abstract command; one that fails did it or nothing.\<close>

definition pg_outcome ::
  "wallet_cmd \<Rightarrow> uuid \<Rightarrow> 'a wallet_db_scheme \<Rightarrow> goerr + wallet \<Rightarrow> 'b wallet_db_scheme \<Rightarrow> bool"
where
  "pg_outcome c wid s r s' \<longleftrightarrow> wallet_db_ok s' \<and>
     (case r of
        Inl e \<Rightarrow> wallet_accounts s' = wallet_accounts s
               \<or> spec_update c wid (wallet_accounts s) = Inr (wallet_accounts s')
      | Inr w \<Rightarrow> spec_update c wid (wallet_accounts s) = Inr (wallet_accounts s')
               \<and> wallet_accounts s' wid = Some (stored w)
               \<and> Wallet_Changes w = [last (wallet_log s' wid)])"

lemma go_map_run:
  "go_map f m s = (r, s') \<longleftrightarrow> (\<exists>q. m s = (q, s') \<and> r = (case q of Inl e \<Rightarrow> Inl e | Inr x \<Rightarrow> Inr (f x)))"
  by (auto simp: go_map_def split: prod.splits sum.splits)

lemma pg_update:
  assumes "wallet_db_ok s" and "has_room s wid"
    and "svc_update EventStore_postgres SnapshotStore_postgres wid c s = (r, s')"
  shows "pg_outcome c wid s r s'"
proof -
  have "wallet_pg.store_ok s' \<and> env_step s s'
      \<and> update_outcome (rt_lib s) c wid (wallet_log s) r (wallet_log s')"
    using wallet_pg.update_refines [of s wid c r s'] assms by (simp add: wallet_db_ok_store has_room_def)
  moreover from this have "rt_lib s' = rt_lib s" using env_step_lib by blast
  ultimately show ?thesis
    by (simp add: pg_outcome_def wallet_db_ok_store update_outcome_def split: sum.splits)
qed

lemma go_map_go_map: "go_map f (go_map g m) = go_map (\<lambda>x. f (g x)) m"
  by (rule ext) (simp add: go_map_def split: prod.splits sum.splits)

section \<open>A database with one wallet, for the witnesses\<close>

definition sample_events :: "event list" where
  "sample_events =
     [\<lparr>ev_ID = 1001, ev_WalletID = 7, ev_Type = EventWalletCreated,
       ev_Payload = WalletCreatedPayload_Marshal sample_lib \<lparr>wc_UserID = 3, wc_Currency = ''BRL''\<rparr>,
       ev_Version = 1, ev_OccuredAt = 10\<rparr>,
      \<lparr>ev_ID = 1002, ev_WalletID = 7, ev_Type = EventFundsDeposited,
       ev_Payload = FundsDepositedPayload_Marshal \<lparr>fd_AmountCents = 100, fd_Description = ''pay''\<rparr>,
       ev_Version = 2, ev_OccuredAt = 20\<rparr>]"

definition sample_wallet_db7 :: wallet_db where
  "sample_wallet_db7 = sample_wallet_db\<lparr>wallet_events := sample_events\<rparr>"

lemma sample_wallet_db_simps [simp]:
  "rt_lib sample_wallet_db = sample_lib" "rt_tick sample_wallet_db = 0"
  "rt_uuid sample_wallet_db k = of_nat (Suc k)" "no_faults sample_wallet_db"
  "rt_lib sample_wallet_db7 = sample_lib" "rt_tick sample_wallet_db7 = 0"
  "rt_uuid sample_wallet_db7 k = of_nat (Suc k)" "no_faults sample_wallet_db7"
  "wallet_events sample_wallet_db7 = sample_events" "wallet_events sample_wallet_db = []"
  "rt_fault sample_wallet_db7 k = NoFault"
  "wallet_snapshots sample_wallet_db7 i = None" "wallet_snapshots sample_wallet_db i = None"
  by (simp_all add: sample_wallet_db7_def sample_wallet_db_def rt.defs sample_rt_def no_faults_def)

lemma sample_log:
  "wallet_log sample_wallet_db7 wid = (if wid = 7 then sample_events else [])"
  by (simp add: wallet_log_def table_log_def sample_events_def)

lemma sample_account:
  "wallet_accounts sample_wallet_db7 7 = Some \<lparr>w_ID = 7, w_UserID = 3, w_Currency = ''BRL'',
     w_BalanceCents = 100, w_Reserved = 0, w_Version = 2, w_changes = []\<rparr>"
  by (simp add: accounts_def sample_log replay_def)
    (simp add: sample_events_def zero_Wallet_def Wallet_applyEvent_def payload_simps EventType_defs Let_def)

lemma sample_wallet_db7_ok [simp]: "wallet_db_ok sample_wallet_db7"
  unfolding wallet_db_ok_def coherent_def
proof (intro conjI allI)
  show "table_inv (wallet_events sample_wallet_db7)"
    by (simp add: table_inv_def sample_events_def)
  fix wid
  show "numbered (wallet_log sample_wallet_db7 wid)"
    by (simp add: sample_log numbered_def) (simp add: sample_events_def)
  show "own_log wid (wallet_log sample_wallet_db7 wid)"
    by (simp add: sample_log own_log_def) (simp add: sample_events_def)
  show "pred_option (prefix_replay (rt_lib sample_wallet_db7) (wallet_log sample_wallet_db7 wid))
      (wallet_snaps sample_wallet_db7 wid)"
    by (simp add: wallet_snaps_def)
qed

lemma sample_room [simp]: "has_room sample_wallet_db7 wid"
  by (simp add: sample_log has_room_def) (simp add: sample_events_def)

section \<open>The operations refine the accounts\<close>

text \<open>A deposit through the service, on the tables, with any pattern of driver failures: the
  database stays well formed; if it returns a result, the abstract deposit was done, the result
  reports the new balance and version and the identifier of the event that is now last in the
  wallet's log; if it returns an error, the accounts are as before or the deposit was done and its
  answer lost.\<close>

theorem deposit_refines:
  assumes "wallet_db_ok s" and "has_room s wid"
    and "WalletService_Deposit EventStore_postgres SnapshotStore_postgres wid a d s = (r, s')"
  shows "wallet_db_ok s' \<and>
     (case r of
        Inl e \<Rightarrow> wallet_accounts s' = wallet_accounts s
               \<or> spec_update (CmdDeposit a d) wid (wallet_accounts s) = Inr (wallet_accounts s')
      | Inr x \<Rightarrow> spec_update (CmdDeposit a d) wid (wallet_accounts s) = Inr (wallet_accounts s')
               \<and> (\<exists>w. wallet_accounts s' wid = Some w \<and> dr_NewBalance x = w_BalanceCents w
                    \<and> dr_Version x = w_Version w \<and> dr_EventID x = ev_ID (last (wallet_log s' wid))))"
proof -
  obtain q where run: "svc_update EventStore_postgres SnapshotStore_postgres wid (CmdDeposit a d) s = (q, s')"
    and r: "r = (case q of Inl e \<Rightarrow> Inl e | Inr w \<Rightarrow> Inr \<lparr>dr_EventID = ev_ID (hd (Wallet_Changes w)),
              dr_NewBalance = w_BalanceCents w, dr_Version = w_Version w\<rparr>)"
    using assms(3) unfolding WalletService_Deposit_update go_map_run by blast
  show ?thesis
    using pg_update [OF assms(1,2) run] r by (cases q) (simp_all add: pg_outcome_def)
qed

theorem deposit_refines_witness:
  "\<exists>r s'. WalletService_Deposit EventStore_postgres SnapshotStore_postgres 7 25 ''d'' sample_wallet_db7 = (r, s')
     \<and> wallet_db_ok s'
     \<and> (\<forall>x. r = Inr x \<longrightarrow> spec_update (CmdDeposit 25 ''d'') 7 (wallet_accounts sample_wallet_db7)
          = Inr (wallet_accounts s'))"
proof -
  obtain r s' where "WalletService_Deposit EventStore_postgres SnapshotStore_postgres 7 25 ''d'' sample_wallet_db7 = (r, s')"
    by fastforce
  then show ?thesis
    using deposit_refines [of sample_wallet_db7 7 25 "''d''" r s'] by (cases r) simp_all
qed

text \<open>C7. A withdrawal through the service, on the tables, with any pattern of driver failures: the
  database stays well formed; if it returns a result, the amount was positive and available, the
  abstract withdrawal was done, and the result reports the new balance and version and the identifier
  of the event that is now last in the wallet's log; if it returns an error, the accounts are as before
  or the withdrawal was done and its answer lost.\<close>

theorem withdraw_refines:
  assumes "wallet_db_ok s" and "has_room s wid"
    and "WalletService_Withdraw EventStore_postgres SnapshotStore_postgres wid a d s = (r, s')"
  shows "wallet_db_ok s' \<and>
     (case r of
        Inl e \<Rightarrow> wallet_accounts s' = wallet_accounts s
               \<or> spec_update (CmdWithdraw a d) wid (wallet_accounts s) = Inr (wallet_accounts s')
      | Inr x \<Rightarrow> \<exists>w w'. wallet_accounts s wid = Some w \<and> 0 < sint a
               \<and> sint a \<le> sint (w_BalanceCents w - w_Reserved w)
               \<and> wallet_accounts s' = (wallet_accounts s)(wid \<mapsto> w')
               \<and> w' = w\<lparr>w_BalanceCents := w_BalanceCents w - a, w_Version := w_Version w + 1\<rparr>
               \<and> wr_NewBalance x = w_BalanceCents w' \<and> wr_Version x = w_Version w'
               \<and> wr_EventID x = ev_ID (last (wallet_log s' wid)))"
proof -
  obtain q where run: "svc_update EventStore_postgres SnapshotStore_postgres wid (CmdWithdraw a d) s = (q, s')"
    and r: "r = (case q of Inl e \<Rightarrow> Inl e | Inr w \<Rightarrow> Inr \<lparr>wr_EventID = ev_ID (hd (Wallet_Changes w)),
              wr_NewBalance = w_BalanceCents w, wr_Version = w_Version w\<rparr>)"
    using assms(3) unfolding WalletService_Withdraw_update go_map_run by blast
  note out = pg_update [OF assms(1,2) run]
  show ?thesis
  proof (cases q)
    case (Inl e)
    then show ?thesis using out r by (simp add: pg_outcome_def)
  next
    case (Inr v)
    then have spec: "spec_update (CmdWithdraw a d) wid (wallet_accounts s) = Inr (wallet_accounts s')"
      and v: "wallet_accounts s' wid = Some (stored v)" "Wallet_Changes v = [last (wallet_log s' wid)]"
      and ok: "wallet_db_ok s'" using out by (simp_all add: pg_outcome_def)
    from spec obtain w where w: "wallet_accounts s wid = Some w" "0 < sint a"
        "sint a \<le> sint (w_BalanceCents w - w_Reserved w)"
        "wallet_accounts s' = (wallet_accounts s)
           (wid \<mapsto> w\<lparr>w_BalanceCents := w_BalanceCents w - a, w_Version := w_Version w + 1\<rparr>)"
      by (auto simp: spec_update_def split: option.splits sum.splits if_splits)
    have "stored v = w\<lparr>w_BalanceCents := w_BalanceCents w - a, w_Version := w_Version w + 1\<rparr>"
      using v(1) w(4) by simp
    from arg_cong [OF this, of w_BalanceCents] arg_cong [OF this, of w_Version]
    have "w_BalanceCents v = w_BalanceCents w - a" "w_Version v = w_Version w + 1" by simp_all
    then show ?thesis using w v(2) ok r Inr by auto
  qed
qed

theorem withdraw_refines_witness:
  "\<exists>r s'. WalletService_Withdraw EventStore_postgres SnapshotStore_postgres 7 25 ''w'' sample_wallet_db7 = (r, s')
     \<and> wallet_db_ok s' \<and> (\<forall>x. r = Inr x \<longrightarrow> wr_NewBalance x = 75)"
proof -
  obtain r s' where "WalletService_Withdraw EventStore_postgres SnapshotStore_postgres 7 25 ''w'' sample_wallet_db7 = (r, s')"
    by fastforce
  then show ?thesis
    using withdraw_refines [of sample_wallet_db7 7 25 "''w''" r s'] sample_account
    by (cases r) (auto simp: sample_account)
qed

text \<open>The three updates of the saga, reservation, credit and release: each leaves the database
  well formed, returns nil only if its abstract command was done, and when it returns an error the
  accounts are as before or the command was done and the answer lost.\<close>

theorem saga_updates_refine:
  assumes "wallet_db_ok s" and "has_room s wid"
    and "(c, f) \<in> {(CmdReserve a tx, WalletService_ReserveForTransaction),
                  (CmdDeposit a ''saga credit'', WalletService_CreditForTransaction),
                  (CmdRelease a tx, WalletService_ReleaseReservation)}"
    and "f EventStore_postgres SnapshotStore_postgres wid a tx s = (r, s')"
  shows "wallet_db_ok s' \<and>
     (case r of
        Inl e \<Rightarrow> wallet_accounts s' = wallet_accounts s
               \<or> spec_update c wid (wallet_accounts s) = Inr (wallet_accounts s')
      | Inr _ \<Rightarrow> spec_update c wid (wallet_accounts s) = Inr (wallet_accounts s'))"
proof -
  have "go_map (\<lambda>_. ()) (svc_update EventStore_postgres SnapshotStore_postgres wid c) s = (r, s')"
    using assms(3,4) by (auto simp: WalletService_ReserveForTransaction_update
      WalletService_CreditForTransaction_update WalletService_ReleaseReservation_update)
  then obtain q where run: "svc_update EventStore_postgres SnapshotStore_postgres wid c s = (q, s')"
    and r: "r = (case q of Inl e \<Rightarrow> Inl e | Inr w \<Rightarrow> Inr ())"
    unfolding go_map_run by blast
  show ?thesis
    using pg_update [OF assms(1,2) run] r by (cases q) (simp_all add: pg_outcome_def)
qed

theorem saga_updates_refine_witness:
  "\<exists>r s'. WalletService_ReserveForTransaction EventStore_postgres SnapshotStore_postgres 7 25 5 sample_wallet_db7 = (r, s')
     \<and> wallet_db_ok s'"
proof -
  obtain r s' where
    "WalletService_ReserveForTransaction EventStore_postgres SnapshotStore_postgres 7 25 5 sample_wallet_db7 = (r, s')"
    by fastforce
  then show ?thesis
    using saga_updates_refine [of sample_wallet_db7 7 "CmdReserve 25 5"
        WalletService_ReserveForTransaction 25 5 r s'] by simp
qed

text \<open>The four commands through the service, with the parts of the results they have in common.\<close>

definition service_update ::
  "wallet_cmd \<Rightarrow> uuid \<Rightarrow> ('a wallet_db_scheme, i64 \<times> i64) go"
where
  "service_update c wid =
     (case c of
        CmdDeposit a d \<Rightarrow> go_map (\<lambda>x. (dr_NewBalance x, dr_Version x))
          (WalletService_Deposit EventStore_postgres SnapshotStore_postgres wid a d)
      | CmdWithdraw a d \<Rightarrow> go_map (\<lambda>x. (wr_NewBalance x, wr_Version x))
          (WalletService_Withdraw EventStore_postgres SnapshotStore_postgres wid a d)
      | CmdReserve a x \<Rightarrow> go_map (\<lambda>_. (0, 0))
          (WalletService_ReserveForTransaction EventStore_postgres SnapshotStore_postgres wid a x)
      | CmdRelease a x \<Rightarrow> go_map (\<lambda>_. (0, 0))
          (WalletService_ReleaseReservation EventStore_postgres SnapshotStore_postgres wid a x))"

lemma service_update_svc:
  "service_update c wid s = (r, s') \<Longrightarrow>
     \<exists>q. svc_update EventStore_postgres SnapshotStore_postgres wid c s = (q, s')
       \<and> (case q of Inl e \<Rightarrow> r = Inl e | Inr _ \<Rightarrow> \<exists>x. r = Inr x)"
proof -
  assume run: "service_update c wid s = (r, s')"
  have "\<exists>f. service_update c wid = go_map f (svc_update EventStore_postgres SnapshotStore_postgres wid c)"
    by (cases c) (auto simp: service_update_def WalletService_Deposit_update WalletService_Withdraw_update
      WalletService_ReserveForTransaction_update WalletService_ReleaseReservation_update go_map_go_map)
  then obtain f where "go_map f (svc_update EventStore_postgres SnapshotStore_postgres wid c) s = (r, s')"
    using run by metis
  then obtain q where "svc_update EventStore_postgres SnapshotStore_postgres wid c s = (q, s')"
    "r = (case q of Inl e \<Rightarrow> Inl e | Inr x \<Rightarrow> Inr (f x))"
    unfolding go_map_run by blast
  then show ?thesis by (cases q) auto
qed

text \<open>When no call of the driver fails and the identifiers still to be drawn are new, an update
  through the service is refused exactly when the abstract command is, with the same error;
  otherwise it returns a result.\<close>

theorem update_answers:
  assumes "wallet_db_ok s" and "has_room s wid" and "no_faults s" and "ids_fresh s (wallet_log s)"
    and "service_update c wid s = (r, s')"
  shows "case spec_update c wid (wallet_accounts s) of
           Inl e \<Rightarrow> r = Inl e \<and> wallet_accounts s' = wallet_accounts s
         | Inr acc \<Rightarrow> (\<exists>x. r = Inr x) \<and> wallet_accounts s' = acc"
proof -
  obtain q where run: "svc_update EventStore_postgres SnapshotStore_postgres wid c s = (q, s')"
    and r: "case q of Inl e \<Rightarrow> r = Inl e | Inr _ \<Rightarrow> \<exists>x. r = Inr x"
    using service_update_svc [OF assms(5)] by blast
  have "case spec_update c wid (wallet_accounts s) of Inl e \<Rightarrow> q = Inl e | Inr acc \<Rightarrow> \<exists>w. q = Inr w"
    by (rule wallet_pg.update_total [OF _ _ assms(3,4) run])
      (use assms(1,2) in \<open>simp_all add: wallet_db_ok_store has_room_def\<close>)
  then show ?thesis
    using pg_update [OF assms(1,2) run] r
    by (auto simp: pg_outcome_def split: sum.splits)
qed

lemma sample_ids_fresh [simp]: "ids_fresh sample_wallet_db (wallet_log sample_wallet_db)"
  by (simp add: ids_fresh_def wallet_log_def table_log_def)

definition sample_far_db7 :: wallet_db where
  "sample_far_db7 = sample_wallet_db7\<lparr>rt_uuid := (\<lambda>_. 2001)\<rparr>"

lemma sample_far_db7_simps [simp]:
  "wallet_log sample_far_db7 = wallet_log sample_wallet_db7" "wallet_db_ok sample_far_db7"
  "has_room sample_far_db7 wid" "no_faults sample_far_db7"
  "rt_lib sample_far_db7 = sample_lib"
proof -
  have "wallet_snaps sample_far_db7 = wallet_snaps sample_wallet_db7"
    by (rule ext) (simp add: sample_far_db7_def wallet_snaps_def)
  then show "wallet_db_ok sample_far_db7"
    using sample_wallet_db7_ok by (simp add: sample_far_db7_def wallet_db_ok_def wallet_log_def)
  show "has_room sample_far_db7 wid"
    using sample_room [of wid] by (simp add: has_room_def sample_far_db7_def wallet_log_def)
qed (simp_all add: sample_far_db7_def wallet_log_def no_faults_def [of "sample_wallet_db7\<lparr>rt_uuid := x\<rparr>" for x])

lemma sample_event_ids: "e \<in> set (wallet_log sample_wallet_db7 wid) \<Longrightarrow> ev_ID e = 1001 \<or> ev_ID e = 1002"
  by (auto simp: sample_log sample_events_def split: if_splits)

lemma sample_far_fresh [simp]: "ids_fresh sample_far_db7 (wallet_log sample_wallet_db7)"
  using sample_event_ids by (fastforce simp: ids_fresh_def sample_far_db7_def)

theorem update_answers_witness:
  "\<exists>x s'. service_update (CmdWithdraw 30 ''w'') 7 sample_far_db7 = (Inr x, s')
     \<and> wallet_accounts s' 7 = Some \<lparr>w_ID = 7, w_UserID = 3, w_Currency = ''BRL'',
         w_BalanceCents = 70, w_Reserved = 0, w_Version = 3, w_changes = []\<rparr>"
proof -
  obtain r s' where run: "service_update (CmdWithdraw 30 ''w'') 7 sample_far_db7 = (r, s')" by fastforce
  have acc: "wallet_accounts sample_far_db7 7 = Some \<lparr>w_ID = 7, w_UserID = 3, w_Currency = ''BRL'',
     w_BalanceCents = 100, w_Reserved = 0, w_Version = 2, w_changes = []\<rparr>"
    using sample_account by simp
  show ?thesis
    using update_answers [OF _ _ _ _ run] acc run by (auto simp: spec_update_def)
qed

section \<open>Loading, creating, reading\<close>

text \<open>C19. Snapshots are invisible: two databases with the same events, any well-formed snapshots and
  any failures give, when both loads return a wallet, the same wallet, the replay of the whole log;
  without failures the load also returns in both or in neither.\<close>

theorem snapshots_invisible:
  assumes "wallet_db_ok s" and "wallet_db_ok t"
    and "wallet_events s = wallet_events t" and "rt_lib s = rt_lib t"
    and "WalletService_load EventStore_postgres SnapshotStore_postgres wid s = (rs, s')"
    and "WalletService_load EventStore_postgres SnapshotStore_postgres wid t = (ru, t')"
  shows "(\<forall>w v. rs = Inr w \<and> ru = Inr v \<longrightarrow> w = v \<and> w = replay (rt_lib s) (wallet_log s wid))
    \<and> (no_faults s \<and> no_faults t \<longrightarrow> rs = ru)"
proof -
  have st: "wallet_pg.store_ok s" "wallet_pg.store_ok t" using assms(1,2) by (simp_all add: wallet_db_ok_store)
  have log: "wallet_log s = wallet_log t" using assms(3) by (simp add: wallet_log_def)
  note ls = wallet_pg.load_spec(2,3) [OF st(1) assms(5)]
  note lt = wallet_pg.load_spec(2,3) [OF st(2) assms(6)]
  show ?thesis
  proof (intro conjI allI impI)
    fix w v
    assume "rs = Inr w \<and> ru = Inr v"
    then have "w = replay (rt_lib s) (wallet_log s wid)" "v = replay (rt_lib t) (wallet_log t wid)"
      using ls(1) lt(1) by blast+
    then show "w = v" "w = replay (rt_lib s) (wallet_log s wid)" unfolding log assms(4) by simp_all
  next
    assume "no_faults s \<and> no_faults t"
    then show "rs = ru" using ls(2) lt(2) unfolding log assms(4) by simp
  qed
qed

definition sample_snap_db7 :: wallet_db where
  "sample_snap_db7 = sample_wallet_db7\<lparr>wallet_snapshots := (\<lambda>i. if i = 7 then
     Some \<lparr>sn_balance_cents = 100, sn_reserved = 0, sn_currency = ''BRL'', sn_user_id = 3,
           sn_version = 2, sn_created_at = 30\<rparr> else None)\<rparr>"

lemma sample_snap_db7_ok [simp]: "wallet_db_ok sample_snap_db7"
proof -
  have log: "wallet_log sample_snap_db7 = wallet_log sample_wallet_db7"
    by (simp add: sample_snap_db7_def wallet_log_def)
  have "prefix_replay sample_lib (wallet_log sample_wallet_db7 7) (replay sample_lib (wallet_log sample_wallet_db7 7))"
    by (rule prefix_replay_full) (simp add: sample_log sample_events_def)
  moreover have "replay sample_lib (wallet_log sample_wallet_db7 7)
      = \<lparr>w_ID = 7, w_UserID = 3, w_Currency = ''BRL'', w_BalanceCents = 100, w_Reserved = 0,
         w_Version = 2, w_changes = []\<rparr>"
    using sample_account by (simp add: accounts_def split: if_splits)
  ultimately have "pred_option (prefix_replay sample_lib (wallet_log sample_wallet_db7 wid))
      (wallet_snaps sample_snap_db7 wid)" for wid
    by (simp add: wallet_snaps_def sample_snap_db7_def wallet_of_row_def)
  moreover have "numbered (wallet_log sample_wallet_db7 wid)" "own_log wid (wallet_log sample_wallet_db7 wid)"
      "table_inv (wallet_events sample_wallet_db7)" for wid
    using sample_wallet_db7_ok unfolding wallet_db_ok_def coherent_def by blast+
  ultimately show ?thesis
    unfolding wallet_db_ok_def coherent_def log by (simp add: sample_snap_db7_def)
qed

theorem snapshots_invisible_witness:
  "fst (WalletService_load EventStore_postgres SnapshotStore_postgres 7 sample_wallet_db7)
     = fst (WalletService_load EventStore_postgres SnapshotStore_postgres 7 sample_snap_db7)"
proof -
  have "no_faults sample_snap_db7"
    by (simp add: sample_snap_db7_def no_faults_def)
  then show ?thesis
    using snapshots_invisible [OF sample_wallet_db7_ok sample_snap_db7_ok _ _
        surjective_pairing surjective_pairing, of 7]
    by (simp add: sample_snap_db7_def)
qed

text \<open>Creating a wallet: the database stays well formed, and unless the accounts are unchanged
  one new account was added, empty, at version one, for the identifier drawn for it, which had no
  account; an empty currency never creates anything. A result reports the identifier of the new
  account.\<close>

theorem create_wallet_refines:
  assumes "wallet_db_ok s" and "uuid_laws (rt_lib s)"
    and "WalletService_CreateWallet EventStore_postgres SnapshotStore_postgres u currency s = (r, s')"
  shows "wallet_db_ok s'
    \<and> (wallet_accounts s' = wallet_accounts s
       \<or> currency \<noteq> '''' \<and> created (rt_uuid s (Suc (rt_tick s))) u currency (wallet_accounts s) (wallet_accounts s'))
    \<and> (case r of Inl e \<Rightarrow> True
       | Inr x \<Rightarrow> currency \<noteq> '''' \<and> created (cr_WalletID x) u currency (wallet_accounts s) (wallet_accounts s'))"
proof -
  have ok: "wallet_pg.store_ok s" using assms(1) by (simp add: wallet_db_ok_store)
  note c = wallet_pg.create_refines [OF ok assms(2,3)]
  have "rt_lib s' = rt_lib s" using c(1) env_step_lib by blast
  then show ?thesis using c by (auto simp: wallet_db_ok_store split: sum.splits)
qed

theorem create_wallet_refines_witness:
  "\<exists>r s'. WalletService_CreateWallet EventStore_postgres SnapshotStore_postgres 3 ''USD'' sample_wallet_db7 = (r, s')
     \<and> wallet_db_ok s'
     \<and> (\<forall>x. r = Inr x \<longrightarrow> wallet_accounts s' (cr_WalletID x) = Some (new_account (cr_WalletID x) 3 ''USD''))"
proof -
  obtain r s' where "WalletService_CreateWallet EventStore_postgres SnapshotStore_postgres 3 ''USD''
      sample_wallet_db7 = (r, s')" by fastforce
  then show ?thesis
    using create_wallet_refines [of sample_wallet_db7 3 "''USD''" r s'] by (cases r) (auto simp: created_def)
qed

section \<open>Any use of the service\<close>

text \<open>
  One call of the service, whatever it returns: the calls are the steps of the wallet database while
  its driver and its clock do as they please.
\<close>

inductive service_step :: "'a wallet_db_scheme \<Rightarrow> 'a wallet_db_scheme \<Rightarrow> bool" where
  step_create: "WalletService_CreateWallet EventStore_postgres SnapshotStore_postgres u currency s = (r, s')
      \<Longrightarrow> service_step s s'"
| step_update: "service_update c wid s = (r, s') \<Longrightarrow> has_room s wid \<Longrightarrow> service_step s s'"
| step_credit: "WalletService_CreditForTransaction EventStore_postgres SnapshotStore_postgres wid a tx s = (r, s')
      \<Longrightarrow> has_room s wid \<Longrightarrow> service_step s s'"
| step_balance: "WalletService_GetBalance EventStore_postgres SnapshotStore_postgres wid s = (r, s')
      \<Longrightarrow> service_step s s'"


lemma grown_prefix: "grown lg wid lg' \<Longrightarrow> prefix (lg x) (lg' x)"
  by (auto simp: grown_def)

lemma service_step_grows:
  assumes "service_step s s'" and ok: "wallet_db_ok s" and laws: "uuid_laws (rt_lib s)"
  shows "wallet_db_ok s' \<and> rt_lib s' = rt_lib s \<and> (\<exists>wid. grown (wallet_log s) wid (wallet_log s'))"
proof -
  have st: "wallet_pg.store_ok s" using ok by (simp add: wallet_db_ok_store)
  have upd: ?thesis if "svc_update EventStore_postgres SnapshotStore_postgres wid c s = (q, s')" "has_room s wid" for wid c q
    using wallet_pg.update_refines [OF st _ that(1)] that(2) env_step_lib
    unfolding has_room_def wallet_db_ok_store by blast
  from assms(1) show ?thesis
  proof cases
    case (step_create u currency q)
    from wallet_pg.create_refines(1) [OF st laws step_create] env_step_lib show ?thesis
      unfolding wallet_db_ok_store by blast
  next
    case (step_update c wid q)
    then show ?thesis using service_update_svc upd by blast
  next
    case (step_credit wid a tx q)
    then show ?thesis
      unfolding WalletService_CreditForTransaction_update go_map_run using upd by blast
  next
    case (step_balance wid q)
    from wallet_pg.balance_refines(1) [OF st this] show ?thesis
      by (elim only_tickE) (use st in \<open>auto simp: wallet_db_ok_store grown_def\<close>)
  qed
qed

text \<open>C3. Whatever the clients call and whatever fails, over any number of calls: the database stays
  well formed (every wallet's events are numbered from one without gaps, start with its creation
  and are replayed by its snapshot), and the log of every wallet only grows: no event is lost or
  rewritten.\<close>

theorem service_history:
  assumes "service_step\<^sup>*\<^sup>* s s'" and "wallet_db_ok s" and "uuid_laws (rt_lib s)"
  shows "wallet_db_ok s' \<and> prefix (wallet_log s wid) (wallet_log s' wid)"
proof -
  from assms have "wallet_db_ok s' \<and> rt_lib s' = rt_lib s \<and> prefix (wallet_log s wid) (wallet_log s' wid)"
  proof (induction rule: rtranclp_induct)
    case (step t u)
    then have "wallet_db_ok t" "uuid_laws (rt_lib t)" "rt_lib t = rt_lib s"
      "prefix (wallet_log s wid) (wallet_log t wid)" by simp_all
    then show ?case
      using service_step_grows [OF step(2)] grown_prefix prefix_order.trans by metis
  qed simp
  then show ?thesis by blast
qed

theorem service_history_witness:
  "\<exists>t. service_step sample_wallet_db7 t \<and> wallet_db_ok t \<and> prefix sample_events (wallet_log t 7)"
proof -
  obtain r t where "service_update (CmdDeposit 5 ''d'') 7 sample_wallet_db7 = (r, t)" by fastforce
  then have "service_step sample_wallet_db7 t" by (rule step_update) simp
  moreover from this have "wallet_db_ok t \<and> prefix (wallet_log sample_wallet_db7 7) (wallet_log t 7)"
    by (intro service_history) auto
  ultimately show ?thesis by (auto simp: sample_log)
qed

text \<open>The balance the service reads is the account's.\<close>

theorem get_balance_reads_account:
  assumes "wallet_db_ok s"
    and "WalletService_GetBalance EventStore_postgres SnapshotStore_postgres wid s = (Inr b, s')"
  shows "\<exists>w. wallet_accounts s wid = Some w
    \<and> b = \<lparr>br_WalletID = w_ID w, br_BalanceCents = w_BalanceCents w, br_Currency = w_Currency w,
           br_Version = w_Version w\<rparr>
    \<and> wallet_accounts s' = wallet_accounts s"
proof -
  have ok: "wallet_pg.store_ok s" using assms(1) by (simp add: wallet_db_ok_store)
  note b = wallet_pg.balance_refines [OF ok assms(2)]
  have "wallet_accounts s' = wallet_accounts s" using b(1) by (elim only_tickE) simp
  then show ?thesis using b(2) by blast
qed

theorem get_balance_reads_account_witness:
  "\<exists>b s'. WalletService_GetBalance EventStore_postgres SnapshotStore_postgres 7 sample_wallet_db7 = (Inr b, s')
     \<and> br_BalanceCents b = 100"
proof -
  obtain r s' where load: "WalletService_load EventStore_postgres SnapshotStore_postgres 7 sample_wallet_db7 = (r, s')"
    by fastforce
  have ok: "wallet_pg.store_ok sample_wallet_db7" using sample_wallet_db7_ok by (simp add: wallet_db_ok_store)
  have "wallet_log sample_wallet_db7 7 \<noteq> []" by (simp add: sample_log sample_events_def)
  then have "\<exists>w. r = Inr w" using wallet_pg.load_spec(3) [OF ok load] by simp
  then obtain b where "WalletService_GetBalance EventStore_postgres SnapshotStore_postgres 7 sample_wallet_db7 = (Inr b, s')"
    using load by (auto simp: WalletService_GetBalance_def go_simps)
  then show ?thesis
    using get_balance_reads_account [OF sample_wallet_db7_ok, of 7 b s'] sample_account by auto
qed

end
