(* ===== verification/WalletConcurrency.thy ===== *)
theory WalletConcurrency
  imports WalletCorrect
begin

text \<open>
  Several instances of the wallet service append at once. Each call of \<open>AppendEvents\<close>
  (\<open>event_store.go\<close>) is a database transaction of several statements, and PostgreSQL runs the
  statements of different transactions in any order: each statement sees what was committed before
  it, an insert that would clash with a row of a transaction still open waits for that one to end.
  Here the call is a step relation, one step per statement, beside any number of others; the call that
  runs alone is shown to be the function of \<open>WalletPostgres\<close>.
\<close>

section \<open>Transactions in progress\<close>

record append_job =
  jb_Wallet :: uuid
  jb_Events :: "event list"
  jb_Expected :: i64

text \<open>Before the version is read; after \<open>own\<close> was inserted, with \<open>todo\<close> to come; returned.\<close>

datatype append_pc = Reading | Inserting "event list" "event list" | Finished "goerr + unit"

text \<open>The committed rows, and where each of the callers is.\<close>

record cluster =
  cl_rows :: "event list"
  cl_pc :: "nat \<Rightarrow> append_pc"

fun pc_own :: "append_pc \<Rightarrow> event list" where
  "pc_own (Inserting own todo) = own"
| "pc_own Reading = []"
| "pc_own (Finished r) = []"

definition event_clash :: "event \<Rightarrow> event \<Rightarrow> bool" where
  "event_clash e f \<longleftrightarrow> ev_ID e = ev_ID f \<or> ev_WalletID e = ev_WalletID f \<and> ev_Version e = ev_Version f"

text \<open>Another open transaction holds a row that clashes with \<open>e\<close>.\<close>

definition waits :: "cluster \<Rightarrow> nat \<Rightarrow> event \<Rightarrow> bool" where
  "waits cl c e \<longleftrightarrow> (\<exists>d. d \<noteq> c \<and> (\<exists>f \<in> set (pc_own (cl_pc cl d)). event_clash f e))"

definition go_to :: "cluster \<Rightarrow> nat \<Rightarrow> append_pc \<Rightarrow> cluster" where
  "go_to cl c p = cl\<lparr>cl_pc := (cl_pc cl)(c := p)\<rparr>"

lemma go_to_simps [simp]:
  "cl_rows (go_to cl c p) = cl_rows cl" "cl_pc (go_to cl c p) d = (if d = c then p else cl_pc cl d)"
  "go_to (go_to cl c p) c q = go_to cl c q"
  "(go_to cl c p)\<lparr>cl_rows := rows\<rparr> = go_to (cl\<lparr>cl_rows := rows\<rparr>) c p"
  by (simp_all add: go_to_def)

lemma go_to_same: "cl_pc cl c = p \<Longrightarrow> go_to cl c p = cl"
  unfolding go_to_def by (cases cl) (simp add: fun_upd_idem)

inductive append_step :: "(nat \<Rightarrow> append_job) \<Rightarrow> nat \<Rightarrow> cluster \<Rightarrow> cluster \<Rightarrow> bool" for jobs c where
  read: "cl_pc cl c = Reading \<Longrightarrow> max_version (jb_Wallet (jobs c)) (cl_rows cl) = jb_Expected (jobs c) \<Longrightarrow>
    append_step jobs c cl (go_to cl c (Inserting [] (jb_Events (jobs c))))"
| conflict: "cl_pc cl c = Reading \<Longrightarrow> max_version (jb_Wallet (jobs c)) (cl_rows cl) = v \<Longrightarrow> v \<noteq> jb_Expected (jobs c) \<Longrightarrow>
    append_step jobs c cl (go_to cl c (Finished (Inl
      (errors_New CodeConflict (conflict_message (jb_Expected (jobs c)) v)))))"
| insert: "cl_pc cl c = Inserting own (e # todo) \<Longrightarrow> \<not> waits cl c e \<Longrightarrow> insert_event e (cl_rows cl @ own) = Inr rows \<Longrightarrow>
    append_step jobs c cl (go_to cl c (Inserting (own @ [e]) todo))"
| duplicate: "cl_pc cl c = Inserting own (e # todo) \<Longrightarrow> \<not> waits cl c e \<Longrightarrow> insert_event e (cl_rows cl @ own) = Inl err \<Longrightarrow>
    append_step jobs c cl (go_to cl c (Finished (Inl (DomainError CodeInternal ''append event'' (Some err)))))"
| commit: "cl_pc cl c = Inserting own [] \<Longrightarrow>
    append_step jobs c cl (go_to (cl\<lparr>cl_rows := cl_rows cl @ own\<rparr>) c (Finished (Inr ())))"
| commit_lost: "cl_pc cl c = Inserting own [] \<Longrightarrow>
    append_step jobs c cl (go_to (cl\<lparr>cl_rows := cl_rows cl @ own\<rparr>) c (Finished (Inl e)))"
| fault: "cl_pc cl c = Reading \<or> cl_pc cl c = Inserting own todo \<Longrightarrow>
    append_step jobs c cl (go_to cl c (Finished (Inl e)))"

inductive cluster_step :: "(nat \<Rightarrow> append_job) \<Rightarrow> cluster \<Rightarrow> cluster \<Rightarrow> bool" for jobs where
  "append_step jobs c cl cl' \<Longrightarrow> cluster_step jobs cl cl'"

section \<open>A call that runs alone\<close>

lemma rtranclp_step: "R x y \<Longrightarrow> R\<^sup>*\<^sup>* y z \<Longrightarrow> R\<^sup>*\<^sup>* x z"
  by (rule converse_rtranclp_into_rtranclp)

definition quiet :: "cluster \<Rightarrow> nat \<Rightarrow> bool" where
  "quiet cl c \<longleftrightarrow> (\<forall>d. d \<noteq> c \<longrightarrow> pc_own (cl_pc cl d) = [])"

lemma quiet_not_waits: "quiet cl c \<Longrightarrow> \<not> waits cl c e"
  by (auto simp: quiet_def waits_def)

lemma quiet_go_to [simp]: "quiet (go_to cl c p) c = quiet cl c"
  by (simp add: quiet_def)

lemma insertEvents_steps:
  assumes "EventStore_insertEvents own todo s = (r, s')" and "cl_rows cl = wallet_events s"
    and "cl_pc cl c = Inserting own todo" "quiet cl c"
  shows "case r of
      Inr own' \<Rightarrow> (append_step jobs c)\<^sup>*\<^sup>* cl (go_to cl c (Inserting own' []))
    | Inl e \<Rightarrow> (append_step jobs c)\<^sup>*\<^sup>* cl (go_to cl c (Finished (Inl e)))"
  using assms
proof (induction todo arbitrary: own s cl)
  case Nil
  then show ?case by (auto simp: go_return_def go_to_same)
next
  case (Cons e todo)
  obtain q t where q: "sql_query (\<lambda>s. insert_event e (wallet_events s @ own)) s = (q, t)" by fastforce
  have t: "only_tick s t" by (rule sql_query_only_tick [OF q])
  show ?case
  proof (cases "\<exists>rows. q = Inr (Inr rows)")
    case True
    then obtain rows where rows: "q = Inr (Inr rows)" by blast
    then have ins: "insert_event e (cl_rows cl @ own) = Inr rows"
      using q Cons.prems(2) by (auto elim!: sql_query_cases)
    let ?cl = "go_to cl c (Inserting (own @ [e]) todo)"
    have step: "append_step jobs c cl ?cl"
      using Cons.prems(3) quiet_not_waits [OF Cons.prems(4)] ins by (rule append_step.insert)
    have "EventStore_insertEvents (own @ [e]) todo t = (r, s')"
      using Cons.prems(1) q rows by (simp add: go_simps)
    moreover have "cl_rows ?cl = wallet_events t" using Cons.prems(2) t by (auto elim!: only_tickE)
    ultimately show ?thesis
      using Cons.IH [of "own @ [e]" t ?cl] Cons.prems(4) step
      by (auto split: sum.splits intro: rtranclp_step)
  next
    case False
    then obtain err where "r = Inl err"
      using Cons.prems(1) q by (cases q) (auto simp: go_simps split: sum.splits)
    then show ?thesis using append_step.fault [of cl c own "e # todo" jobs err] Cons.prems(3) by auto
  qed
qed

text \<open>The steps are the code's: a call of \<open>AppendEvents\<close> that runs while no other transaction holds rows
  goes, in steps of its own, from its start to its return, with the answer of the function and with
  the rows the function leaves.\<close>

theorem append_runs_in_steps:
  assumes "EventStore_AppendEvents (jb_Wallet (jobs c)) (jb_Events (jobs c)) (jb_Expected (jobs c)) s = (r, s')"
    and "cl_rows cl = wallet_events s" "cl_pc cl c = Reading" "quiet cl c"
  shows "(append_step jobs c)\<^sup>*\<^sup>* cl (go_to (cl\<lparr>cl_rows := wallet_events s'\<rparr>) c (Finished r))"
proof -
  let ?j = "jobs c"
  obtain q1 s1 where b: "sql_query (\<lambda>_. ()) s = (q1, s1)" by fastforce
  obtain q2 s2 where m: "sql_query (\<lambda>s. max_version (jb_Wallet ?j) (wallet_events s)) s1 = (q2, s2)" by fastforce
  obtain q3 s3 where i: "EventStore_insertEvents [] (jb_Events ?j) s2 = (q3, s3)" by fastforce
  have ev: "wallet_events s1 = wallet_events s" "wallet_events s2 = wallet_events s" "wallet_events s3 = wallet_events s"
    using sql_query_only_tick [OF b] sql_query_only_tick [OF m] insertEvents_effect [OF i] by (auto elim!: only_tickE)
  have same: "cl\<lparr>cl_rows := wallet_events s\<rparr> = cl" using assms(2) by simp
  have fault: "(append_step jobs c)\<^sup>*\<^sup>* cl (go_to cl c (Finished (Inl e)))" for e
    using append_step.fault [of cl c "[]" "[]" jobs e] assms(3) by auto
  show ?thesis
  proof (cases "\<exists>u v. q1 = Inr u \<and> q2 = Inr v")
    case False
    then have "(\<exists>e. r = Inl e) \<and> wallet_events s' = wallet_events s"
      using assms(1) b m ev by (auto simp: EventStore_AppendEvents_def go_simps split: sum.splits)
    then show ?thesis using fault same by auto
  next
    case True
    then obtain v where v: "q1 = Inr ()" "q2 = Inr v" by auto
    have read: "max_version (jb_Wallet ?j) (cl_rows cl) = v" using m v assms(2) ev by (auto elim!: sql_query_cases)
    show ?thesis
    proof (cases "v = jb_Expected ?j")
      case False
      then have "r = Inl (errors_New CodeConflict (conflict_message (jb_Expected ?j) v)) \<and> wallet_events s' = wallet_events s"
        using assms(1) b m v ev by (auto simp: EventStore_AppendEvents_def go_simps)
      then show ?thesis using append_step.conflict [of cl c jobs v] assms(3) read False same by auto
    next
      case True
      let ?cl = "go_to cl c (Inserting [] (jb_Events ?j))"
      have step: "append_step jobs c cl ?cl" using assms(3) read True by (auto intro: append_step.read)
      have ins: "case q3 of
          Inr own' \<Rightarrow> (append_step jobs c)\<^sup>*\<^sup>* ?cl (go_to ?cl c (Inserting own' []))
        | Inl e \<Rightarrow> (append_step jobs c)\<^sup>*\<^sup>* ?cl (go_to ?cl c (Finished (Inl e)))"
        by (rule insertEvents_steps [OF i]) (use assms(2,4) ev in simp_all)
      show ?thesis
      proof (cases q3)
        case (Inl e)
        then have "r = Inl e \<and> wallet_events s' = wallet_events s"
          using assms(1) b m i v True ev by (auto simp: EventStore_AppendEvents_def go_simps)
        then show ?thesis using ins step Inl same by (auto intro: rtranclp_step)
      next
        case (Inr own)
        let ?cl' = "go_to cl c (Inserting own [])"
        have to: "(append_step jobs c)\<^sup>*\<^sup>* cl ?cl'" using ins step Inr by (auto intro: rtranclp_step)
        obtain q4 where x: "sql_exec (\<lambda>s. Inr (s\<lparr>wallet_events := wallet_events s @ own\<rparr>)) s3 = (q4, s')"
          and r: "r = (case q4 of Inl e \<Rightarrow> Inl (DomainError CodeInternal ''commit transaction'' (Some e)) | Inr u \<Rightarrow> Inr u)"
          using assms(1) b m i v True Inr
          by (auto simp: EventStore_AppendEvents_def go_simps split: sum.splits prod.splits)
        from x show ?thesis
        proof (cases rule: sql_exec_cases)
          case ok
          then have "append_step jobs c ?cl' (go_to (cl\<lparr>cl_rows := wallet_events s'\<rparr>) c (Finished r))"
            using append_step.commit [of ?cl' c own jobs] r ev assms(2) by auto
          then show ?thesis using to by (rule rtranclp.rtrancl_into_rtrancl [rotated])
        next
          case (lost e)
          then have "append_step jobs c ?cl' (go_to (cl\<lparr>cl_rows := wallet_events s'\<rparr>) c (Finished r))"
            using append_step.commit_lost [of ?cl' c own jobs] r ev assms(2) by auto
          then show ?thesis using to by (rule rtranclp.rtrancl_into_rtrancl [rotated])
        next
          case (failed e)
          then show ?thesis using fault r ev same by auto
        qed
      qed
    qed
  qed
qed


section \<open>Any number of calls at once\<close>

text \<open>The job is one the service makes: events of its wallet, numbered on from the version it read.\<close>

definition job_ok :: "append_job \<Rightarrow> bool" where
  "job_ok j \<longleftrightarrow> jb_Events j \<noteq> [] \<and> 0 \<le> sint (jb_Expected j)
     \<and> sint (jb_Expected j) + int (length (jb_Events j)) < 2 ^ 63
     \<and> (\<forall>e \<in> set (jb_Events j). ev_WalletID e = jb_Wallet j)
     \<and> map ev_Version (jb_Events j)
         = map of_nat [Suc (nat (sint (jb_Expected j)))..<Suc (nat (sint (jb_Expected j)) + length (jb_Events j))]"

definition no_clash :: "event list \<Rightarrow> event list \<Rightarrow> bool" where
  "no_clash xs ys \<longleftrightarrow> (\<forall>e \<in> set xs. \<forall>f \<in> set ys. \<not> event_clash e f)"

lemma no_clash_simps [simp]:
  "no_clash [] ys" "no_clash xs []" "no_clash (xs @ xs') ys \<longleftrightarrow> no_clash xs ys \<and> no_clash xs' ys"
  "no_clash xs (ys @ ys') \<longleftrightarrow> no_clash xs ys \<and> no_clash xs ys'"
  by (auto simp: no_clash_def)

lemma no_clash_sym: "no_clash xs ys \<Longrightarrow> no_clash ys xs"
  unfolding no_clash_def event_clash_def by metis

lemma table_inv_append: "table_inv (xs @ ys) \<longleftrightarrow> table_inv xs \<and> table_inv ys \<and> no_clash xs ys"
  unfolding table_inv_def no_clash_def event_clash_def by (auto simp: image_iff)

text \<open>
  What holds at every moment: the committed rows satisfy the constraints and no wallet's numbers have
  a gap; an open transaction holds the first of its events, which clash neither with the committed
  rows nor with another's, and the version it read is still within the log; a confirmed one is in the
  rows and clashes with no other that is confirmed.
\<close>

fun caller_ok :: "append_job \<Rightarrow> event list \<Rightarrow> append_pc \<Rightarrow> bool" where
  "caller_ok j rows (Inserting own todo) \<longleftrightarrow> own @ todo = jb_Events j \<and> table_inv (rows @ own)
     \<and> sint (jb_Expected j) \<le> int (length (table_log rows (jb_Wallet j)))"
| "caller_ok j rows (Finished (Inr u)) \<longleftrightarrow> set (jb_Events j) \<subseteq> set rows"
| "caller_ok j rows p \<longleftrightarrow> True"

fun held :: "append_job \<Rightarrow> append_pc \<Rightarrow> event list" where
  "held j (Inserting own todo) = own"
| "held j (Finished (Inr u)) = jb_Events j"
| "held j p = []"

definition rows_ok :: "event list \<Rightarrow> bool" where
  "rows_ok rows \<longleftrightarrow> table_inv rows \<and> (\<forall>w. numbered (table_log rows w))"

definition cluster_inv :: "(nat \<Rightarrow> append_job) \<Rightarrow> cluster \<Rightarrow> bool" where
  "cluster_inv jobs cl \<longleftrightarrow> rows_ok (cl_rows cl)
     \<and> (\<forall>c. caller_ok (jobs c) (cl_rows cl) (cl_pc cl c))
     \<and> (\<forall>c d. c \<noteq> d \<longrightarrow> no_clash (held (jobs c) (cl_pc cl c)) (held (jobs d) (cl_pc cl d)))"

lemma cluster_inv_go_to:
  assumes "cluster_inv jobs cl" and "rows_ok rows" and "caller_ok (jobs c) rows p"
    and "\<And>d. d \<noteq> c \<Longrightarrow> caller_ok (jobs d) rows (cl_pc cl d)"
    and "\<And>d. d \<noteq> c \<Longrightarrow> no_clash (held (jobs c) p) (held (jobs d) (cl_pc cl d))"
  shows "cluster_inv jobs (go_to (cl\<lparr>cl_rows := rows\<rparr>) c p)"
  using assms unfolding cluster_inv_def by (auto dest: no_clash_sym)

lemma cluster_inv_pc:
  assumes "cluster_inv jobs cl" and "caller_ok (jobs c) (cl_rows cl) p"
    and "\<And>d. d \<noteq> c \<Longrightarrow> no_clash (held (jobs c) p) (held (jobs d) (cl_pc cl d))"
  shows "cluster_inv jobs (go_to cl c p)"
proof -
  have "cluster_inv jobs (go_to (cl\<lparr>cl_rows := cl_rows cl\<rparr>) c p)"
    using assms by (intro cluster_inv_go_to) (auto simp: cluster_inv_def)
  then show ?thesis by simp
qed

lemma log_events: "e \<in> set (table_log rows w) \<longleftrightarrow> e \<in> set rows \<and> ev_WalletID e = w"
  by (simp add: table_log_def)

text \<open>Every version up to the length of a gapless log is there.\<close>

lemma numbered_has:
  assumes "numbered (table_log rows w)" "n < length (table_log rows w)"
  shows "\<exists>e \<in> set rows. ev_WalletID e = w \<and> ev_Version e = of_nat (Suc n)"
proof -
  let ?e = "table_log rows w ! n"
  have "map ev_Version (table_log rows w) ! n = of_nat (Suc n)"
    using assms by (simp add: numbered_def del: upt_Suc)
  moreover have "?e \<in> set (table_log rows w)" using assms(2) by simp
  ultimately show ?thesis using assms(2) by (intro bexI [of _ ?e]) (simp_all add: log_events)
qed

lemma job_first:
  assumes "job_ok j"
  obtains e es where "jb_Events j = e # es" "ev_WalletID e = jb_Wallet j"
    "ev_Version e = of_nat (Suc (nat (sint (jb_Expected j))))"
proof -
  obtain e es where e: "jb_Events j = e # es" using assms by (cases "jb_Events j") (auto simp: job_ok_def)
  have "map ev_Version (jb_Events j) ! 0 = of_nat (Suc (nat (sint (jb_Expected j))))"
    using assms e by (simp add: job_ok_def del: upt_Suc)
  then show thesis using that [OF e] assms e by (simp add: job_ok_def)
qed

text \<open>A transaction that has all its events inserted still has the version it read.\<close>

lemma open_at_end:
  assumes "job_ok j" "numbered (table_log rows (jb_Wallet j))" "table_inv (rows @ jb_Events j)"
    and "sint (jb_Expected j) \<le> int (length (table_log rows (jb_Wallet j)))"
  shows "nat (sint (jb_Expected j)) = length (table_log rows (jb_Wallet j))"
proof (rule ccontr)
  assume "nat (sint (jb_Expected j)) \<noteq> length (table_log rows (jb_Wallet j))"
  then have "nat (sint (jb_Expected j)) < length (table_log rows (jb_Wallet j))"
    using assms(1,4) by (simp add: job_ok_def)
  from numbered_has [OF assms(2) this] obtain f where f: "f \<in> set rows" "ev_WalletID f = jb_Wallet j"
    "ev_Version f = of_nat (Suc (nat (sint (jb_Expected j))))" by blast
  obtain e es where "jb_Events j = e # es" "ev_WalletID e = jb_Wallet j"
    "ev_Version e = of_nat (Suc (nat (sint (jb_Expected j))))" using assms(1) by (rule job_first)
  then show False using f assms(3) by (auto simp: table_inv_append no_clash_def event_clash_def)
qed

lemma job_next_events:
  assumes "job_ok j"
  shows "next_events (jb_Wallet j) (jb_Expected j) (jb_Events j)"
proof -
  let ?v = "sint (jb_Expected j)"
  have sint: "map (\<lambda>e. sint (ev_Version e)) (jb_Events j) = map int [Suc (nat ?v)..<Suc (nat ?v + length (jb_Events j))]"
  proof -
    have "map (\<lambda>e. sint (ev_Version e)) (jb_Events j) = map sint (map ev_Version (jb_Events j))" by simp
    also have "\<dots> = map (\<lambda>n. sint (of_nat n :: i64)) [Suc (nat ?v)..<Suc (nat ?v + length (jb_Events j))]"
      using assms by (simp add: job_ok_def comp_def del: upt_Suc)
    also have "\<dots> = map int [Suc (nat ?v)..<Suc (nat ?v + length (jb_Events j))]"
      by (rule map_cong [OF refl], rule sint_of_nat_i64) (use assms in \<open>auto simp: job_ok_def\<close>)
    finally show ?thesis .
  qed
  have "?v < sint (ev_Version e)" if "e \<in> set (jb_Events j)" for e
  proof -
    have "sint (ev_Version e) \<in> set (map (\<lambda>e. sint (ev_Version e)) (jb_Events j))" using that by simp
    then show ?thesis unfolding sint using assms by (auto simp: job_ok_def)
  qed
  moreover have "sorted_wrt (<) (map int [Suc (nat ?v)..<Suc (nat ?v + length (jb_Events j))])"
    by (simp add: sorted_wrt_map del: upt_Suc)
  ultimately show ?thesis using assms sint by (simp add: next_events_def job_ok_def)
qed

text \<open>Committing such a transaction appends to its wallet's log and leaves no gap.\<close>

lemma commit_numbered:
  assumes job: "job_ok j" and num: "\<forall>w. numbered (table_log rows w)" and inv: "table_inv (rows @ jb_Events j)"
    and le: "sint (jb_Expected j) \<le> int (length (table_log rows (jb_Wallet j)))"
  shows "table_log (rows @ jb_Events j) = (table_log rows)(jb_Wallet j := table_log rows (jb_Wallet j) @ jb_Events j)"
    and "numbered (table_log (rows @ jb_Events j) w)"
proof -
  let ?l = "table_log rows (jb_Wallet j)"
  have len: "nat (sint (jb_Expected j)) = length ?l" using open_at_end [OF job _ inv le] num by blast
  have v: "log_version ?l = jb_Expected j"
  proof -
    have "log_version ?l = of_nat (nat (sint (jb_Expected j)))" using log_version_numbered num len by metis
    also have "\<dots> = jb_Expected j" using job unfolding job_ok_def by (metis of_int_of_nat_eq nat_0_le i64_sint_inverse)
    finally show ?thesis .
  qed
  have "sint (ev_Version e) \<le> sint (jb_Expected j)" if "e \<in> set ?l" for e
    using log_version_max [OF that] v by simp
  then show log: "table_log (rows @ jb_Events j) = (table_log rows)(jb_Wallet j := ?l @ jb_Events j)"
    by (rule table_log_append [OF job_next_events [OF job] v])
  have "[1..<Suc (length ?l + length (jb_Events j))]
      = [1..<Suc (length ?l)] @ [Suc (length ?l)..<Suc (length ?l + length (jb_Events j))]"
    using upt_add_eq_append [of 1 "Suc (length ?l)" "length (jb_Events j)"] by (simp del: upt_Suc)
  moreover have "map ev_Version ?l = map of_nat [1..<Suc (length ?l)]" using num by (simp add: numbered_def del: upt_Suc)
  moreover have "map ev_Version (jb_Events j)
      = map of_nat [Suc (length ?l)..<Suc (length ?l + length (jb_Events j))]"
    using job unfolding job_ok_def len by blast
  moreover have "int (length ?l) + int (length (jb_Events j)) < 2 ^ 63"
    using job len unfolding job_ok_def by linarith
  ultimately have "numbered (?l @ jb_Events j)" by (simp add: numbered_def del: upt_Suc)
  then show "numbered (table_log (rows @ jb_Events j) w)" using num log by simp
qed


text \<open>Every step keeps it. A commit moves the caller's events into the rows and leaves the others theirs.\<close>

lemma cluster_inv_commit:
  assumes inv: "cluster_inv jobs cl" and job: "job_ok (jobs c)" and pc: "cl_pc cl c = Inserting own []"
    and p: "p = Finished (Inr ()) \<or> p = Finished (Inl e)"
  shows "cluster_inv jobs (go_to (cl\<lparr>cl_rows := cl_rows cl @ own\<rparr>) c p)"
proof -
  let ?rows = "cl_rows cl"
  have ok: "table_inv ?rows" "\<forall>w. numbered (table_log ?rows w)" using inv by (auto simp: cluster_inv_def rows_ok_def)
  have callers: "caller_ok (jobs d) ?rows (cl_pc cl d)" for d using inv by (simp add: cluster_inv_def)
  have own: "own = jb_Events (jobs c)" and ins: "table_inv (?rows @ jb_Events (jobs c))"
    and le: "sint (jb_Expected (jobs c)) \<le> int (length (table_log ?rows (jb_Wallet (jobs c))))"
    using callers [of c] pc by auto
  note commit = commit_numbered [OF job ok(2) ins le]
  have apart: "d \<noteq> c \<Longrightarrow> no_clash own (held (jobs d) (cl_pc cl d))" for d
    using inv pc unfolding cluster_inv_def by (metis held.simps(1))
  have longer: "length (table_log ?rows w) \<le> length (table_log (?rows @ own) w)" for w
    unfolding own commit(1) by simp
  show ?thesis
  proof (rule cluster_inv_go_to [OF inv])
    show "rows_ok (?rows @ own)" using ins commit(2) by (simp add: rows_ok_def own)
    show "caller_ok (jobs c) (?rows @ own) p" using p own by auto
    show "no_clash (held (jobs c) p) (held (jobs d) (cl_pc cl d))" if "d \<noteq> c" for d
      using p apart [OF that] own by auto
    show "caller_ok (jobs d) (?rows @ own) (cl_pc cl d)" if "d \<noteq> c" for d
    proof (cases "cl_pc cl d")
      case (Inserting own' todo)
      then have "no_clash own own'" "table_inv (?rows @ own')" "own' @ todo = jb_Events (jobs d)"
        "sint (jb_Expected (jobs d)) \<le> int (length (table_log ?rows (jb_Wallet (jobs d))))"
        using apart [OF that] callers [of d] by auto
      moreover have "table_inv (?rows @ own)" using ins own by simp
      ultimately show ?thesis using longer [of "jb_Wallet (jobs d)"] Inserting by (auto simp: table_inv_append)
    next
      case (Finished r)
      then show ?thesis using callers [of d] by (cases r) auto
    qed simp
  qed
qed

lemma cluster_inv_insert:
  assumes inv: "cluster_inv jobs cl" and pc: "cl_pc cl c = Inserting own (e # todo)"
    and "\<not> waits cl c e" and row: "insert_event e (cl_rows cl @ own) = Inr rows"
  shows "cluster_inv jobs (go_to cl c (Inserting (own @ [e]) todo))"
proof (rule cluster_inv_pc [OF inv])
  have callers: "caller_ok (jobs d) (cl_rows cl) (cl_pc cl d)" for d using inv by (simp add: cluster_inv_def)
  have free: "no_clash (cl_rows cl @ own) [e]"
    using insert_event_ok [OF row] callers [of c] pc by (simp add: table_inv_append flip: append_assoc)
  show "caller_ok (jobs c) (cl_rows cl) (Inserting (own @ [e]) todo)"
    using insert_event_ok [OF row] callers [of c] pc by simp
  show "no_clash (held (jobs c) (Inserting (own @ [e]) todo)) (held (jobs d) (cl_pc cl d))" if "d \<noteq> c" for d
  proof -
    have "no_clash own (held (jobs d) (cl_pc cl d))"
      using inv pc that unfolding cluster_inv_def by (metis held.simps(1))
    moreover have "no_clash [e] (held (jobs d) (cl_pc cl d))"
    proof (cases "cl_pc cl d")
      case (Inserting own' todo')
      then show ?thesis using assms(3) that
        by (auto simp: waits_def no_clash_def event_clash_def) (metis pc_own.simps(1))+
    next
      case (Finished r)
      then show ?thesis using callers [of d] free
        by (cases r) (auto simp: no_clash_def event_clash_def)
    qed simp
    ultimately show ?thesis by simp
  qed
qed

lemma append_step_inv:
  assumes "append_step jobs c cl cl'" and inv: "cluster_inv jobs cl" and job: "job_ok (jobs c)"
  shows "cluster_inv jobs cl'"
  using assms(1)
proof cases
  case read
  have "numbered (table_log (cl_rows cl) (jb_Wallet (jobs c)))" "table_inv (cl_rows cl)"
    using inv by (simp_all add: cluster_inv_def rows_ok_def)
  then have "sint (jb_Expected (jobs c)) = int (length (table_log (cl_rows cl) (jb_Wallet (jobs c))))"
    unfolding read(3) [symmetric] max_version_log
    using log_version_numbered sint_of_nat_i64 unfolding numbered_def by (metis log_version_numbered numbered_def)
  then show ?thesis unfolding read(1)
    using \<open>table_inv (cl_rows cl)\<close> by (intro cluster_inv_pc [OF inv]) simp_all
next
  case (insert own e todo rows)
  then show ?thesis using cluster_inv_insert [OF inv] by blast
next
  case (commit own)
  then show ?thesis using cluster_inv_commit [OF inv job] by blast
next
  case (commit_lost own e)
  then show ?thesis using cluster_inv_commit [OF inv job] by blast
qed (auto intro: cluster_inv_pc [OF inv])

definition start :: "event list \<Rightarrow> cluster" where
  "start rows = \<lparr>cl_rows = rows, cl_pc = \<lambda>_. Reading\<rparr>"

lemma cluster_steps_inv:
  assumes "(cluster_step jobs)\<^sup>*\<^sup>* (start rows) cl" and "rows_ok rows" and "\<And>c. job_ok (jobs c)"
  shows "cluster_inv jobs cl"
  using assms(1)
proof (induction rule: rtranclp_induct)
  case base
  then show ?case using assms(2) by (simp add: start_def cluster_inv_def)
next
  case (step cl1 cl2)
  then show ?case using append_step_inv assms(3) by (blast elim: cluster_step.cases)
qed

text \<open>No lost update, whatever the interleaving: with any number of calls of \<open>AppendEvents\<close> taking
  their statements in any order, and any of them failing or losing its answer at any point, every
  wallet's log stays gapless and free of duplicates, the events of a call that was told it succeeded
  are in the table, and of two calls that read the same version of a wallet at most one is told so.\<close>

theorem concurrent_appends_serialize:
  assumes "(cluster_step jobs)\<^sup>*\<^sup>* (start rows) cl" and "rows_ok rows" and "\<And>c. job_ok (jobs c)"
  shows "rows_ok (cl_rows cl)
    \<and> (\<forall>c. cl_pc cl c = Finished (Inr ()) \<longrightarrow> set (jb_Events (jobs c)) \<subseteq> set (cl_rows cl))
    \<and> (\<forall>c d. c \<noteq> d \<and> cl_pc cl c = Finished (Inr ()) \<and> cl_pc cl d = Finished (Inr ())
          \<and> jb_Wallet (jobs c) = jb_Wallet (jobs d) \<longrightarrow> jb_Expected (jobs c) \<noteq> jb_Expected (jobs d))"
proof (intro conjI allI impI)
  have inv: "cluster_inv jobs cl" by (rule cluster_steps_inv [OF assms])
  then show "rows_ok (cl_rows cl)" by (simp add: cluster_inv_def)
  show "set (jb_Events (jobs c)) \<subseteq> set (cl_rows cl)" if "cl_pc cl c = Finished (Inr ())" for c
  proof -
    have "caller_ok (jobs c) (cl_rows cl) (cl_pc cl c)" using inv by (simp add: cluster_inv_def)
    then show ?thesis using that by simp
  qed
  show "jb_Expected (jobs c) \<noteq> jb_Expected (jobs d)"
    if d: "c \<noteq> d \<and> cl_pc cl c = Finished (Inr ()) \<and> cl_pc cl d = Finished (Inr ())
      \<and> jb_Wallet (jobs c) = jb_Wallet (jobs d)" for c d
  proof
    assume same: "jb_Expected (jobs c) = jb_Expected (jobs d)"
    have "no_clash (held (jobs c) (cl_pc cl c)) (held (jobs d) (cl_pc cl d))"
      using inv d unfolding cluster_inv_def by blast
    moreover obtain e es f fs where "jb_Events (jobs c) = e # es" "jb_Events (jobs d) = f # fs"
      "event_clash e f"
      using job_first [OF assms(3) [of c]] job_first [OF assms(3) [of d]] same d
      unfolding event_clash_def by metis
    ultimately show False using d by (simp add: no_clash_def)
  qed
qed

text \<open>What the service hands over after a command is such a job: the one event the command emitted.\<close>

lemma command_job_ok:
  assumes "Wallet_cmd cmd w s = (Inr w', s')" and "0 \<le> sint (w_Version w)" "sint (w_Version w) + 1 < 2 ^ 63"
    and "w_changes w = []"
  shows "job_ok \<lparr>jb_Wallet = w_ID w, jb_Events = Wallet_Changes w', jb_Expected = w_Version w\<rparr>"
proof -
  obtain e where e: "one_event (rt_lib s) w w' e" using Wallet_cmd_one_event [OF assms(1)] by blast
  then have ev: "ev_WalletID e = w_ID w" "ev_Version e = w_Version w + 1" and w': "w' = Wallet_apply (rt_lib s) w e"
    unfolding one_event_def by blast+
  have changes: "Wallet_Changes w' = [e]"
    unfolding w' using assms(4) by (simp add: Wallet_Changes_def Wallet_apply_def Wallet_applyEvent_def Let_def)
  have "of_nat (Suc (nat (sint (w_Version w)))) = w_Version w + 1"
    using assms(2) unfolding of_nat_Suc by (metis of_int_of_nat_eq nat_0_le i64_sint_inverse add.commute)
  then show ?thesis using ev changes assms(2,3) by (simp add: job_ok_def del: of_nat_Suc)
qed

section \<open>A run\<close>

text \<open>
  Call 0 creates wallet 7. Calls 1 and 2 have both read version 1 when call 1 inserts its event and
  commits; the insert of call 2 is then refused.
\<close>

definition sample_job :: "nat \<Rightarrow> append_job" where
  "sample_job c = \<lparr>jb_Wallet = 7,
     jb_Events = [\<lparr>ev_ID = of_nat c, ev_WalletID = 7, ev_Type = EventFundsDeposited, ev_Payload = JNull,
       ev_Version = (if c = 0 then 1 else 2), ev_OccuredAt = 0\<rparr>],
     jb_Expected = (if c = 0 then 0 else 1)\<rparr>"

definition sample_rows :: "event list" where
  "sample_rows = jb_Events (sample_job 0) @ jb_Events (sample_job 1)"

definition sample_cluster :: cluster where
  "sample_cluster = \<lparr>cl_rows = sample_rows, cl_pc = (\<lambda>_. Reading)(0 := Finished (Inr ()), 1 := Finished (Inr ()),
     2 := Finished (Inl (DomainError CodeInternal ''append event''
       (Some (duplicate_key ''wallet_events_wallet_id_version_key'')))))\<rparr>"

lemma sample_job_ok: "job_ok (sample_job c)"
  by (simp add: job_ok_def sample_job_def)

lemma step_to: "(cluster_step jobs)\<^sup>*\<^sup>* cl cl1 \<Longrightarrow> append_step jobs c cl1 cl2 \<Longrightarrow> (cluster_step jobs)\<^sup>*\<^sup>* cl cl2"
  by (rule rtranclp.rtrancl_into_rtrancl) (auto intro: cluster_step.intros)

lemmas sample_step_simps = start_def go_to_def sample_job_def max_version_def waits_def insert_event_def

lemma sample_run: "(cluster_step sample_job)\<^sup>*\<^sup>* (start []) sample_cluster"
proof -
  let ?e = "\<lambda>c. hd (jb_Events (sample_job c))"
  let ?c0 = "start []"
  let ?c1 = "go_to ?c0 0 (Inserting [] (jb_Events (sample_job 0)))"
  let ?c2 = "go_to ?c1 0 (Inserting ([] @ [?e 0]) [])"
  let ?c3 = "go_to (?c2\<lparr>cl_rows := cl_rows ?c2 @ [?e 0]\<rparr>) 0 (Finished (Inr ()))"
  let ?c4 = "go_to ?c3 1 (Inserting [] (jb_Events (sample_job 1)))"
  let ?c5 = "go_to ?c4 2 (Inserting [] (jb_Events (sample_job 2)))"
  let ?c6 = "go_to ?c5 1 (Inserting ([] @ [?e 1]) [])"
  let ?c7 = "go_to (?c6\<lparr>cl_rows := cl_rows ?c6 @ [?e 1]\<rparr>) 1 (Finished (Inr ()))"
  let ?c8 = "go_to ?c7 2 (Finished (Inl (DomainError CodeInternal ''append event''
    (Some (duplicate_key ''wallet_events_wallet_id_version_key'')))))"
  have "(cluster_step sample_job)\<^sup>*\<^sup>* ?c0 ?c0" by simp
  then have "(cluster_step sample_job)\<^sup>*\<^sup>* ?c0 ?c1"
    by (rule step_to [OF _ append_step.read]) (simp_all add: sample_step_simps)
  then have "(cluster_step sample_job)\<^sup>*\<^sup>* ?c0 ?c2"
    by (rule step_to [OF _ append_step.insert [where rows = "[?e 0]"]]) (simp_all add: sample_step_simps)
  then have "(cluster_step sample_job)\<^sup>*\<^sup>* ?c0 ?c3"
    by (rule step_to [OF _ append_step.commit]) (simp_all add: sample_step_simps)
  then have "(cluster_step sample_job)\<^sup>*\<^sup>* ?c0 ?c4"
    by (rule step_to [OF _ append_step.read]) (simp_all add: sample_step_simps)
  then have "(cluster_step sample_job)\<^sup>*\<^sup>* ?c0 ?c5"
    by (rule step_to [OF _ append_step.read]) (simp_all add: sample_step_simps)
  then have "(cluster_step sample_job)\<^sup>*\<^sup>* ?c0 ?c6"
    by (rule step_to [OF _ append_step.insert [where rows = "[?e 0, ?e 1]"]]) (auto simp: sample_step_simps)
  then have "(cluster_step sample_job)\<^sup>*\<^sup>* ?c0 ?c7"
    by (rule step_to [OF _ append_step.commit]) (simp_all add: sample_step_simps)
  then have "(cluster_step sample_job)\<^sup>*\<^sup>* ?c0 ?c8"
    by (rule step_to [OF _ append_step.duplicate [where own = "[]" and todo = "[]" and e = "?e 2"]])
      (auto simp: sample_step_simps)
  moreover have "?c8 = sample_cluster"
    by (simp add: sample_cluster_def sample_rows_def sample_step_simps)
  ultimately show ?thesis by simp
qed

lemma sample_rows_ok: "rows_ok []"
  by (simp add: rows_ok_def table_inv_def table_log_def numbered_def)

lemma concurrent_appends_serialize_witness:
  "(cluster_step sample_job)\<^sup>*\<^sup>* (start []) sample_cluster \<and> rows_ok (cl_rows sample_cluster)
   \<and> set (jb_Events (sample_job 1)) \<subseteq> set (cl_rows sample_cluster)
   \<and> jb_Expected (sample_job 0) \<noteq> jb_Expected (sample_job 1)"
proof -
  have "cl_pc sample_cluster 0 = Finished (Inr ())" "cl_pc sample_cluster 1 = Finished (Inr ())"
    "jb_Wallet (sample_job 0) = jb_Wallet (sample_job 1)" "(0 :: nat) \<noteq> 1"
    by (simp_all add: sample_cluster_def sample_job_def)
  then show ?thesis
    using sample_run concurrent_appends_serialize [OF sample_run sample_rows_ok sample_job_ok] by blast
qed

lemma append_runs_in_steps_witness:
  "(append_step sample_job 0)\<^sup>*\<^sup>* (start [])
     (go_to ((start [])\<lparr>cl_rows := jb_Events (sample_job 0)\<rparr>) 0 (Finished (Inr ())))"
proof -
  let ?run = "EventStore_AppendEvents (jb_Wallet (sample_job 0)) (jb_Events (sample_job 0)) (jb_Expected (sample_job 0))
    sample_wallet_db"
  obtain r s' where run: "?run = (r, s')" by fastforce
  have "fst ?run = Inr ()" "wallet_events (snd ?run) = jb_Events (sample_job 0)" by code_simp+
  then have "r = Inr ()" "wallet_events s' = jb_Events (sample_job 0)" using run by simp_all
  then show ?thesis
    using append_runs_in_steps [where jobs = sample_job and c = 0 and s = sample_wallet_db and cl = "start []", OF run]
    by (simp add: start_def quiet_def)
qed

end
