(* ===== verification/WalletFleet.thy ===== *)
theory WalletFleet
  imports WalletConcurrency
begin

text \<open>
  Whole calls of the wallet service (\<open>wallet_service.go\<close>), any number at once, from any number of
  instances: a call reads the snapshot, later the events after it, runs its command, appends in the
  steps of \<open>WalletConcurrency\<close> and may save a snapshot. Each of these is a step of its own, and the
  calls take their steps in any order. A call that runs alone is shown to be the service's function.
\<close>

section \<open>Calls in progress\<close>

datatype wallet_call = CallUpdate uuid wallet_cmd | CallCreate uuid string | CallBalance uuid

fun call_wallet :: "wallet_call \<Rightarrow> uuid option" where
  "call_wallet (CallUpdate wid cmd) = Some wid"
| "call_wallet (CallBalance wid) = Some wid"
| "call_wallet (CallCreate u currency) = None"

text \<open>
  Not started; the local variables of \<open>load\<close> between its two reads (\<open>wallet\<close> and
  \<open>snapshotVersion\<close>); inside \<open>AppendEvents\<close> or back from it, with the wallet after the command; returned.
\<close>

datatype call_pc =
    Called
  | Loading wallet i64
  | Appending wallet
  | Returned "goerr + wallet"

text \<open>
  The two tables, the arguments each caller gave to \<open>AppendEvents\<close>, and where each caller is. \<open>ft_done\<close>
  is not in the code: it lists the calls that took effect, with their answers, in that order.
\<close>

record fleet =
  ft_cl :: cluster
  ft_snapshots :: "uuid \<Rightarrow> snapshot_row option"
  ft_jobs :: "nat \<Rightarrow> append_job"
  ft_pc :: "nat \<Rightarrow> call_pc"
  ft_done :: "(nat \<times> wallet) list"

definition move :: "fleet \<Rightarrow> nat \<Rightarrow> call_pc \<Rightarrow> fleet" where
  "move ft c p = ft\<lparr>ft_pc := (ft_pc ft)(c := p)\<rparr>"

definition effect :: "fleet \<Rightarrow> nat \<Rightarrow> wallet \<Rightarrow> fleet" where
  "effect ft c w = ft\<lparr>ft_done := ft_done ft @ [(c, w)]\<rparr>"

definition hand_over :: "fleet \<Rightarrow> nat \<Rightarrow> append_job \<Rightarrow> fleet" where
  "hand_over ft c j = ft\<lparr>ft_jobs := (ft_jobs ft)(c := j)\<rparr>"

definition save_row :: "fleet \<Rightarrow> time \<Rightarrow> wallet \<Rightarrow> fleet" where
  "save_row ft now w = ft\<lparr>ft_snapshots := (ft_snapshots ft)
     (w_ID w \<mapsto> upsert_snapshot now w (ft_snapshots ft (w_ID w)))\<rparr>"

text \<open>What \<open>LoadEvents\<close> reads now.\<close>

definition events_after :: "fleet \<Rightarrow> uuid \<Rightarrow> i64 \<Rightarrow> event list" where
  "events_after ft wid after = sort_key (\<lambda>e. sint (ev_Version e))
     (filter (\<lambda>e. ev_WalletID e = wid \<and> sint after < sint (ev_Version e)) (cl_rows (ft_cl ft)))"

definition snapshot_due :: "wallet \<Rightarrow> bool" where
  "snapshot_due w \<longleftrightarrow> sint (w_Version w) mod SnapshotInterval = 0"

inductive call_step :: "lib \<Rightarrow> (nat \<Rightarrow> wallet_call) \<Rightarrow> nat \<Rightarrow> fleet \<Rightarrow> fleet \<Rightarrow> bool" for L calls c where
  create_refused: "ft_pc ft c = Called \<Longrightarrow> calls c = CallCreate u currency \<Longrightarrow>
    NewWallet u currency (t :: wallet_db) = (Inl e, t') \<Longrightarrow> rt_lib t = L \<Longrightarrow>
    call_step L calls c ft (move ft c (Returned (Inl e)))"
| create: "ft_pc ft c = Called \<Longrightarrow> calls c = CallCreate u currency \<Longrightarrow>
    NewWallet u currency (t :: wallet_db) = (Inr w, t') \<Longrightarrow> rt_lib t = L \<Longrightarrow>
    call_step L calls c ft (move (hand_over ft c
      \<lparr>jb_Wallet = w_ID w, jb_Events = Wallet_Changes w, jb_Expected = 0\<rparr>) c (Appending w))"
| snapshot: "ft_pc ft c = Called \<Longrightarrow> call_wallet (calls c) = Some wid \<Longrightarrow>
    ft_snapshots ft wid = Some row \<Longrightarrow> w = wallet_of_row wid row \<Longrightarrow>
    call_step L calls c ft (move ft c (Loading w (w_Version w)))"
| no_snapshot: "ft_pc ft c = Called \<Longrightarrow> call_wallet (calls c) = Some wid \<Longrightarrow>
    call_step L calls c ft (move ft c (Loading zero_Wallet 0))"
| load_failed: "ft_pc ft c = Loading w0 v0 \<Longrightarrow>
    call_step L calls c ft (move ft c (Returned (Inl e)))"
| missing: "ft_pc ft c = Loading w0 v0 \<Longrightarrow> call_wallet (calls c) = Some wid \<Longrightarrow>
    events_after ft wid v0 = [] \<Longrightarrow> v0 = 0 \<Longrightarrow>
    call_step L calls c ft (move ft c (Returned (Inl (errors_New CodeNotFound ''wallet not found''))))"
| balance: "ft_pc ft c = Loading w0 v0 \<Longrightarrow> calls c = CallBalance wid \<Longrightarrow>
    \<not> (events_after ft wid v0 = [] \<and> v0 = 0) \<Longrightarrow> w = Wallet_Reconstitute L w0 (events_after ft wid v0) \<Longrightarrow>
    call_step L calls c ft (effect (move ft c (Returned (Inr w))) c w)"
| refused: "ft_pc ft c = Loading w0 v0 \<Longrightarrow> calls c = CallUpdate wid cmd \<Longrightarrow>
    \<not> (events_after ft wid v0 = [] \<and> v0 = 0) \<Longrightarrow> w = Wallet_Reconstitute L w0 (events_after ft wid v0) \<Longrightarrow>
    Wallet_cmd cmd w (t :: wallet_db) = (Inl e, t') \<Longrightarrow> rt_lib t = L \<Longrightarrow>
    call_step L calls c ft (move ft c (Returned (Inl e)))"
| command: "ft_pc ft c = Loading w0 v0 \<Longrightarrow> calls c = CallUpdate wid cmd \<Longrightarrow>
    \<not> (events_after ft wid v0 = [] \<and> v0 = 0) \<Longrightarrow> w = Wallet_Reconstitute L w0 (events_after ft wid v0) \<Longrightarrow>
    Wallet_cmd cmd w (t :: wallet_db) = (Inr w', t') \<Longrightarrow> rt_lib t = L \<Longrightarrow>
    call_step L calls c ft (move (hand_over ft c
      \<lparr>jb_Wallet = wid, jb_Events = Wallet_Changes w', jb_Expected = w_Version w\<rparr>) c (Appending w'))"
| append: "ft_pc ft c = Appending w \<Longrightarrow> append_step (ft_jobs ft) c (ft_cl ft) cl' \<Longrightarrow>
    cl_rows cl' = cl_rows (ft_cl ft) \<Longrightarrow>
    call_step L calls c ft (ft\<lparr>ft_cl := cl'\<rparr>)"
| append_commit: "ft_pc ft c = Appending w \<Longrightarrow> append_step (ft_jobs ft) c (ft_cl ft) cl' \<Longrightarrow>
    cl_rows cl' \<noteq> cl_rows (ft_cl ft) \<Longrightarrow>
    call_step L calls c ft (effect (ft\<lparr>ft_cl := cl'\<rparr>) c w)"
| append_failed: "ft_pc ft c = Appending w \<Longrightarrow> cl_pc (ft_cl ft) c = Finished (Inl e) \<Longrightarrow>
    call_step L calls c ft (move ft c (Returned (Inl e)))"
| answer: "ft_pc ft c = Appending w \<Longrightarrow> cl_pc (ft_cl ft) c = Finished (Inr ()) \<Longrightarrow>
    call_wallet (calls c) = None \<or> \<not> snapshot_due w \<Longrightarrow>
    call_step L calls c ft (move ft c (Returned (Inr w)))"
| save: "ft_pc ft c = Appending w \<Longrightarrow> cl_pc (ft_cl ft) c = Finished (Inr ()) \<Longrightarrow>
    call_wallet (calls c) \<noteq> None \<Longrightarrow> snapshot_due w \<Longrightarrow>
    call_step L calls c ft (move (save_row ft now w) c (Returned (Inr w)))"
| save_lost: "ft_pc ft c = Appending w \<Longrightarrow> cl_pc (ft_cl ft) c = Finished (Inr ()) \<Longrightarrow>
    call_wallet (calls c) \<noteq> None \<Longrightarrow> snapshot_due w \<Longrightarrow>
    call_step L calls c ft (move (save_row ft now w) c (Returned (Inl e)))"
| save_failed: "ft_pc ft c = Appending w \<Longrightarrow> cl_pc (ft_cl ft) c = Finished (Inr ()) \<Longrightarrow>
    call_wallet (calls c) \<noteq> None \<Longrightarrow> snapshot_due w \<Longrightarrow>
    call_step L calls c ft (move ft c (Returned (Inl e)))"

text \<open>The calls are numbered below \<open>n\<close>.\<close>

inductive fleet_step :: "lib \<Rightarrow> (nat \<Rightarrow> wallet_call) \<Rightarrow> nat \<Rightarrow> fleet \<Rightarrow> fleet \<Rightarrow> bool" for L calls n where
  "c < n \<Longrightarrow> call_step L calls c ft ft' \<Longrightarrow> fleet_step L calls n ft ft'"

definition fleet_start :: "event list \<Rightarrow> (uuid \<Rightarrow> snapshot_row option) \<Rightarrow> fleet" where
  "fleet_start rows snapshots =
     \<lparr>ft_cl = start rows, ft_snapshots = snapshots, ft_jobs = (\<lambda>_. \<lparr>jb_Wallet = 0, jb_Events = [], jb_Expected = 0\<rparr>),
      ft_pc = (\<lambda>_. Called), ft_done = []\<rparr>"

lemmas fleet_defs = move_def effect_def hand_over_def save_row_def

lemma fleet_simps [simp]:
  "ft_cl (move ft c p) = ft_cl ft" "ft_snapshots (move ft c p) = ft_snapshots ft" "ft_jobs (move ft c p) = ft_jobs ft"
  "ft_pc (move ft c p) d = (if d = c then p else ft_pc ft d)" "ft_done (move ft c p) = ft_done ft"
  "ft_cl (effect ft c w) = ft_cl ft" "ft_snapshots (effect ft c w) = ft_snapshots ft" "ft_jobs (effect ft c w) = ft_jobs ft"
  "ft_pc (effect ft c w) = ft_pc ft" "ft_done (effect ft c w) = ft_done ft @ [(c, w)]"
  "ft_cl (hand_over ft c j) = ft_cl ft" "ft_snapshots (hand_over ft c j) = ft_snapshots ft"
  "ft_jobs (hand_over ft c j) d = (if d = c then j else ft_jobs ft d)" "ft_pc (hand_over ft c j) = ft_pc ft"
  "ft_done (hand_over ft c j) = ft_done ft"
  "ft_cl (save_row ft now w) = ft_cl ft" "ft_jobs (save_row ft now w) = ft_jobs ft" "ft_pc (save_row ft now w) = ft_pc ft"
  "ft_done (save_row ft now w) = ft_done ft"
  by (simp_all add: fleet_defs)

section \<open>A call that runs alone is the service's function\<close>

text \<open>The call as the functions of \<open>WalletService\<close> have it, with the wallet it ends with as its answer.\<close>

fun svc_call ::
  "'a rt_scheme EventStore \<Rightarrow> 'a rt_scheme SnapshotStore \<Rightarrow> wallet_call \<Rightarrow> ('a rt_scheme, wallet) go"
where
  "svc_call es ss (CallUpdate wid cmd) = svc_update es ss wid cmd"
| "svc_call es ss (CallBalance wid) = WalletService_load es ss wid"
| "svc_call es ss (CallCreate u currency) =
     go_bind (NewWallet u currency) (\<lambda>w.
     go_bind (AppendEvents es (w_ID w) (Wallet_Changes w) 0) (\<lambda>_. go_return w))"

lemma WalletService_GetBalance_call:
  "WalletService_GetBalance es ss wid = go_map (\<lambda>w. \<lparr>br_WalletID = w_ID w, br_BalanceCents = w_BalanceCents w,
     br_Currency = w_Currency w, br_Version = w_Version w\<rparr>) (svc_call es ss (CallBalance wid))"
  by (rule ext) (simp add: WalletService_GetBalance_def go_simps go_map_def split: sum.splits prod.splits)

lemma WalletService_CreateWallet_call:
  "WalletService_CreateWallet es ss u currency = go_bind (svc_call es ss (CallCreate u currency)) (\<lambda>w.
     go_bind time_Now (\<lambda>now. go_return \<lparr>cr_WalletID = w_ID w, cr_CreatedAt = now\<rparr>))"
  by (rule ext) (simp add: WalletService_CreateWallet_def go_simps split: sum.splits prod.splits)

text \<open>The tables are those of the database.\<close>

definition same_tables :: "fleet \<Rightarrow> wallet_db \<Rightarrow> bool" where
  "same_tables ft s \<longleftrightarrow> cl_rows (ft_cl ft) = wallet_events s \<and> ft_snapshots ft = wallet_snapshots s"

lemma same_tables_simps [simp]:
  "same_tables (move ft c p) s = same_tables ft s" "same_tables (hand_over ft c j) s = same_tables ft s"
  "same_tables (effect ft c w) s = same_tables ft s" "same_tables ft (s\<lparr>rt_tick := k\<rparr>) = same_tables ft s"
  by (simp_all add: same_tables_def)

lemma same_tables_tick: "only_tick s s' \<Longrightarrow> same_tables ft s' = same_tables ft s"
  by (auto elim!: only_tickE)

lemma append_steps_lift:
  assumes "(append_step (ft_jobs ft) c)\<^sup>*\<^sup>* (ft_cl ft) cl'" and "ft_pc ft c = Appending w"
  shows "\<exists>dn. (call_step L calls c)\<^sup>*\<^sup>* ft (ft\<lparr>ft_cl := cl', ft_done := dn\<rparr>)"
  using assms(1)
proof (induction rule: rtranclp_induct)
  case base
  have "ft\<lparr>ft_cl := ft_cl ft, ft_done := ft_done ft\<rparr> = ft" by simp
  then show ?case by (metis rtranclp.rtrancl_refl)
next
  case (step cl1 cl2)
  then obtain dn where run: "(call_step L calls c)\<^sup>*\<^sup>* ft (ft\<lparr>ft_cl := cl1, ft_done := dn\<rparr>)" by blast
  let ?ft = "ft\<lparr>ft_cl := cl1, ft_done := dn\<rparr>"
  have pc: "ft_pc ?ft c = Appending w" and one: "append_step (ft_jobs ?ft) c (ft_cl ?ft) cl2"
    using assms(2) step(2) by simp_all
  show ?case
  proof (cases "cl_rows cl2 = cl_rows cl1")
    case True
    have "call_step L calls c ?ft (?ft\<lparr>ft_cl := cl2\<rparr>)" by (rule call_step.append [OF pc one]) (simp add: True)
    moreover have "?ft\<lparr>ft_cl := cl2\<rparr> = ft\<lparr>ft_cl := cl2, ft_done := dn\<rparr>" by (cases ft) simp
    ultimately show ?thesis using run by (metis rtranclp.rtrancl_into_rtrancl)
  next
    case False
    have "call_step L calls c ?ft (effect (?ft\<lparr>ft_cl := cl2\<rparr>) c w)"
      by (rule call_step.append_commit [OF pc one]) (simp add: False)
    moreover have "effect (?ft\<lparr>ft_cl := cl2\<rparr>) c w = ft\<lparr>ft_cl := cl2, ft_done := dn @ [(c, w)]\<rparr>"
      by (cases ft) (simp add: effect_def)
    ultimately show ?thesis using run by (metis rtranclp.rtrancl_into_rtrancl)
  qed
qed

lemma append_in_steps:
  assumes run: "EventStore_AppendEvents wid evs v s = (r, s')" and pc: "ft_pc ft c = Appending w"
    and job: "ft_jobs ft c = \<lparr>jb_Wallet = wid, jb_Events = evs, jb_Expected = v\<rparr>"
    and at: "same_tables ft s" "cl_pc (ft_cl ft) c = Reading" "quiet (ft_cl ft) c"
  obtains ft' where "(call_step L calls c)\<^sup>*\<^sup>* ft ft'" "ft_pc ft' c = Appending w"
    "cl_pc (ft_cl ft') c = Finished r" "same_tables ft' s'"
proof -
  let ?cl = "go_to ((ft_cl ft)\<lparr>cl_rows := wallet_events s'\<rparr>) c (Finished r)"
  have "(append_step (ft_jobs ft) c)\<^sup>*\<^sup>* (ft_cl ft) ?cl"
    by (rule append_runs_in_steps [where s = s]) (use run job at in \<open>simp_all add: same_tables_def\<close>)
  from append_steps_lift [OF this pc] obtain dn
    where "(call_step L calls c)\<^sup>*\<^sup>* ft (ft\<lparr>ft_cl := ?cl, ft_done := dn\<rparr>)" by blast
  moreover have "wallet_snapshots s' = wallet_snapshots s"
    using run by (cases rule: AppendEvents_cases) (auto elim!: only_tickE)
  ultimately show thesis using at(1) pc by (intro that [of "ft\<lparr>ft_cl := ?cl, ft_done := dn\<rparr>"]) (simp_all add: same_tables_def)
qed

lemma load_in_steps:
  assumes run: "WalletService_load EventStore_postgres SnapshotStore_postgres wid s = (r, s')"
    and pc: "ft_pc ft c = Called" and call: "call_wallet (calls c) = Some wid" and at: "same_tables ft s"
  obtains w0 v0 where "only_tick s s'" "(call_step (rt_lib s) calls c)\<^sup>*\<^sup>* ft (move ft c (Loading w0 v0))"
    "(\<exists>e. r = Inl e) \<and> (call_step (rt_lib s) calls c)\<^sup>*\<^sup>* ft (move ft c (Returned r)) \<or>
     \<not> (events_after ft wid v0 = [] \<and> v0 = 0) \<and> r = Inr (Wallet_Reconstitute (rt_lib s) w0 (events_after ft wid v0))"
proof -
  let ?L = "rt_lib s" and ?steps = "(call_step (rt_lib s) calls c)\<^sup>*\<^sup>*"
  obtain loaded s1 where snap: "SnapshotStore_LoadSnapshot wid s = (loaded, s1)" by fastforce
  obtain w0 v0 where base: "(w0, v0) = (case loaded of Inr (Some w, v) \<Rightarrow> (w, v) | _ \<Rightarrow> (zero_Wallet, 0))"
    by (metis surj_pair)
  obtain evs s2 where load: "EventStore_LoadEvents wid v0 s1 = (evs, s2)" by fastforce
  have t1: "only_tick s s1" by (rule postgres_snapshot(1) [OF snap])
  have t: "only_tick s s2" using only_tick_trans [OF t1 postgres_load_effect [OF load]] .
  then have lib: "rt_lib s2 = ?L" by (auto elim!: only_tickE)
  have body: "s' = s2 \<and> r = (case evs of Inl e \<Rightarrow> Inl e
      | Inr xs \<Rightarrow> if xs = [] \<and> v0 = 0 then Inl (errors_New CodeNotFound ''wallet not found'')
                  else Inr (Wallet_Reconstitute ?L w0 xs))"
    using run unfolding WalletService_load_def Let_def
    by (auto simp: postgres_stores go_simps snap base [symmetric] load lib split: sum.splits)
  have "call_step ?L calls c ft (move ft c (Loading w0 v0))"
  proof (cases "\<exists>w v. loaded = Inr (Some w, v)")
    case True
    then obtain row where row: "loaded = Inr (Some (wallet_of_row wid row), w_Version (wallet_of_row wid row))"
        "wallet_snapshots s wid = Some row"
      using snap by (auto simp: SnapshotStore_LoadSnapshot_def go_simps elim!: sql_query_cases
        split: sum.splits option.splits prod.splits)
    then show ?thesis
      using call_step.snapshot [where ft = ft and c = c and calls = calls and row = row and L = ?L, OF pc call] at base by (simp add: same_tables_def)
  next
    case False
    then have "w0 = zero_Wallet" "v0 = 0" using base by (auto split: sum.splits option.splits prod.splits)
    then show ?thesis using call_step.no_snapshot [where ft = ft and c = c and calls = calls and L = ?L, OF pc call] by simp
  qed
  then have first: "?steps ft (move ft c (Loading w0 v0))" by blast
  have twice: "move (move ft c p) c q = move ft c q" for p q by (simp add: move_def)
  have xs: "events_after ft wid v0 = xs" if "evs = Inr xs" for xs
    using postgres_load_ok [of wid v0 s1 xs s2] load that t1 at
    by (auto simp: events_after_def same_tables_def filter_after_log wallet_log_def elim!: only_tickE)
  have at0: "ft_pc (move ft c (Loading w0 v0)) c = Loading w0 v0" by simp
  have "(\<exists>e. r = Inl e) \<and> ?steps ft (move ft c (Returned r)) \<or>
     \<not> (events_after ft wid v0 = [] \<and> v0 = 0) \<and> r = Inr (Wallet_Reconstitute ?L w0 (events_after ft wid v0))"
  proof (cases evs)
    case (Inl e)
    then have "(\<exists>e. r = Inl e) \<and> ?steps ft (move ft c (Returned r))"
      using call_step.load_failed [where c = c and calls = calls and L = ?L and e = e, OF at0] first body
      by (auto simp: twice elim: rtranclp.rtrancl_into_rtrancl)
    then show ?thesis by blast
  next
    case (Inr evs')
    note evs' = xs [OF Inr]
    show ?thesis
    proof (cases "events_after ft wid v0 = [] \<and> v0 = 0")
      case True
      have same: "events_after (move ft c (Loading w0 v0)) wid v0 = events_after ft wid v0"
        by (simp add: events_after_def)
      have "(\<exists>e. r = Inl e) \<and> ?steps ft (move ft c (Returned r))"
        using call_step.missing [where c = c and calls = calls and L = ?L, OF at0 call] same True first body Inr evs'
        by (auto simp: twice elim: rtranclp.rtrancl_into_rtrancl)
      then show ?thesis by blast
    next
      case False
      then show ?thesis using body Inr evs' by auto
    qed
  qed
  then show thesis using that first t body by blast
qed

text \<open>After the append: the answer, or the snapshot first.\<close>

lemma answer_in_steps:
  assumes run: "WalletService_maybeSnapshot SnapshotStore_postgres w s = (q, s')"
    and pc: "ft_pc ft c = Appending w" "cl_pc (ft_cl ft) c = Finished (Inr ())"
    and call: "call_wallet (calls c) \<noteq> None" and at: "same_tables ft s"
  shows "\<exists>ft'. call_step L calls c ft ft' \<and> ft_pc ft' c = Returned (case q of Inl e \<Rightarrow> Inl e | Inr u \<Rightarrow> Inr w)
    \<and> same_tables ft' s'"
proof (cases "snapshot_due w")
  case False
  then have "q = Inr () \<and> s' = s"
    using run by (auto simp: WalletService_maybeSnapshot_def snapshot_due_def go_return_def)
  moreover have "call_step L calls c ft (move ft c (Returned (Inr w)))"
    using call_step.answer [where ft = ft and c = c, OF pc] False by blast
  ultimately show ?thesis using at by (intro exI [of _ "move ft c (Returned (Inr w))"]) simp
next
  case True
  have "SnapshotStore_SaveSnapshot w s = (q, s')"
    using run True by (simp add: WalletService_maybeSnapshot_def snapshot_due_def postgres_stores)
  then obtain q' where x: "sql_exec (\<lambda>s. Inr (s\<lparr>wallet_snapshots := (wallet_snapshots s)
        (w_ID w \<mapsto> upsert_snapshot (sql_NOW s) w (wallet_snapshots s (w_ID w)))\<rparr>)) s = (q', s')"
      "q = (case q' of Inl e \<Rightarrow> Inl (DomainError CodeInternal ''save snapshot'' (Some e)) | Inr u \<Rightarrow> Inr u)"
    unfolding SnapshotStore_SaveSnapshot_def go_wrap_def by (auto split: prod.splits sum.splits)
  have saved: "same_tables (save_row ft (sql_NOW t) w) t'"
    if "t = s\<lparr>rt_tick := Suc (rt_tick s)\<rparr>" "t' = t\<lparr>wallet_snapshots := (wallet_snapshots t)
        (w_ID w \<mapsto> upsert_snapshot (sql_NOW t) w (wallet_snapshots t (w_ID w)))\<rparr>" for t t'
    using at by (simp add: same_tables_def save_row_def that)
  from x(1) show ?thesis
  proof (cases rule: sql_exec_cases)
    case ok
    then show ?thesis using saved [OF refl] x(2) call_step.save [where ft = ft and c = c and calls = calls and L = L, OF pc call True]
      by (intro exI [of _ "move (save_row ft (sql_NOW (s\<lparr>rt_tick := Suc (rt_tick s)\<rparr>)) w) c (Returned (Inr w))"]) simp
  next
    case (lost e)
    then show ?thesis using saved [OF refl] x(2) call_step.save_lost [where ft = ft and c = c and calls = calls and L = L, OF pc call True]
      by (intro exI [of _ "move (save_row ft (sql_NOW (s\<lparr>rt_tick := Suc (rt_tick s)\<rparr>)) w) c
        (Returned (Inl (DomainError CodeInternal ''save snapshot'' (Some e))))"]) simp
  next
    case (failed e)
    then show ?thesis using at x(2) call_step.save_failed [where ft = ft and c = c and calls = calls and L = L, OF pc call True]
      by (intro exI [of _ "move ft c (Returned (Inl (DomainError CodeInternal ''save snapshot'' (Some e))))"]) simp
  qed
qed

lemma create_in_steps:
  assumes run: "svc_call EventStore_postgres SnapshotStore_postgres (CallCreate u currency) s = (r, s')"
    and call: "calls c = CallCreate u currency"
    and at: "same_tables ft s" "ft_pc ft c = Called" "cl_pc (ft_cl ft) c = Reading" "quiet (ft_cl ft) c"
  shows "\<exists>ft'. (call_step (rt_lib s) calls c)\<^sup>*\<^sup>* ft ft' \<and> ft_pc ft' c = Returned r \<and> same_tables ft' s'"
proof -
  obtain q s1 where new: "NewWallet u currency s = (q, s1)" by fastforce
  have "s1 = s \<or> s1 = s\<lparr>rt_tick := Suc (Suc (Suc (rt_tick s)))\<rparr>"
    using new by (auto simp: NewWallet_def uuid_New_def time_Now_def go_simps split: if_splits)
  then have at1: "same_tables ft s1" using at(1) by auto
  show ?thesis
  proof (cases q)
    case (Inl e)
    then have "call_step (rt_lib s) calls c ft (move ft c (Returned r))" "s' = s1"
      using run new call_step.create_refused [where ft = ft and c = c and calls = calls and L = "rt_lib s", OF at(2) call] by (auto simp: go_simps)
    then show ?thesis using at1 by (intro exI [of _ "move ft c (Returned r)"]) auto
  next
    case (Inr w)
    let ?ft = "move (hand_over ft c \<lparr>jb_Wallet = w_ID w, jb_Events = Wallet_Changes w, jb_Expected = 0\<rparr>) c (Appending w)"
    have step: "call_step (rt_lib s) calls c ft ?ft" using call_step.create [where ft = ft and c = c and calls = calls and L = "rt_lib s", OF at(2) call] new Inr by blast
    obtain q2 s2 where app: "EventStore_AppendEvents (w_ID w) (Wallet_Changes w) 0 s1 = (q2, s2)" by fastforce
    then obtain ft2 where ft2: "(call_step (rt_lib s) calls c)\<^sup>*\<^sup>* ?ft ft2" "ft_pc ft2 c = Appending w"
        "cl_pc (ft_cl ft2) c = Finished q2" "same_tables ft2 s2"
      by (rule append_in_steps [where ft = ?ft and c = c and w = w]) (use at at1 in simp_all)
    have r: "r = (case q2 of Inl e \<Rightarrow> Inl e | Inr _ \<Rightarrow> Inr w)" "s' = s2"
      using run new Inr app by (auto simp: postgres_stores go_simps split: sum.splits)
    have "call_step (rt_lib s) calls c ft2 (move ft2 c (Returned r))"
      using call_step.append_failed [where c = c and calls = calls, OF ft2(2)] call_step.answer [where c = c and calls = calls, OF ft2(2)] ft2(3) r(1) call
      by (cases q2) auto
    then have "(call_step (rt_lib s) calls c)\<^sup>*\<^sup>* ft (move ft2 c (Returned r))"
      using rtranclp_step [OF step ft2(1)] by (rule rtranclp.rtrancl_into_rtrancl [rotated])
    then show ?thesis using ft2(4) r(2) by (intro exI [of _ "move ft2 c (Returned r)"]) simp
  qed
qed

text \<open>From the second read of \<open>load\<close> to the return, for the five updates.\<close>

lemma command_in_steps:
  assumes run: "go_bind (Wallet_cmd cmd w1) (\<lambda>w.
      go_bind (EventStore_AppendEvents wid (Wallet_Changes w) (w_Version w1)) (\<lambda>_.
      go_bind (WalletService_maybeSnapshot SnapshotStore_postgres w) (\<lambda>_. go_return w))) s = (r, s')"
    and pc: "ft_pc ft c = Loading w0 v0" and call: "calls c = CallUpdate wid cmd" and L: "rt_lib s = L"
    and there: "\<not> (events_after ft wid v0 = [] \<and> v0 = 0)" "w1 = Wallet_Reconstitute L w0 (events_after ft wid v0)"
    and at: "same_tables ft s" "cl_pc (ft_cl ft) c = Reading" "quiet (ft_cl ft) c"
  shows "\<exists>ft'. (call_step L calls c)\<^sup>*\<^sup>* ft ft' \<and> ft_pc ft' c = Returned r \<and> same_tables ft' s'"
proof -
  let ?steps = "(call_step L calls c)\<^sup>*\<^sup>*"
  obtain q s2 where cmd: "Wallet_cmd cmd w1 s = (q, s2)" by fastforce
  have at2: "same_tables ft s2" using Wallet_cmd_spec [OF cmd] at(1) by (auto split: sum.splits)
  show ?thesis
  proof (cases q)
    case (Inl e)
    then have "r = Inl e" "s' = s2" using run cmd by (auto simp: go_simps)
    moreover have "call_step L calls c ft (move ft c (Returned (Inl e)))"
      using call_step.refused [where c = c and calls = calls and L = L, OF pc call there] cmd Inl L by blast
    ultimately show ?thesis using at2 by (intro exI [of _ "move ft c (Returned r)"]) auto
  next
    case (Inr w)
    let ?ft1 = "move (hand_over ft c
      \<lparr>jb_Wallet = wid, jb_Events = Wallet_Changes w, jb_Expected = w_Version w1\<rparr>) c (Appending w)"
    have step: "call_step L calls c ft ?ft1"
      using call_step.command [where c = c and calls = calls and L = L, OF pc call there] cmd Inr L by blast
    obtain q3 s3 where app: "EventStore_AppendEvents wid (Wallet_Changes w) (w_Version w1) s2 = (q3, s3)" by fastforce
    then obtain ft2 where ft2: "?steps ?ft1 ft2" "ft_pc ft2 c = Appending w"
        "cl_pc (ft_cl ft2) c = Finished q3" "same_tables ft2 s3"
      by (rule append_in_steps [where ft = ?ft1 and c = c and w = w]) (use at at2 in simp_all)
    have to2: "?steps ft ft2" by (rule rtranclp_step [OF step ft2(1)])
    have "\<exists>ft'. call_step L calls c ft2 ft' \<and> ft_pc ft' c = Returned r \<and> same_tables ft' s'"
    proof (cases q3)
      case (Inl e)
      then have "r = Inl e" "s' = s3" using run cmd app \<open>q = Inr w\<close> by (auto simp: go_simps)
      then show ?thesis
        using call_step.append_failed [where c = c and e = e, OF ft2(2)] ft2(3,4) Inl
        by (intro exI [of _ "move ft2 c (Returned r)"]) simp
    next
      case (Inr u)
      obtain q4 s4 where snap: "WalletService_maybeSnapshot SnapshotStore_postgres w s3 = (q4, s4)" by fastforce
      then have "r = (case q4 of Inl e \<Rightarrow> Inl e | Inr u \<Rightarrow> Inr w)" "s' = s4"
        using run cmd app \<open>q = Inr w\<close> Inr by (auto simp: go_simps split: sum.splits)
      then show ?thesis
        using answer_in_steps [OF snap ft2(2), of calls L] ft2(3,4) Inr call by simp
    qed
    then show ?thesis using to2 by (blast intro: rtranclp.rtrancl_into_rtrancl)
  qed
qed

lemma update_in_steps:
  assumes run: "svc_update EventStore_postgres SnapshotStore_postgres wid cmd s = (r, s')"
    and call: "calls c = CallUpdate wid cmd"
    and at: "same_tables ft s" "ft_pc ft c = Called" "cl_pc (ft_cl ft) c = Reading" "quiet (ft_cl ft) c"
  shows "\<exists>ft'. (call_step (rt_lib s) calls c)\<^sup>*\<^sup>* ft ft' \<and> ft_pc ft' c = Returned r \<and> same_tables ft' s'"
proof -
  let ?L = "rt_lib s" and ?steps = "(call_step (rt_lib s) calls c)\<^sup>*\<^sup>*"
  have wid: "call_wallet (calls c) = Some wid" using call by simp
  obtain q s1 where load: "WalletService_load EventStore_postgres SnapshotStore_postgres wid s = (q, s1)" by fastforce
  from load at(2) wid at(1) obtain w0 v0 where l: "only_tick s s1" "?steps ft (move ft c (Loading w0 v0))"
    "(\<exists>e. q = Inl e) \<and> ?steps ft (move ft c (Returned q)) \<or> \<not> (events_after ft wid v0 = [] \<and> v0 = 0)
       \<and> q = Inr (Wallet_Reconstitute ?L w0 (events_after ft wid v0))" by (rule load_in_steps)
  have at1: "same_tables ft s1" and lib1: "rt_lib s1 = ?L" using l(1) at(1) by (auto elim!: only_tickE)
  let ?ft = "move ft c (Loading w0 v0)"
  show ?thesis
  proof (cases q)
    case (Inl e)
    then have "?steps ft (move ft c (Returned r))" "s' = s1" using l(3) run load by (auto simp: svc_update_def go_simps)
    then show ?thesis using at1 by (intro exI [of _ "move ft c (Returned r)"]) simp
  next
    case (Inr w1)
    then have there: "\<not> (events_after ?ft wid v0 = [] \<and> v0 = 0)" "w1 = Wallet_Reconstitute ?L w0 (events_after ?ft wid v0)"
      using l(3) by (auto simp: events_after_def)
    have "\<exists>ft'. ?steps ?ft ft' \<and> ft_pc ft' c = Returned r \<and> same_tables ft' s'"
      by (rule command_in_steps [where c = c and calls = calls and s = s1 and r = r, OF _ _ call lib1 there])
        (use run load Inr at at1 in \<open>simp_all add: svc_update_def go_simps postgres_stores\<close>)
    then show ?thesis using l(2) by (blast intro: rtranclp_trans)
  qed
qed


section \<open>An example\<close>

text \<open>
  Call 1 deposits into the wallet that call 0 creates. It has looked for a snapshot already when
  call 0 starts, and reads the events when call 0 has returned.
\<close>

definition sample_calls :: "nat \<Rightarrow> wallet_call" where
  "sample_calls c = (if c = 0 then CallCreate 5 ''BRL'' else CallUpdate 2 (CmdDeposit 10 ''d''))"

definition sample_create :: "(goerr + wallet) \<times> wallet_db" where
  "sample_create = svc_call EventStore_postgres SnapshotStore_postgres (sample_calls 0) sample_wallet_db"

lemma sample_create_run:
  "case fst sample_create of Inl e \<Rightarrow> False | Inr w \<Rightarrow> w_ID w = 2 \<and> w_BalanceCents w = 0"
  by code_simp

lemma sample_create_events: "map ev_WalletID (wallet_events (snd sample_create)) = [2]"
  "map (\<lambda>e. sint (ev_Version e)) (wallet_events (snd sample_create)) = [1]"
  by code_simp+

lemma fleet_start_simps [simp]:
  "ft_pc (fleet_start rows snapshots) c = Called" "cl_pc (ft_cl (fleet_start rows snapshots)) c = Reading"
  "cl_rows (ft_cl (fleet_start rows snapshots)) = rows" "ft_snapshots (fleet_start rows snapshots) = snapshots"
  "ft_done (fleet_start rows snapshots) = []"
  by (simp_all add: fleet_start_def start_def)

lemma sample_start: "same_tables (fleet_start [] (\<lambda>_. None)) sample_wallet_db" "rt_lib sample_wallet_db = sample_lib"
  by (simp_all add: same_tables_def sample_wallet_db_def rt.defs sample_rt_def)


end
