(* ===== verification/WalletLinearize.thy ===== *)
theory WalletLinearize
  imports WalletFleet
begin

text \<open>
  Any number of calls of the wallet service at once, in the steps of \<open>WalletFleet\<close>: whatever the
  interleaving and the failures, the database is as if the calls that took effect had been made one
  after the other, each in one piece, with the answers their callers got.
\<close>

section \<open>Calls made one after the other\<close>

text \<open>The call, answered with \<open>w\<close>, takes the accounts from \<open>a\<close> to \<open>b\<close>.\<close>

fun call_done :: "wallet_call \<Rightarrow> wallet \<Rightarrow> (uuid \<Rightarrow> wallet option) \<Rightarrow> (uuid \<Rightarrow> wallet option) \<Rightarrow> bool" where
  "call_done (CallUpdate wid cmd) w a b \<longleftrightarrow> spec_update cmd wid a = Inr b \<and> b wid = Some (stored w)"
| "call_done (CallCreate u currency) w a b \<longleftrightarrow> currency \<noteq> '''' \<and> created (w_ID w) u currency a b
     \<and> b (w_ID w) = Some (stored w)"
| "call_done (CallBalance wid) w a b \<longleftrightarrow> a wid = Some w \<and> b = a"

inductive serial :: "(nat \<Rightarrow> wallet_call) \<Rightarrow> (uuid \<Rightarrow> wallet option) \<Rightarrow> (nat \<times> wallet) list
    \<Rightarrow> (uuid \<Rightarrow> wallet option) \<Rightarrow> bool" for calls a where
  serial_Nil: "serial calls a [] a"
| serial_snoc: "serial calls a xs b \<Longrightarrow> call_done (calls c) w b b' \<Longrightarrow> serial calls a (xs @ [(c, w)]) b'"

section \<open>What a call hands to the event store\<close>

text \<open>The wallets the snapshot table holds.\<close>

definition snapshots_of :: "fleet \<Rightarrow> uuid \<Rightarrow> wallet option" where
  "snapshots_of ft wid = map_option (wallet_of_row wid) (ft_snapshots ft wid)"

text \<open>The logs the event table holds.\<close>

definition logs :: "fleet \<Rightarrow> uuid \<Rightarrow> event list" where
  "logs ft = table_log (cl_rows (ft_cl ft))"

text \<open>
  The job of a call that reached \<open>AppendEvents\<close>: what its command emitted on the replay of the first
  \<open>k\<close> events of the log as it is now, with \<open>k\<close> as the version; or a new wallet.
\<close>

fun job_of :: "lib \<Rightarrow> (uuid \<Rightarrow> event list) \<Rightarrow> wallet_call \<Rightarrow> append_job \<Rightarrow> wallet \<Rightarrow> bool" where
  "job_of L lg (CallUpdate wid cmd) j w \<longleftrightarrow> (\<exists>k (t :: wallet_db) t'. 0 < k \<and> k \<le> length (lg wid) \<and> rt_lib t = L
     \<and> Wallet_cmd cmd (replay L (take k (lg wid))) t = (Inr w, t')
     \<and> j = \<lparr>jb_Wallet = wid, jb_Events = Wallet_Changes w, jb_Expected = of_nat k\<rparr>)"
| "job_of L lg (CallCreate u currency) j w \<longleftrightarrow> (\<exists>(t :: wallet_db) t'. rt_lib t = L
     \<and> NewWallet u currency t = (Inr w, t')
     \<and> j = \<lparr>jb_Wallet = w_ID w, jb_Events = Wallet_Changes w, jb_Expected = 0\<rparr>)"
| "job_of L lg (CallBalance wid) j w \<longleftrightarrow> False"

lemma NewWallet_event:
  assumes L: "uuid_laws L" "rt_lib t = L" and new: "NewWallet u currency t = (Inr w, t')"
  obtains e where "currency \<noteq> ''''" "Wallet_Changes w = [e]" "stored w = new_account (w_ID w) u currency"
    "ev_Type e = EventWalletCreated" "ev_WalletID e = w_ID w" "ev_Version e = 1"
    "ev_Payload e = WalletCreatedPayload_Marshal L \<lparr>wc_UserID = u, wc_Currency = currency\<rparr>"
proof -
  have c: "currency \<noteq> ''''" using new by (auto simp: NewWallet_def go_throw_def)
  have laws: "uuid_laws (rt_lib t)" using L by simp
  show thesis
    using new that [OF c] L(2) unfolding NewWallet_run [OF laws c]
    by (auto simp: Let_def Wallet_Changes_def new_account_def)
qed

lemma job_of_ok:
  assumes job: "job_of L lg call j w" and coh: "coherent L lg sn" and L: "uuid_laws L"
    and room: "\<And>wid. int (Suc (length (lg wid))) < 2 ^ 63"
  shows "job_ok j \<and> sint (jb_Expected j) \<le> int (length (lg (jb_Wallet j)))"
proof (cases call)
  case (CallUpdate wid cmd)
  then obtain k t t' where k: "0 < k" "k \<le> length (lg wid)" and run: "Wallet_cmd cmd (replay L (take k (lg wid))) (t :: wallet_db) = (Inr w, t')"
    and j: "j = \<lparr>jb_Wallet = wid, jb_Events = Wallet_Changes w, jb_Expected = of_nat k\<rparr>" using job by auto
  have lg: "numbered (lg wid)" "own_log wid (lg wid)" using coh unfolding coherent_def by blast+
  have v: "w_Version (replay L (take k (lg wid))) = of_nat k" by (rule numbered_version [OF lg(1) k(2)])
  have id: "w_ID (replay L (take k (lg wid))) = wid" by (rule replay_identity(1) [OF lg(2) k])
  have sint: "sint (of_nat k :: i64) = int k" using room [of wid] k(2) by (intro sint_of_nat_i64) simp
  have "sint (of_nat k :: i64) + 1 < 2 ^ 63" unfolding sint using room [of wid] k(2) by simp
  then show ?thesis using command_job_ok [OF run] sint k(2) by (simp add: v id j)
next
  case (CallCreate u currency)
  then obtain t t' where t: "rt_lib t = L" "NewWallet u currency (t :: wallet_db) = (Inr w, t')"
    and j: "j = \<lparr>jb_Wallet = w_ID w, jb_Events = Wallet_Changes w, jb_Expected = 0\<rparr>" using job by auto
  from L t obtain e where "Wallet_Changes w = [e]" "ev_WalletID e = w_ID w" "ev_Version e = 1"
    by (rule NewWallet_event)
  then show ?thesis by (simp add: j job_ok_def)
qed (use job in simp)

text \<open>
  Committing it does the call: the version it was computed at is still the last, so it was computed
  on the whole log.
\<close>

lemma commit_effect:
  assumes job: "job_of L (table_log rows) call j w" and coh: "coherent L (table_log rows) sn" and L: "uuid_laws L"
    and room: "\<And>wid. int (Suc (length (table_log rows wid))) < 2 ^ 63" and inv: "table_inv (rows @ jb_Events j)"
  obtains e where "table_log (rows @ jb_Events j) = (table_log rows)(w_ID w := table_log rows (w_ID w) @ [e])"
    and "coherent L (table_log (rows @ jb_Events j)) sn"
    and "replay L (table_log (rows @ jb_Events j) (w_ID w)) = stored w"
    and "call_done call w (accounts L (table_log rows)) (accounts L (table_log (rows @ jb_Events j)))"
proof -
  let ?lg = "table_log rows" and ?lg' = "table_log (rows @ jb_Events j)"
  have ok: "job_ok j" "sint (jb_Expected j) \<le> int (length (?lg (jb_Wallet j)))"
    using job_of_ok [OF job coh L room] by blast+
  have num: "\<forall>w. numbered (?lg w)" using coh unfolding coherent_def by blast
  have lg': "?lg' = ?lg(jb_Wallet j := ?lg (jb_Wallet j) @ jb_Events j)"
    by (rule commit_numbered(1) [OF ok(1) num inv ok(2)])
  have last: "nat (sint (jb_Expected j)) = length (?lg (jb_Wallet j))"
    by (rule open_at_end [OF ok(1) _ inv ok(2)]) (use num in blast)
  show thesis
  proof (cases call)
    case (CallUpdate wid cmd)
    then obtain k t t' where k: "0 < k" "k \<le> length (?lg wid)" and t: "rt_lib t = L"
      and run: "Wallet_cmd cmd (replay L (take k (?lg wid))) (t :: wallet_db) = (Inr w, t')"
      and j: "j = \<lparr>jb_Wallet = wid, jb_Events = Wallet_Changes w, jb_Expected = of_nat k\<rparr>" using job by auto
    have "sint (of_nat k :: i64) = int k" using room [of wid] k(2) by (intro sint_of_nat_i64) simp
    then have "take k (?lg wid) = ?lg wid" using last j by simp
    then have run: "Wallet_cmd cmd (replay L (?lg wid)) t = (Inr w, t')" using run by simp
    have ne: "?lg wid \<noteq> []" using k by auto
    obtain e where e: "Wallet_Changes w = [e]" "replay L (?lg wid @ [e]) = stored w"
      "spec_cmd cmd (replay L (?lg wid)) = Inr (stored w)" "coherent L (?lg(wid := ?lg wid @ [e])) sn" "w_ID w = wid"
      using command_event [OF coh ne room run t] by metis
    have l: "?lg' = ?lg(wid := ?lg wid @ [e])" using lg' j e(1) by simp
    show thesis
    proof (rule that [of e])
      have "spec_update cmd wid (accounts L ?lg) = Inr (accounts L (?lg(wid := ?lg wid @ [e])))"
        by (rule spec_update_existing [of ?lg, OF ne e(3,2)])
      then show "call_done call w (accounts L ?lg) (accounts L ?lg')"
        using e(2) unfolding CallUpdate l by (simp add: accounts_def)
    qed (use e l in simp_all)
  next
    case (CallCreate u currency)
    then obtain t t' where t: "rt_lib t = L" "NewWallet u currency (t :: wallet_db) = (Inr w, t')"
      and j: "j = \<lparr>jb_Wallet = w_ID w, jb_Events = Wallet_Changes w, jb_Expected = 0\<rparr>" using job by auto
    from L t obtain e where e: "currency \<noteq> ''''" "Wallet_Changes w = [e]" "stored w = new_account (w_ID w) u currency"
      "ev_Type e = EventWalletCreated" "ev_WalletID e = w_ID w" "ev_Version e = 1"
      "ev_Payload e = WalletCreatedPayload_Marshal L \<lparr>wc_UserID = u, wc_Currency = currency\<rparr>"
      by (rule NewWallet_event)
    have nil: "?lg (w_ID w) = []" using last j by simp
    have l: "?lg' = ?lg(w_ID w := [e])" using lg' j e(2) nil by simp
    have rep: "replay L [e] = stored w" unfolding e(3) by (rule created_event [OF L e(4,5,7,6)])
    show thesis
    proof (rule that [of e])
      show "coherent L ?lg' sn" unfolding l by (rule coherent_create [OF coh nil e(6,5,4)])
      show "call_done call w (accounts L ?lg) (accounts L ?lg')"
        using rep e(1) nil accounts_append [of L ?lg "w_ID w" e] unfolding CallCreate l
        by (simp add: created_def accounts_def e(3))
    qed (use rep l nil in simp_all)
  qed (use job in simp)
qed

section \<open>What holds of every caller\<close>

definition took_effect :: "(nat \<times> wallet) list \<Rightarrow> nat \<Rightarrow> bool" where
  "took_effect dn c \<longleftrightarrow> c \<in> fst ` set dn"

lemma took_effect_simps [simp]:
  "\<not> took_effect [] c" "took_effect (dn @ [(d, w)]) c \<longleftrightarrow> took_effect dn c \<or> c = d"
  by (auto simp: took_effect_def)

fun pc_ok :: "lib \<Rightarrow> (uuid \<Rightarrow> event list) \<Rightarrow> (nat \<times> wallet) list \<Rightarrow> nat \<Rightarrow> wallet_call \<Rightarrow> append_job
    \<Rightarrow> append_pc \<Rightarrow> call_pc \<Rightarrow> bool" where
  "pc_ok L lg dn c call j a Called \<longleftrightarrow> a = Reading \<and> \<not> took_effect dn c"
| "pc_ok L lg dn c call j a (Loading w0 v0) \<longleftrightarrow> a = Reading \<and> \<not> took_effect dn c
     \<and> (\<forall>wid. call_wallet call = Some wid \<longrightarrow>
          (\<exists>k \<le> length (lg wid). w0 = replay L (take k (lg wid)) \<and> v0 = of_nat k))"
| "pc_ok L lg dn c call j a (Appending w) \<longleftrightarrow> job_of L lg call j w
     \<and> ((\<forall>r. a \<noteq> Finished r) \<longrightarrow> \<not> took_effect dn c)
     \<and> (a = Finished (Inr ()) \<longrightarrow> (c, w) \<in> set dn \<and> prefix_replay L (lg (w_ID w)) (stored w))"
| "pc_ok L lg dn c call j a (Returned (Inr w)) \<longleftrightarrow> (c, w) \<in> set dn"
| "pc_ok L lg dn c call j a (Returned (Inl e)) \<longleftrightarrow> True"

text \<open>The logs only grow at their ends.\<close>

definition extends :: "(uuid \<Rightarrow> event list) \<Rightarrow> (uuid \<Rightarrow> event list) \<Rightarrow> bool" where
  "extends lg lg' \<longleftrightarrow> (\<forall>wid. \<exists>l. lg' wid = lg wid @ l)"

lemma extends_refl [simp]: "extends lg lg"
  by (simp add: extends_def)

lemma extends_append [simp]: "extends lg (lg(wid := lg wid @ l))"
  by (simp add: extends_def)

lemma extends_take:
  assumes "extends lg lg'" and "k \<le> length (lg wid)"
  shows "k \<le> length (lg' wid) \<and> take k (lg' wid) = take k (lg wid)"
  using assms unfolding extends_def by (metis append_take_drop_id length_append take_all_iff take_append
      append_Nil2 diff_is_0_eq le_add1 order_trans take_0)

lemma prefix_replay_extends:
  assumes "prefix_replay L (lg wid) w" and "extends lg lg'"
  shows "prefix_replay L (lg' wid) w"
proof -
  from assms(1) obtain k where k: "0 < k" "k \<le> length (lg wid)" "w = replay L (take k (lg wid))"
    by (rule prefix_replayE)
  then show ?thesis
    using extends_take [OF assms(2) k(2)] prefix_replayI [of k "lg' wid" L] by simp
qed

lemma job_of_extends:
  assumes "job_of L lg call j w" and ext: "extends lg lg'"
  shows "job_of L lg' call j w"
proof (cases call)
  case (CallUpdate wid cmd)
  then show ?thesis using assms(1) extends_take [OF ext] by (clarsimp) (metis)
qed (use assms(1) in simp_all)

lemma pc_ok_extends:
  assumes ok: "pc_ok L lg dn c call j a p" and ext: "extends lg lg'"
    and dn: "set dn \<subseteq> set dn'" "took_effect dn' c = took_effect dn c"
  shows "pc_ok L lg' dn' c call j a p"
proof (cases p)
  case Called
  then show ?thesis using ok dn by simp
next
  case (Loading w0 v0)
  then show ?thesis using ok dn extends_take [OF ext] by simp metis
next
  case (Appending w)
  then show ?thesis using ok dn job_of_extends [OF _ ext] prefix_replay_extends [OF _ ext] by auto
next
  case (Returned r)
  then show ?thesis using ok dn by (cases r) auto
qed

section \<open>The invariant\<close>

definition fleet_inv :: "lib \<Rightarrow> (nat \<Rightarrow> wallet_call) \<Rightarrow> nat \<Rightarrow> (uuid \<Rightarrow> event list) \<Rightarrow> fleet \<Rightarrow> bool" where
  "fleet_inv L calls n lg0 ft \<longleftrightarrow> cluster_inv (ft_jobs ft) (ft_cl ft) \<and> coherent L (logs ft) (snapshots_of ft)
     \<and> (\<forall>c. pc_ok L (logs ft) (ft_done ft) c (calls c) (ft_jobs ft c) (cl_pc (ft_cl ft) c) (ft_pc ft c))
     \<and> distinct (map fst (ft_done ft)) \<and> fst ` set (ft_done ft) \<subseteq> {..<n}
     \<and> (\<forall>wid. length (logs ft wid) \<le> length (lg0 wid) + length (ft_done ft))
     \<and> serial calls (accounts L lg0) (ft_done ft) (accounts L (logs ft))"

lemma logs_simps [simp]:
  "logs (move ft c p) = logs ft" "logs (effect ft c w) = logs ft" "logs (hand_over ft c j) = logs ft"
  "logs (save_row ft now w) = logs ft" "logs (ft\<lparr>ft_cl := cl\<rparr>) = table_log (cl_rows cl)"
  by (simp_all add: logs_def)

lemma snapshots_of_simps [simp]:
  "snapshots_of (move ft c p) = snapshots_of ft" "snapshots_of (effect ft c w) = snapshots_of ft"
  "snapshots_of (hand_over ft c j) = snapshots_of ft" "snapshots_of (ft\<lparr>ft_cl := cl\<rparr>) = snapshots_of ft"
  by (simp_all add: snapshots_of_def fun_eq_iff)

lemma fleet_invD:
  assumes "fleet_inv L calls n lg0 ft"
  shows "cluster_inv (ft_jobs ft) (ft_cl ft)" "coherent L (logs ft) (snapshots_of ft)"
    "pc_ok L (logs ft) (ft_done ft) c (calls c) (ft_jobs ft c) (cl_pc (ft_cl ft) c) (ft_pc ft c)"
    "distinct (map fst (ft_done ft))" "fst ` set (ft_done ft) \<subseteq> {..<n}"
    "length (logs ft wid) \<le> length (lg0 wid) + length (ft_done ft)"
    "serial calls (accounts L lg0) (ft_done ft) (accounts L (logs ft))"
    "numbered (logs ft wid)" "own_log wid (logs ft wid)"
    "snapshots_of ft wid = Some w \<Longrightarrow> prefix_replay L (logs ft wid) w"
proof -
  have coh: "coherent L (logs ft) (snapshots_of ft)" using assms by (simp add: fleet_inv_def)
  then show "numbered (logs ft wid)" "own_log wid (logs ft wid)" unfolding coherent_def by blast+
  have "pred_option (prefix_replay L (logs ft wid)) (snapshots_of ft wid)" using coh unfolding coherent_def by blast
  then show "snapshots_of ft wid = Some w \<Longrightarrow> prefix_replay L (logs ft wid) w" by simp
qed (use assms in \<open>simp_all add: fleet_inv_def\<close>)

text \<open>A caller that moves on, and nothing else changes.\<close>

lemma fleet_inv_move:
  assumes "fleet_inv L calls n lg0 ft"
    and "pc_ok L (logs ft) (ft_done ft) c (calls c) (ft_jobs ft c) (cl_pc (ft_cl ft) c) p"
  shows "fleet_inv L calls n lg0 (move ft c p)"
  using assms unfolding fleet_inv_def by auto

lemma fleet_inv_failed: "fleet_inv L calls n lg0 ft \<Longrightarrow> fleet_inv L calls n lg0 (move ft c (Returned (Inl e)))"
  by (rule fleet_inv_move) simp_all

text \<open>A call whose effect leaves the accounts as they are.\<close>

lemma fleet_inv_read:
  assumes inv: "fleet_inv L calls n lg0 ft" and c: "c < n" "\<not> took_effect (ft_done ft) c"
    and "call_done (calls c) w (accounts L (logs ft)) (accounts L (logs ft))"
  shows "fleet_inv L calls n lg0 (effect (move ft c (Returned (Inr w))) c w)"
proof -
  have others: "pc_ok L (logs ft) (ft_done ft @ [(c, w)]) d (calls d) (ft_jobs ft d) (cl_pc (ft_cl ft) d) (ft_pc ft d)"
    if "d \<noteq> c" for d
    by (rule pc_ok_extends [OF fleet_invD(3) [OF inv]]) (use that in auto)
  have "length (logs ft wid) \<le> length (lg0 wid) + length (ft_done ft @ [(c, w)])" for wid
    using fleet_invD(6) [OF inv, of wid] by simp
  moreover have "serial calls (accounts L lg0) (ft_done ft @ [(c, w)]) (accounts L (logs ft))"
    by (rule serial_snoc [OF fleet_invD(7) [OF inv] assms(4)])
  ultimately show ?thesis
    using fleet_invD(1,2,4,5) [OF inv] c others unfolding fleet_inv_def by (auto simp: took_effect_def)
qed

lemma fleet_inv_hand_over:
  assumes inv: "fleet_inv L calls n lg0 ft" and reading: "cl_pc (ft_cl ft) c = Reading"
    and "\<not> took_effect (ft_done ft) c" and "job_of L (logs ft) (calls c) j w"
  shows "fleet_inv L calls n lg0 (move (hand_over ft c j) c (Appending w))"
proof -
  have "cluster_inv (ft_jobs (hand_over ft c j)) (ft_cl ft)"
    using fleet_invD(1) [OF inv] reading unfolding cluster_inv_def by auto
  then show ?thesis using inv reading assms(3,4) unfolding fleet_inv_def by auto
qed

lemma snapshots_of_save:
  assumes "\<And>old. snapshots_of ft (w_ID w) = Some old \<Longrightarrow> w_Currency old = w_Currency w \<and> w_UserID old = w_UserID w"
  shows "snapshots_of (save_row ft now w) = (snapshots_of ft)(w_ID w \<mapsto> stored w)"
  using assms by (cases "ft_snapshots ft (w_ID w)")
    (auto simp: snapshots_of_def save_row_def wallet_of_row_def upsert_snapshot_def fun_eq_iff)

lemma fleet_inv_save:
  assumes inv: "fleet_inv L calls n lg0 ft" and w: "prefix_replay L (logs ft (w_ID w)) (stored w)"
  shows "fleet_inv L calls n lg0 (save_row ft now w)"
proof -
  let ?l = "logs ft (w_ID w)"
  note own = fleet_invD(9) [OF inv, of "w_ID w"]
  have ident: "w_Currency x = w_Currency (replay L ?l) \<and> w_UserID x = w_UserID (replay L ?l)" if "prefix_replay L ?l x" for x
    using that replay_identity(2,3) [OF own] by (auto elim: prefix_replayE)
  have "w_Currency w = w_Currency (replay L ?l)" "w_UserID w = w_UserID (replay L ?l)" using ident [OF w] by simp_all
  then have "snapshots_of (save_row ft now w) = (snapshots_of ft)(w_ID w \<mapsto> stored w)"
    using ident fleet_invD(10) [OF inv] by (intro snapshots_of_save) simp
  moreover have "coherent L (logs ft) ((snapshots_of ft)(w_ID w \<mapsto> stored w))"
    using fleet_invD(2) [OF inv] w unfolding coherent_def by simp
  ultimately show ?thesis using inv unfolding fleet_inv_def by simp
qed

section \<open>Every step keeps it\<close>

lemma append_step_others:
  assumes "append_step jobs c cl cl'"
  shows "d \<noteq> c \<Longrightarrow> cl_pc cl' d = cl_pc cl d" and "cl_pc cl c \<noteq> Finished r"
proof -
  show "d \<noteq> c \<Longrightarrow> cl_pc cl' d = cl_pc cl d" using assms by cases simp_all
  show "cl_pc cl c \<noteq> Finished r" using assms by cases auto
qed

text \<open>A statement of \<open>AppendEvents\<close> leaves the committed rows as they are, or is the commit.\<close>

lemma append_step_rows:
  assumes step: "append_step jobs c cl cl'" and inv: "cluster_inv jobs cl" and job: "job_ok (jobs c)"
  obtains (quiet) "cl_rows cl' = cl_rows cl" "cl_pc cl' c \<noteq> Finished (Inr ())"
    | (commits) r where "cl_rows cl' = cl_rows cl @ jb_Events (jobs c)" "cl_rows cl' \<noteq> cl_rows cl"
        "table_inv (cl_rows cl @ jb_Events (jobs c))" "cl_pc cl' c = Finished r"
  using step
proof cases
  case (commit own)
  have "caller_ok (jobs c) (cl_rows cl) (Inserting own [])" using inv commit(2) unfolding cluster_inv_def by metis
  then have "own = jb_Events (jobs c)" "table_inv (cl_rows cl @ own)" by auto
  moreover have "jb_Events (jobs c) \<noteq> []" using job by (simp add: job_ok_def)
  ultimately show thesis using commits [of "Inr ()"] commit(1) by simp
next
  case (commit_lost own e)
  have "caller_ok (jobs c) (cl_rows cl) (Inserting own [])" using inv commit_lost(2) unfolding cluster_inv_def by metis
  then have "own = jb_Events (jobs c)" "table_inv (cl_rows cl @ own)" by auto
  moreover have "jb_Events (jobs c) \<noteq> []" using job by (simp add: job_ok_def)
  ultimately show thesis using commits [of "Inl e"] commit_lost(1) by simp
qed (use quiet in simp_all)

lemma fleet_inv_append:
  assumes inv: "fleet_inv L calls n lg0 ft" and pc: "ft_pc ft c = Appending w"
    and step: "append_step (ft_jobs ft) c (ft_cl ft) cl'" and job: "job_ok (ft_jobs ft c)"
    and rows: "cl_rows cl' = cl_rows (ft_cl ft)"
  shows "fleet_inv L calls n lg0 (ft\<lparr>ft_cl := cl'\<rparr>)"
proof -
  have lg: "table_log (cl_rows cl') = logs ft" by (simp add: rows logs_def)
  have cl: "cluster_inv (ft_jobs ft) cl'" by (rule append_step_inv [OF step fleet_invD(1) [OF inv] job])
  have fin: "cl_pc cl' c \<noteq> Finished (Inr ())"
    using rows by (cases rule: append_step_rows [OF step fleet_invD(1) [OF inv] job]) auto
  have here: "pc_ok L (logs ft) (ft_done ft) c (calls c) (ft_jobs ft c) (cl_pc (ft_cl ft) c) (Appending w)"
    using fleet_invD(3) [OF inv, of c] pc by simp
  have "pc_ok L (logs ft) (ft_done ft) d (calls d) (ft_jobs ft d) (cl_pc cl' d) (ft_pc ft d)" for d
  proof (cases "d = c")
    case True
    then show ?thesis using here fin append_step_others(2) [OF step] pc by auto
  qed (use append_step_others(1) [OF step, of d] fleet_invD(3) [OF inv, of d] in simp)
  then show ?thesis using inv cl unfolding fleet_inv_def by (simp add: lg)
qed

lemma fleet_inv_commit:
  assumes inv: "fleet_inv L calls n lg0 ft" and c: "c < n" and pc: "ft_pc ft c = Appending w"
    and step: "append_step (ft_jobs ft) c (ft_cl ft) cl'" and job: "job_ok (ft_jobs ft c)"
    and rows: "cl_rows cl' \<noteq> cl_rows (ft_cl ft)"
    and L: "uuid_laws L" and room: "\<And>wid. int (Suc (length (logs ft wid))) < 2 ^ 63"
  shows "fleet_inv L calls n lg0 (effect (ft\<lparr>ft_cl := cl'\<rparr>) c w)"
proof -
  let ?j = "ft_jobs ft c" and ?dn = "ft_done ft @ [(c, w)]"
  have cl: "cluster_inv (ft_jobs ft) cl'" by (rule append_step_inv [OF step fleet_invD(1) [OF inv] job])
  have "pc_ok L (logs ft) (ft_done ft) c (calls c) ?j (cl_pc (ft_cl ft) c) (Appending w)"
    using fleet_invD(3) [OF inv, of c] pc by simp
  then have here: "job_of L (logs ft) (calls c) ?j w" "\<not> took_effect (ft_done ft) c"
    using append_step_others(2) [OF step] by auto
  obtain r where com: "cl_rows cl' = cl_rows (ft_cl ft) @ jb_Events ?j"
      "table_inv (cl_rows (ft_cl ft) @ jb_Events ?j)" "cl_pc cl' c = Finished r"
    using rows by (cases rule: append_step_rows [OF step fleet_invD(1) [OF inv] job]) auto
  obtain e where e: "table_log (cl_rows cl') = (logs ft)(w_ID w := logs ft (w_ID w) @ [e])"
      "coherent L (table_log (cl_rows cl')) (snapshots_of ft)" "replay L (table_log (cl_rows cl') (w_ID w)) = stored w"
      "call_done (calls c) w (accounts L (logs ft)) (accounts L (table_log (cl_rows cl')))"
    using commit_effect [OF here(1) [unfolded logs_def] fleet_invD(2) [OF inv, unfolded logs_def] L
        room [unfolded logs_def] com(2)] unfolding com(1) logs_def by metis
  have ext: "extends (logs ft) (table_log (cl_rows cl'))" unfolding e(1) by simp
  have "pc_ok L (table_log (cl_rows cl')) ?dn d (calls d) (ft_jobs ft d) (cl_pc cl' d) (ft_pc ft d)" for d
  proof (cases "d = c")
    case True
    have "prefix_replay L (table_log (cl_rows cl') (w_ID w)) (stored w)"
      unfolding e(3) [symmetric] by (rule prefix_replay_full) (simp add: e(1))
    then show ?thesis using True pc com(3) job_of_extends [OF here(1) ext] by simp
  next
    case False
    then show ?thesis
      unfolding append_step_others(1) [OF step False]
      by (intro pc_ok_extends [OF fleet_invD(3) [OF inv] ext]) auto
  qed
  moreover have "length (table_log (cl_rows cl') wid) \<le> length (lg0 wid) + length ?dn" for wid
    unfolding e(1) using fleet_invD(6) [OF inv, of wid] by (cases "wid = w_ID w") simp_all
  moreover have "serial calls (accounts L lg0) ?dn (accounts L (table_log (cl_rows cl')))"
    by (rule serial_snoc [OF fleet_invD(7) [OF inv] e(4)])
  ultimately show ?thesis
    using fleet_invD(4,5) [OF inv] c cl here(2) e(2) unfolding fleet_inv_def by (auto simp: took_effect_def)
qed

text \<open>There is room for the event of a call that has not taken effect.\<close>

lemma fleet_room:
  assumes inv: "fleet_inv L calls n lg0 ft" and "\<And>wid. int (length (lg0 wid) + n) < 2 ^ 63"
    and c: "c < n" "\<not> took_effect (ft_done ft) c"
  shows "int (Suc (length (logs ft wid))) < 2 ^ 63"
proof -
  let ?cs = "map fst (ft_done ft)"
  have "insert c (set ?cs) \<subseteq> {..<n}" using fleet_invD(5) [OF inv] c(1) by simp
  then have "card (insert c (set ?cs)) \<le> n" using card_mono [of "{..<n}"] by fastforce
  moreover have "card (insert c (set ?cs)) = Suc (length (ft_done ft))"
    using c(2) distinct_card [OF fleet_invD(4) [OF inv]] by (simp add: took_effect_def)
  ultimately show ?thesis using fleet_invD(6) [OF inv, of wid] assms(2) [of wid] by linarith
qed

text \<open>Between the two reads of \<open>load\<close> the log may have grown; what is loaded is the log of the second.\<close>

lemma loaded_now:
  assumes inv: "fleet_inv L calls n lg0 ft" and pc: "ft_pc ft c = Loading w0 v0"
    and call: "call_wallet (calls c) = Some wid"
  shows "Wallet_Reconstitute L w0 (events_after ft wid v0) = replay L (logs ft wid)"
    and "events_after ft wid v0 = [] \<and> v0 = 0 \<longleftrightarrow> logs ft wid = []"
proof -
  have "pc_ok L (logs ft) (ft_done ft) c (calls c) (ft_jobs ft c) (cl_pc (ft_cl ft) c) (Loading w0 v0)"
    using fleet_invD(3) [OF inv, of c] pc by simp
  then obtain k where k: "k \<le> length (logs ft wid)" "w0 = replay L (take k (logs ft wid))" "v0 = of_nat k"
    using call by auto
  have ev: "events_after ft wid v0 = filter (\<lambda>e. sint (of_nat k :: i64) < sint (ev_Version e)) (logs ft wid)"
    unfolding events_after_def k(3) logs_def by (rule filter_after_log)
  note load = load_prefix [OF fleet_invD(8) [OF inv] k(1)]
  show "Wallet_Reconstitute L w0 (events_after ft wid v0) = replay L (logs ft wid)"
    unfolding ev k(2) by (rule load(1))
  show "events_after ft wid v0 = [] \<and> v0 = 0 \<longleftrightarrow> logs ft wid = []"
    unfolding ev unfolding k(3) by (rule load(2))
qed

lemma fleet_inv_snapshot:
  assumes inv: "fleet_inv L calls n lg0 ft" and pc: "ft_pc ft c = Called"
    and call: "call_wallet (calls c) = Some wid" and base: "w0 = zero_Wallet \<and> v0 = 0 \<or> snapshots_of ft wid = Some w0 \<and> v0 = w_Version w0"
  shows "fleet_inv L calls n lg0 (move ft c (Loading w0 v0))"
proof (rule fleet_inv_move [OF inv])
  have "\<exists>k \<le> length (logs ft wid). w0 = replay L (take k (logs ft wid)) \<and> v0 = of_nat k"
    using base
  proof
    assume "w0 = zero_Wallet \<and> v0 = 0"
    then show ?thesis by (intro exI [of _ 0]) (simp add: replay_def)
  next
    assume b: "snapshots_of ft wid = Some w0 \<and> v0 = w_Version w0"
    then have "prefix_replay L (logs ft wid) w0" by (intro fleet_invD(10) [OF inv]) simp
    then obtain k where "k \<le> length (logs ft wid)" "w0 = replay L (take k (logs ft wid))" by (rule prefix_replayE)
    then show ?thesis using b numbered_version [OF fleet_invD(8) [OF inv]] by metis
  qed
  then show "pc_ok L (logs ft) (ft_done ft) c (calls c) (ft_jobs ft c) (cl_pc (ft_cl ft) c) (Loading w0 v0)"
    using fleet_invD(3) [OF inv, of c] pc call by simp
qed

lemma fleet_inv_answer:
  assumes inv: "fleet_inv L calls n lg0 ft" and pc: "ft_pc ft c = Appending w"
    and fin: "cl_pc (ft_cl ft) c = Finished (Inr ())"
  shows "fleet_inv L calls n lg0 (move ft c (Returned (Inr w)))"
    and "fleet_inv L calls n lg0 (save_row ft now w)"
    and "fleet_inv L calls n lg0 (move (save_row ft now w) c (Returned (Inr w)))"
proof -
  have ok: "(c, w) \<in> set (ft_done ft)" "prefix_replay L (logs ft (w_ID w)) (stored w)"
    using fleet_invD(3) [OF inv, of c] pc fin by simp_all
  then show "fleet_inv L calls n lg0 (move ft c (Returned (Inr w)))" by (intro fleet_inv_move [OF inv]) simp
  show saved: "fleet_inv L calls n lg0 (save_row ft now w)" by (rule fleet_inv_save [OF inv ok(2)])
  show "fleet_inv L calls n lg0 (move (save_row ft now w) c (Returned (Inr w)))"
    by (rule fleet_inv_move [OF saved]) (simp add: ok)
qed

lemma call_step_inv:
  assumes step: "call_step L calls c ft ft'" and inv: "fleet_inv L calls n lg0 ft" and c: "c < n"
    and L: "uuid_laws L" and room: "\<And>wid. int (length (lg0 wid) + n) < 2 ^ 63"
  shows "fleet_inv L calls n lg0 ft'"
proof -
  note here = fleet_invD(3) [OF inv, of c]
  have job: "job_ok (ft_jobs ft c)" and free: "\<not> took_effect (ft_done ft) c"
    if "ft_pc ft c = Appending w" "append_step (ft_jobs ft) c (ft_cl ft) cl'" for w cl'
  proof -
    show free: "\<not> took_effect (ft_done ft) c" using here that(1) append_step_others(2) [OF that(2)] by simp
    have "job_of L (logs ft) (calls c) (ft_jobs ft c) w" using here that(1) by simp
    then show "job_ok (ft_jobs ft c)"
      using job_of_ok [OF _ fleet_invD(2) [OF inv] L fleet_room [OF inv room c free]] by blast
  qed
  show ?thesis
    using step
  proof cases
    case (create u currency t w t')
    then have "job_of L (logs ft) (calls c) \<lparr>jb_Wallet = w_ID w, jb_Events = Wallet_Changes w, jb_Expected = 0\<rparr> w"
      by auto
    then show ?thesis unfolding create(1) using here create(2) by (intro fleet_inv_hand_over [OF inv]) simp_all
  next
    case (snapshot wid row w)
    then show ?thesis using fleet_inv_snapshot [OF inv snapshot(2,3), of w "w_Version w"] by (simp add: snapshots_of_def)
  next
    case (no_snapshot wid)
    then show ?thesis using fleet_inv_snapshot [OF inv no_snapshot(2,3)] by simp
  next
    case (balance w0 v0 wid w)
    have "call_wallet (calls c) = Some wid" using balance(3) by simp
    note load = loaded_now [OF inv balance(2) this]
    have "call_done (calls c) w (accounts L (logs ft)) (accounts L (logs ft))"
      using load balance(3-5) by (simp add: accounts_def)
    then show ?thesis unfolding balance(1) using here balance(2) by (intro fleet_inv_read [OF inv c]) simp_all
  next
    case (command w0 v0 wid cmd w t w' t')
    have "call_wallet (calls c) = Some wid" using command(3) by simp
    note load = loaded_now [OF inv command(2) this]
    let ?k = "length (logs ft wid)"
    have w: "w = replay L (take ?k (logs ft wid))" and ne: "logs ft wid \<noteq> []" using load command(4,5) by simp_all
    have "w_Version w = of_nat ?k" unfolding w by (rule numbered_version [OF fleet_invD(8) [OF inv]]) simp
    moreover have "0 < ?k" using ne by simp
    ultimately have "job_of L (logs ft) (calls c)
        \<lparr>jb_Wallet = wid, jb_Events = Wallet_Changes w', jb_Expected = w_Version w\<rparr> w'"
      using command(6,7) w unfolding command(3) job_of.simps by (metis order_refl)
    then show ?thesis unfolding command(1) using here command(2) by (intro fleet_inv_hand_over [OF inv]) simp_all
  next
    case (append w cl')
    then show ?thesis using fleet_inv_append [OF inv append(2,3) job [OF append(2,3)] append(4)] by simp
  next
    case (append_commit w cl')
    note room' = fleet_room [OF inv room c free [OF append_commit(2,3)]]
    show ?thesis unfolding append_commit(1)
      by (rule fleet_inv_commit [OF inv c append_commit(2,3) job [OF append_commit(2,3)] append_commit(4) L room'])
  next
    case (answer w)
    then show ?thesis using fleet_inv_answer(1) [OF inv answer(2,3)] by simp
  next
    case (save w now)
    then show ?thesis using fleet_inv_answer(3) [OF inv save(2,3)] by simp
  next
    case (save_lost w now e)
    then show ?thesis using fleet_inv_failed [OF fleet_inv_answer(2) [OF inv save_lost(2,3)]] by simp
  qed (use fleet_inv_failed [OF inv] in simp_all)
qed

lemma fleet_start_inv:
  assumes "rows_ok rows" and coh: "coherent L (table_log rows) (snapshots_of (fleet_start rows snapshots))"
  shows "fleet_inv L calls n (table_log rows) (fleet_start rows snapshots)"
  using assms by (simp add: fleet_inv_def fleet_start_def start_def logs_def cluster_inv_def serial_Nil)

lemma fleet_steps_inv:
  assumes "(fleet_step L calls n)\<^sup>*\<^sup>* ft ft'" and "fleet_inv L calls n lg0 ft"
    and "uuid_laws L" and "\<And>wid. int (length (lg0 wid) + n) < 2 ^ 63"
  shows "fleet_inv L calls n lg0 ft'"
  using assms(1)
proof (induction rule: rtranclp_induct)
  case (step ft1 ft2)
  from step(2) show ?case by cases (rule call_step_inv [OF _ step(3) _ assms(3,4)])
qed (rule assms(2))

section \<open>Linearizability\<close>

lemma call_step_done: "call_step L calls c ft ft' \<Longrightarrow> \<exists>ys. ft_done ft' = ft_done ft @ ys"
  by (induction rule: call_step.induct) auto

lemma fleet_steps_done: "(fleet_step L calls n)\<^sup>*\<^sup>* ft ft' \<Longrightarrow> \<exists>ys. ft_done ft' = ft_done ft @ ys"
proof (induction rule: rtranclp_induct)
  case (step ft1 ft2)
  then show ?case using call_step_done by (metis append.assoc fleet_step.cases)
qed simp


section \<open>No overdraft, whatever the interleaving\<close>

fun call_sane :: "wallet_call \<Rightarrow> bool" where
  "call_sane (CallUpdate wid cmd) \<longleftrightarrow> cmd_sane cmd"
| "call_sane _ \<longleftrightarrow> True"

fun call_credit :: "wallet_call \<Rightarrow> int" where
  "call_credit (CallUpdate wid cmd) = cmd_credit cmd"
| "call_credit _ = 0"

lemma call_credit_nonneg: "call_sane call \<Longrightarrow> 0 \<le> call_credit call"
  by (cases call) (simp_all add: cmd_credit_nonneg)

lemma spec_cmd_available:
  assumes "cmd_sane cmd" "0 \<le> sint (Wallet_AvailableBalance w)"
    "sint (Wallet_AvailableBalance w) + cmd_credit cmd < 2 ^ 63" "spec_cmd cmd w = Inr w'"
  shows "0 \<le> sint (Wallet_AvailableBalance w')
    \<and> sint (Wallet_AvailableBalance w') \<le> sint (Wallet_AvailableBalance w) + cmd_credit cmd"
proof -
  obtain r t where run: "Wallet_cmd cmd w sample_wallet_db = (r, t)" by fastforce
  then obtain e where r: "r = Inr (w'\<lparr>w_changes := w_changes w @ [e]\<rparr>)"
    using Wallet_cmd_spec [OF run] assms(4) by auto
  show ?thesis using Wallet_cmd_available [OF assms(1-3) run [unfolded r]] by (simp add: Wallet_AvailableBalance_def)
qed

text \<open>The available balances of all accounts lie between 0 and \<open>B\<close>.\<close>

definition balances_within :: "int \<Rightarrow> (uuid \<Rightarrow> wallet option) \<Rightarrow> bool" where
  "balances_within B acc \<longleftrightarrow> (\<forall>wid w. acc wid = Some w \<longrightarrow>
     0 \<le> sint (Wallet_AvailableBalance w) \<and> sint (Wallet_AvailableBalance w) \<le> B)"

lemma call_done_within:
  assumes "call_done call w a b" and within: "balances_within B a" and sane: "call_sane call"
    and B: "0 \<le> B" "B + call_credit call < 2 ^ 63"
  shows "balances_within (B + call_credit call) b"
proof (cases call)
  case (CallUpdate wid cmd)
  then obtain w0 w' where w0: "a wid = Some w0" "spec_cmd cmd w0 = Inr w'" "b = a(wid \<mapsto> w')"
    using assms(1) by (auto simp: spec_update_def split: option.splits sum.splits)
  have bal: "0 \<le> sint (Wallet_AvailableBalance w0)" "sint (Wallet_AvailableBalance w0) \<le> B"
    using within w0(1) unfolding balances_within_def by blast+
  have cmd: "cmd_sane cmd" and credit: "call_credit call = cmd_credit cmd" using sane CallUpdate by simp_all
  have "sint (Wallet_AvailableBalance w0) + cmd_credit cmd < 2 ^ 63" using bal B credit by linarith
  note new = spec_cmd_available [OF cmd bal(1) this w0(2)]
  have "0 \<le> cmd_credit cmd" by (rule cmd_credit_nonneg [OF cmd])
  then have le: "sint (Wallet_AvailableBalance w') \<le> B + cmd_credit cmd" "B \<le> B + cmd_credit cmd"
    using new bal(2) by linarith+
  show ?thesis
    unfolding balances_within_def credit
  proof (intro allI impI)
    fix x v
    assume "b x = Some v"
    then have "v = w' \<or> a x = Some v" unfolding w0(3) by (auto split: if_splits)
    then show "0 \<le> sint (Wallet_AvailableBalance v) \<and> sint (Wallet_AvailableBalance v) \<le> B + cmd_credit cmd"
      using le new within order_trans unfolding balances_within_def by blast
  qed
next
  case (CallCreate u currency)
  then show ?thesis using assms(1) within B
    by (auto simp: created_def balances_within_def new_account_def Wallet_AvailableBalance_def)
next
  case (CallBalance wid)
  then show ?thesis using assms(1) within by simp
qed

lemma serial_within:
  assumes "serial calls a xs b" and within: "balances_within B a" and B: "0 \<le> B"
    and sane: "\<And>c. c \<in> fst ` set xs \<Longrightarrow> call_sane (calls c)"
    and max: "B + (\<Sum>(c, w) \<leftarrow> xs. call_credit (calls c)) < 2 ^ 63"
  shows "balances_within (B + (\<Sum>(c, w) \<leftarrow> xs. call_credit (calls c))) b"
  using assms(1) sane max
proof (induction rule: serial.induct)
  case serial_Nil
  then show ?case using within by simp
next
  case (serial_snoc xs b c w b')
  let ?S = "\<Sum>(c, w) \<leftarrow> xs. call_credit (calls c)"
  have sane: "call_sane (calls c)" "\<And>c. c \<in> fst ` set xs \<Longrightarrow> call_sane (calls c)" using serial_snoc.prems(1) by simp_all
  have "0 \<le> ?S" by (rule sum_list_nonneg) (use sane(2) in \<open>force intro: call_credit_nonneg\<close>)
  moreover have "0 \<le> call_credit (calls c)" by (rule call_credit_nonneg [OF sane(1)])
  ultimately have S: "0 \<le> B + ?S" "B + ?S < 2 ^ 63" "(B + ?S) + call_credit (calls c) < 2 ^ 63"
    using B serial_snoc.prems(2) by simp_all
  have "balances_within (B + ?S) b" by (rule serial_snoc.IH [OF sane(2) S(2)])
  from call_done_within [OF serial_snoc.hyps(2) this sane(1) S(1,3)] show ?case by (simp add: add.assoc)
qed


section \<open>A run\<close>

text \<open>Steps of one caller leave the others where they are; outside \<open>AppendEvents\<close> a caller holds no rows.\<close>

lemma call_step_frame:
  assumes "call_step L calls c ft ft'"
  shows "d \<noteq> c \<Longrightarrow> ft_pc ft' d = ft_pc ft d \<and> cl_pc (ft_cl ft') d = cl_pc (ft_cl ft) d"
  using assms by cases (simp_all add: append_step_others)

definition holds_none :: "fleet \<Rightarrow> nat \<Rightarrow> bool" where
  "holds_none ft c \<longleftrightarrow> pc_own (cl_pc (ft_cl ft) c) = [] \<or> (\<exists>w. ft_pc ft c = Appending w)"

lemma call_step_holds: "call_step L calls c ft ft' \<Longrightarrow> holds_none ft c \<Longrightarrow> holds_none ft' c"
  by (induction rule: call_step.induct) (auto simp: holds_none_def)

lemma call_steps_run:
  assumes "(call_step L calls c)\<^sup>*\<^sup>* ft ft'" and "c < n" and "holds_none ft c"
  shows "(fleet_step L calls n)\<^sup>*\<^sup>* ft ft' \<and> holds_none ft' c
    \<and> (\<forall>d. d \<noteq> c \<longrightarrow> ft_pc ft' d = ft_pc ft d \<and> cl_pc (ft_cl ft') d = cl_pc (ft_cl ft) d)"
  using assms(1)
proof (induction rule: rtranclp_induct)
  case (step ft1 ft2)
  have "fleet_step L calls n ft1 ft2" using assms(2) step(2) by (rule fleet_step.intros)
  then show ?case
    using step call_step_frame [OF step(2)] call_step_holds [OF step(2)] by (auto intro: rtranclp.rtrancl_into_rtrancl)
qed (use assms in simp)

definition sample_loaded :: wallet where
  "sample_loaded = Wallet_Reconstitute (rt_lib sample_wallet_db) zero_Wallet
     (sort_key (\<lambda>e. sint (ev_Version e)) (filter (\<lambda>e. ev_WalletID e = 2 \<and> sint (0 :: i64) < sint (ev_Version e))
        (wallet_events (snd sample_create))))"

definition sample_deposit :: "(goerr + wallet) \<times> wallet_db" where
  "sample_deposit = go_bind (Wallet_cmd (CmdDeposit 10 ''d'') sample_loaded) (\<lambda>w.
      go_bind (EventStore_AppendEvents 2 (Wallet_Changes w) (w_Version sample_loaded)) (\<lambda>_.
      go_bind (WalletService_maybeSnapshot SnapshotStore_postgres w) (\<lambda>_. go_return w))) (snd sample_create)"

lemma sample_deposit_run:
  "case fst sample_deposit of Inl e \<Rightarrow> False | Inr w \<Rightarrow> w_ID w = 2 \<and> w_BalanceCents w = 10 \<and> w_Reserved w = 0"
  by code_simp

lemma create_keeps_lib:
  assumes "svc_call EventStore_postgres SnapshotStore_postgres (CallCreate u currency) (s :: wallet_db) = (r, s')"
  shows "rt_lib s' = rt_lib s"
proof -
  obtain q s1 where new: "NewWallet u currency s = (q, s1)" by fastforce
  have s1: "rt_lib s1 = rt_lib s"
    using new by (auto simp: NewWallet_def uuid_New_def time_Now_def go_simps split: if_splits)
  show ?thesis
  proof (cases q)
    case (Inl e)
    then show ?thesis using assms new s1 by (simp add: go_simps)
  next
    case (Inr w)
    obtain q2 s2 where app: "EventStore_AppendEvents (w_ID w) (Wallet_Changes w) 0 s1 = (q2, s2)" by fastforce
    then have "rt_lib s2 = rt_lib s1" by (cases rule: AppendEvents_cases) (auto elim!: only_tickE)
    then show ?thesis using assms new app Inr s1 by (auto simp: postgres_stores go_simps split: sum.splits)
  qed
qed

lemma sample_interleaving:
  obtains ft a b where "(fleet_step sample_lib sample_calls 2)\<^sup>*\<^sup>* (fleet_start [] (\<lambda>_. None)) ft"
    "ft_pc ft 0 = Returned (Inr a)" "ft_pc ft 1 = Returned (Inr b)" "w_BalanceCents b = 10" "w_Reserved b = 0"
    "same_tables ft (snd sample_deposit)"
proof -
  let ?ft0 = "fleet_start [] (\<lambda>_. None)" and ?steps = "\<lambda>c. (call_step sample_lib sample_calls c)\<^sup>*\<^sup>*"
  let ?ft1 = "move ?ft0 1 (Loading zero_Wallet 0)"
  obtain a where "fst sample_create = Inr a" using sample_create_run by (auto split: sum.splits)
  then obtain s1 where create: "sample_create = (Inr a, s1)" and s1: "snd sample_create = s1" by (metis prod.collapse)
  obtain b where "fst sample_deposit = Inr b" and b: "w_BalanceCents b = 10" "w_Reserved b = 0"
    using sample_deposit_run by (auto split: sum.splits)
  then obtain s2 where deposit: "sample_deposit = (Inr b, s2)" by (metis prod.collapse)
  have start: "same_tables ?ft0 sample_wallet_db" "ft_pc ?ft0 c = Called" "cl_pc (ft_cl ?ft0) c = Reading" for c
    using sample_start(1) by simp_all
  note L = sample_start(2)
  have "call_step sample_lib sample_calls 1 ?ft0 ?ft1"
    by (rule call_step.no_snapshot) (simp_all add: start sample_calls_def)
  then have to1: "(fleet_step sample_lib sample_calls 2)\<^sup>*\<^sup>* ?ft0 ?ft1"
    by (intro r_into_rtranclp fleet_step.intros [of 1]) simp_all
  have "\<exists>ft. (call_step (rt_lib sample_wallet_db) sample_calls 0)\<^sup>*\<^sup>* ?ft1 ft \<and> ft_pc ft 0 = Returned (Inr a) \<and> same_tables ft s1"
    by (rule create_in_steps [where u = 5 and currency = "''BRL''"])
      (use create start in \<open>simp_all add: sample_create_def sample_calls_def quiet_def del: svc_call.simps\<close>)
  then obtain ft2 where ft2: "?steps 0 ?ft1 ft2" "ft_pc ft2 0 = Returned (Inr a)" "same_tables ft2 s1"
    unfolding L by blast
  have frame2: "(fleet_step sample_lib sample_calls 2)\<^sup>*\<^sup>* ?ft1 ft2" "holds_none ft2 0"
    "ft_pc ft2 1 = Loading zero_Wallet 0" "\<And>d. d \<noteq> 0 \<Longrightarrow> cl_pc (ft_cl ft2) d = Reading"
    using call_steps_run [OF ft2(1), of 2] start by (simp_all add: holds_none_def)
  have quiet: "quiet (ft_cl ft2) 1"
    unfolding quiet_def using frame2(2,4) ft2(2) by (metis append_pc.distinct(1) call_pc.distinct(11) holds_none_def pc_own.simps(2))
  have ev: "events_after ft2 2 0 = sort_key (\<lambda>e. sint (ev_Version e))
      (filter (\<lambda>e. ev_WalletID e = 2 \<and> sint (0 :: i64) < sint (ev_Version e)) (wallet_events s1))"
    using ft2(3) by (simp add: events_after_def same_tables_def)
  have "events_after ft2 2 0 \<noteq> []"
    unfolding ev using sample_create_events [unfolded s1] by (cases "wallet_events s1") auto
  then have there: "\<not> (events_after ft2 2 0 = [] \<and> (0 :: i64) = 0)"
    "sample_loaded = Wallet_Reconstitute sample_lib zero_Wallet (events_after ft2 2 0)"
    unfolding ev sample_loaded_def L s1 by simp_all
  have L1: "rt_lib s1 = sample_lib"
    using create_keeps_lib [of 5 "''BRL''" sample_wallet_db] create L
    by (simp add: sample_create_def sample_calls_def del: svc_call.simps)
  have "\<exists>ft. ?steps 1 ft2 ft \<and> ft_pc ft 1 = Returned (Inr b) \<and> same_tables ft s2"
    by (rule command_in_steps [OF _ frame2(3) _ L1 there ft2(3) frame2(4) quiet, where cmd = "CmdDeposit 10 ''d''"])
      (use deposit in \<open>simp_all add: sample_deposit_def s1 sample_calls_def\<close>)
  then obtain ft3 where ft3: "?steps 1 ft2 ft3" "ft_pc ft3 1 = Returned (Inr b)" "same_tables ft3 s2" by blast
  have "holds_none ft2 1" using frame2(4) [of 1] by (simp add: holds_none_def)
  then have "(fleet_step sample_lib sample_calls 2)\<^sup>*\<^sup>* ft2 ft3" "ft_pc ft3 0 = Returned (Inr a)"
    using call_steps_run [OF ft3(1), of 2] ft2(2) by simp_all
  moreover from this(1) have "(fleet_step sample_lib sample_calls 2)\<^sup>*\<^sup>* ?ft0 ft3" using to1 frame2(1) by simp
  moreover have "snd sample_deposit = s2" by (simp add: deposit)
  ultimately show thesis using ft3(2,3) b by (intro that [of ft3 a b]) simp_all
qed

lemma sample_deposit_events: "map ev_WalletID (wallet_events (snd sample_deposit)) = [2, 2]"
  by code_simp

lemma sample_coherent: "rows_ok []" "coherent L (table_log []) (snapshots_of (fleet_start [] (\<lambda>_. None)))"
  by (simp_all add: rows_ok_def table_inv_def table_log_def coherent_def numbered_def own_log_def snapshots_of_def)



end
