(* ===== verification/WalletSaga.thy ===== *)
theory WalletSaga
  imports WalletCorrect
begin

text \<open>
  The wallet's part of the transfer saga: \<open>adapters/inbound/kafka/saga_handler.go\<close> and the outbox
  payloads of \<open>domain/outbox.go\<close>. A record of the topic \<open>transactions\<close> is handled once per event
  identifier: reserve at the source when the transaction starts, credit the destination when it
  completes, tell the others through the outbox, remember the event.
\<close>

section \<open>Outbox payloads (domain/outbox.go)\<close>

definition OutboxFundsReserved :: string where "OutboxFundsReserved = ''FundsReserved''"
definition OutboxFundsReleased :: string where "OutboxFundsReleased = ''FundsReleased''"
definition OutboxFundsDeposited :: string where "OutboxFundsDeposited = ''FundsDeposited''"

record OutboxFundsReservedPayload =
  ofr_WalletID :: uuid
  ofr_TransactionID :: uuid
  ofr_AmountCents :: i64

record OutboxFundsDepositedPayload =
  ofd_WalletID :: uuid
  ofd_TransactionID :: uuid
  ofd_AmountCents :: i64

definition OutboxFundsReservedPayload_Marshal :: "lib \<Rightarrow> OutboxFundsReservedPayload \<Rightarrow> json" where
  "OutboxFundsReservedPayload_Marshal L p =
     JObj [(''wallet_id'', json_uuid L (ofr_WalletID p)),
           (''transaction_id'', json_uuid L (ofr_TransactionID p)),
           (''amount_cents'', json_int64 (ofr_AmountCents p))]"

definition OutboxFundsDepositedPayload_Marshal :: "lib \<Rightarrow> OutboxFundsDepositedPayload \<Rightarrow> json" where
  "OutboxFundsDepositedPayload_Marshal L p =
     JObj [(''wallet_id'', json_uuid L (ofd_WalletID p)),
           (''transaction_id'', json_uuid L (ofd_TransactionID p)),
           (''amount_cents'', json_int64 (ofd_AmountCents p))]"

section \<open>The handler (saga_handler.go)\<close>

definition topicWalletEvents :: string where "topicWalletEvents = ''wallet-events''"

record transactionInitiatedPayload =
  ti_TransactionID :: uuid
  ti_SourceWalletID :: uuid
  ti_DestinationWalletID :: uuid
  ti_AmountCents :: i64

definition zero_transactionInitiatedPayload :: transactionInitiatedPayload where
  "zero_transactionInitiatedPayload =
     \<lparr>ti_TransactionID = uuid_Nil, ti_SourceWalletID = uuid_Nil, ti_DestinationWalletID = uuid_Nil,
      ti_AmountCents = 0\<rparr>"

definition transactionInitiatedPayload_field ::
  "lib \<Rightarrow> transactionInitiatedPayload \<Rightarrow> string \<Rightarrow> json \<Rightarrow> transactionInitiatedPayload jstep"
where
  "transactionInitiatedPayload_field L p k v =
     (if name_match k ''transaction_id'' then jf_uuid L (\<lambda>u p. p\<lparr>ti_TransactionID := u\<rparr>) v p
      else if name_match k ''source_wallet_id'' then jf_uuid L (\<lambda>u p. p\<lparr>ti_SourceWalletID := u\<rparr>) v p
      else if name_match k ''destination_wallet_id'' then jf_uuid L (\<lambda>u p. p\<lparr>ti_DestinationWalletID := u\<rparr>) v p
      else if name_match k ''amount_cents'' then jf_int64 (\<lambda>n p. p\<lparr>ti_AmountCents := n\<rparr>) v p
      else JKeep)"

text \<open>\<open>transactionCompletedPayload\<close> has the same fields and the same tags.\<close>

type_synonym transactionCompletedPayload = transactionInitiatedPayload

definition SagaHandler_handleTransactionInitiated ::
  "'a rt_scheme EventStore \<Rightarrow> 'a rt_scheme SnapshotStore \<Rightarrow> 'a rt_scheme OutboxRepository \<Rightarrow> json option
     \<Rightarrow> ('a rt_scheme, unit) go"
where
  "SagaHandler_handleTransactionInitiated es ss outbox data =
     go_bind (go_gets rt_lib) (\<lambda>L.
     go_bind (go_unmarshal (json_Unmarshal (transactionInitiatedPayload_field L)
        zero_transactionInitiatedPayload data)) (\<lambda>p.
     go_bind (WalletService_ReserveForTransaction es ss (ti_SourceWalletID p) (ti_AmountCents p)
        (ti_TransactionID p)) (\<lambda>_.
     go_bind uuid_New (\<lambda>eid.
     go_bind time_Now (\<lambda>now.
     OutboxSave outbox
       \<lparr>oe_ID = eid, oe_Topic = topicWalletEvents, oe_Key = uuid_String L (ti_SourceWalletID p),
        oe_Payload = OutboxFundsReservedPayload_Marshal L
          \<lparr>ofr_WalletID = ti_SourceWalletID p, ofr_TransactionID = ti_TransactionID p,
           ofr_AmountCents = ti_AmountCents p\<rparr>,
        oe_EventType = OutboxFundsReserved, oe_PublishedAt = None, oe_CreatedAt = now\<rparr>)))))"

definition SagaHandler_handleTransactionCompleted ::
  "'a rt_scheme EventStore \<Rightarrow> 'a rt_scheme SnapshotStore \<Rightarrow> 'a rt_scheme OutboxRepository \<Rightarrow> json option
     \<Rightarrow> ('a rt_scheme, unit) go"
where
  "SagaHandler_handleTransactionCompleted es ss outbox data =
     go_bind (go_gets rt_lib) (\<lambda>L.
     go_bind (go_unmarshal (json_Unmarshal (transactionInitiatedPayload_field L)
        zero_transactionInitiatedPayload data)) (\<lambda>p.
     go_bind (WalletService_CreditForTransaction es ss (ti_DestinationWalletID p) (ti_AmountCents p)
        (ti_TransactionID p)) (\<lambda>_.
     go_bind uuid_New (\<lambda>eid.
     go_bind time_Now (\<lambda>now.
     OutboxSave outbox
       \<lparr>oe_ID = eid, oe_Topic = topicWalletEvents, oe_Key = uuid_String L (ti_DestinationWalletID p),
        oe_Payload = OutboxFundsDepositedPayload_Marshal L
          \<lparr>ofd_WalletID = ti_DestinationWalletID p, ofd_TransactionID = ti_TransactionID p,
           ofd_AmountCents = ti_AmountCents p\<rparr>,
        oe_EventType = OutboxFundsDeposited, oe_PublishedAt = None, oe_CreatedAt = now\<rparr>)))))"

definition SagaHandler_Handle ::
  "'a rt_scheme EventStore \<Rightarrow> 'a rt_scheme SnapshotStore \<Rightarrow> 'a rt_scheme ProcessedEventRepository
     \<Rightarrow> 'a rt_scheme OutboxRepository \<Rightarrow> kafka_record \<Rightarrow> ('a rt_scheme, unit) go"
where
  "SagaHandler_Handle es ss processed outbox record =
     (let eventType = headerValue (kr_Headers record) ''event_type'';
          rawEventID = headerValue (kr_Headers record) ''event_id''
      in go_bind (go_gets rt_lib) (\<lambda>L.
         case uuid_Parse L rawEventID of
           Inl _ \<Rightarrow> go_return ()
         | Inr eventID \<Rightarrow>
             go_bind (IsProcessed processed eventID) (\<lambda>already.
             if already then go_return ()
             else if eventType = ''TransactionInitiated'' then
               go_bind (SagaHandler_handleTransactionInitiated es ss outbox (kr_Value record)) (\<lambda>_.
               MarkProcessed processed eventID)
             else if eventType = ''TransactionCompleted'' then
               go_bind (SagaHandler_handleTransactionCompleted es ss outbox (kr_Value record)) (\<lambda>_.
               MarkProcessed processed eventID)
             else go_return ())))"

section \<open>What a step of the saga does\<close>

text \<open>
  The accounts and the outbox, before and after a step with command \<open>c\<close> that writes a row like
  \<open>isrow\<close>: nothing happened; or the command was done, and the row was written or not. Nil is
  returned only if both were done.
\<close>

definition saga_outcome ::
  "wallet_cmd \<Rightarrow> uuid \<Rightarrow> (outbox_event \<Rightarrow> bool) \<Rightarrow> (uuid \<Rightarrow> wallet option) \<times> outbox_event list
     \<Rightarrow> goerr + unit \<Rightarrow> (uuid \<Rightarrow> wallet option) \<times> outbox_event list \<Rightarrow> bool"
where
  "saga_outcome c wid isrow v r v' \<longleftrightarrow>
     (v' = v \<and> r \<noteq> Inr ())
     \<or> (spec_update c wid (fst v) = Inr (fst v')
        \<and> (snd v' = snd v \<and> r \<noteq> Inr () \<or> (\<exists>row. isrow row \<and> snd v' = snd v @ [row])))"

definition reserved_row :: "lib \<Rightarrow> transactionInitiatedPayload \<Rightarrow> outbox_event \<Rightarrow> bool" where
  "reserved_row L p row \<longleftrightarrow>
     oe_Topic row = topicWalletEvents \<and> oe_Key row = uuid_String L (ti_SourceWalletID p)
     \<and> oe_EventType row = OutboxFundsReserved \<and> oe_PublishedAt row = None
     \<and> oe_Payload row = OutboxFundsReservedPayload_Marshal L
          \<lparr>ofr_WalletID = ti_SourceWalletID p, ofr_TransactionID = ti_TransactionID p,
           ofr_AmountCents = ti_AmountCents p\<rparr>"

definition deposited_row :: "lib \<Rightarrow> transactionInitiatedPayload \<Rightarrow> outbox_event \<Rightarrow> bool" where
  "deposited_row L p row \<longleftrightarrow>
     oe_Topic row = topicWalletEvents \<and> oe_Key row = uuid_String L (ti_DestinationWalletID p)
     \<and> oe_EventType row = OutboxFundsDeposited \<and> oe_PublishedAt row = None
     \<and> oe_Payload row = OutboxFundsDepositedPayload_Marshal L
          \<lparr>ofd_WalletID = ti_DestinationWalletID p, ofd_TransactionID = ti_TransactionID p,
           ofd_AmountCents = ti_AmountCents p\<rparr>"

text \<open>The three stores of one database: each leaves the tables of the others alone.\<close>

locale saga_stores =
  w: wallet_store es ss log snaps inv wrest +
  o: outbox_table ob rows orest +
  p: processed_table pe seen prest
  for es :: "'a rt_scheme EventStore" and ss :: "'a rt_scheme SnapshotStore"
    and log :: "'a rt_scheme \<Rightarrow> uuid \<Rightarrow> event list" and snaps :: "'a rt_scheme \<Rightarrow> uuid \<Rightarrow> wallet option"
    and inv :: "'a rt_scheme \<Rightarrow> bool" and wrest :: "'a rt_scheme \<Rightarrow> 'r"
    and ob :: "'a rt_scheme OutboxRepository" and rows :: "'a rt_scheme \<Rightarrow> outbox_event list"
    and orest :: "'a rt_scheme \<Rightarrow> 'q"
    and pe :: "'a rt_scheme ProcessedEventRepository" and seen :: "'a rt_scheme \<Rightarrow> uuid set"
    and prest :: "'a rt_scheme \<Rightarrow> 't" +
  assumes wallet_frame: "wrest t = wrest s \<Longrightarrow> rows t = rows s \<and> seen t = seen s"
    and outbox_frame: "orest t = orest s \<Longrightarrow>
          log t = log s \<and> snaps t = snaps s \<and> inv t = inv s \<and> seen t = seen s"
    and processed_frame: "prest t = prest s \<Longrightarrow>
          log t = log s \<and> snaps t = snaps s \<and> inv t = inv s \<and> rows t = rows s"

context saga_stores
begin

definition view :: "'a rt_scheme \<Rightarrow> (uuid \<Rightarrow> wallet option) \<times> outbox_event list" where
  "view s = (accounts (rt_lib s) (log s), rows s)"

text \<open>How much of the world a step may touch and still leave it well formed.\<close>

definition safe_step :: "'a rt_scheme \<Rightarrow> 'a rt_scheme \<Rightarrow> bool" where
  "safe_step s t \<longleftrightarrow> w.store_ok t \<and> env_step s t"

lemma tick_step:
  assumes "only_tick s t"
  shows "view t = view s" "seen t = seen s" "log t = log s" "w.store_ok s \<Longrightarrow> safe_step s t"
  using assms by (auto elim!: only_tickE simp: view_def safe_step_def)

lemma outbox_step:
  assumes run: "OutboxSave ob e s = (r, t)" and ok: "w.store_ok s"
  shows "safe_step s t \<and> seen t = seen s \<and> fst (view t) = fst (view s)
    \<and> (rows t = rows s \<and> r \<noteq> Inr () \<or> rows t = rows s @ [e\<lparr>oe_PublishedAt := None\<rparr>])"
proof -
  have eff: "env_step s t" "orest t = orest s" "rows t = rows s \<or> rows t = rows s @ [e\<lparr>oe_PublishedAt := None\<rparr>]"
    using o.save_effect [OF run] by blast+
  have "r = Inr () \<Longrightarrow> rows t = rows s @ [e\<lparr>oe_PublishedAt := None\<rparr>]"
    using o.save_ok [of e s "()" t] run by simp
  moreover have "rt_lib t = rt_lib s" using eff(1) by (rule env_step_lib)
  ultimately show ?thesis
    using eff outbox_frame [OF eff(2)] ok by (auto simp: safe_step_def view_def w.store_ok_def)
qed

lemma mark_step:
  assumes run: "MarkProcessed pe i s = (r, t)" and ok: "w.store_ok s"
  shows "safe_step s t \<and> view t = view s
    \<and> (seen t = seen s \<and> r \<noteq> Inr () \<or> seen t = insert i (seen s))"
proof -
  have eff: "env_step s t" "prest t = prest s" "seen t = seen s \<or> seen t = insert i (seen s)"
    using p.mark_effect [OF run] by blast+
  have "r = Inr () \<Longrightarrow> seen t = insert i (seen s)" using p.mark_ok [of i s "()" t] run by simp
  moreover have "rt_lib t = rt_lib s" using eff(1) by (rule env_step_lib)
  ultimately show ?thesis
    using eff processed_frame [OF eff(2)] ok by (auto simp: safe_step_def view_def w.store_ok_def)
qed

lemma command_step:
  assumes ok: "w.store_ok s" and room: "int (Suc (length (log s wid))) < 2 ^ 63"
    and row: "\<And>eid now. isrow ((mk eid now)\<lparr>oe_PublishedAt := None\<rparr>)"
    and run: "go_bind (go_map (\<lambda>_. ()) (svc_update es ss wid c)) (\<lambda>_.
        go_bind uuid_New (\<lambda>eid. go_bind time_Now (\<lambda>now. OutboxSave ob (mk eid now)))) s = (r, t)"
  shows "safe_step s t \<and> seen t = seen s \<and> saga_outcome c wid isrow (view s) r (view t)"
proof -
  obtain q s1 where up: "svc_update es ss wid c s = (q, s1)" by fastforce
  have eff: "w.store_ok s1" "env_step s s1" "wrest s1 = wrest s"
      "update_outcome (rt_lib s) c wid (log s) q (log s1)"
    using w.update_refines [OF ok room up] by blast+
  have fr: "rows s1 = rows s" "seen s1 = seen s" using wallet_frame [OF eff(3)] by blast+
  have L: "rt_lib s1 = rt_lib s" using eff(2) by (rule env_step_lib)
  show ?thesis
  proof (cases q)
    case (Inl e)
    then have "r = Inl e \<and> t = s1" using run up by (simp add: go_simps go_map_def)
    then show ?thesis
      using eff fr L Inl by (auto simp: safe_step_def saga_outcome_def update_outcome_def view_def)
  next
    case (Inr v)
    let ?s2 = "s1\<lparr>rt_tick := Suc (Suc (rt_tick s1))\<rparr>"
    obtain eid now where "OutboxSave ob (mk eid now) ?s2 = (r, t)"
      using run up Inr by (auto simp: go_simps go_map_def uuid_New_def time_Now_def)
    from outbox_step [OF this] eff(1) have ob: "safe_step ?s2 t" "seen t = seen s1" "fst (view t) = fst (view ?s2)"
      "rows t = rows s1 \<and> r \<noteq> Inr () \<or> rows t = rows s1 @ [(mk eid now)\<lparr>oe_PublishedAt := None\<rparr>]"
      by simp_all
    have "env_step s t"
      using ob(1) eff(2) by (auto simp: safe_step_def env_step_def)
    moreover have "spec_update c wid (fst (view s)) = Inr (fst (view t))"
      using eff(4) Inr ob(3) L by (simp add: view_def update_outcome_def)
    ultimately show ?thesis
      using ob(1,2,4) fr row by (auto simp: saga_outcome_def safe_step_def view_def)
  qed
qed

end

text \<open>A payload that decodes.\<close>

definition decodes :: "lib \<Rightarrow> json option \<Rightarrow> transactionInitiatedPayload \<Rightarrow> bool" where
  "decodes L data p \<longleftrightarrow>
     json_Unmarshal (transactionInitiatedPayload_field L) zero_transactionInitiatedPayload data = (p, None)"

text \<open>What handling an event of identifier \<open>i\<close> did to accounts, outbox and processed events.\<close>

definition handled ::
  "uuid \<Rightarrow> wallet_cmd \<Rightarrow> uuid \<Rightarrow> (outbox_event \<Rightarrow> bool) \<Rightarrow> (uuid \<Rightarrow> wallet option) \<times> outbox_event list
     \<Rightarrow> uuid set \<Rightarrow> goerr + unit \<Rightarrow> (uuid \<Rightarrow> wallet option) \<times> outbox_event list \<Rightarrow> uuid set \<Rightarrow> bool"
where
  "handled i c wid isrow v sn r v' sn' \<longleftrightarrow>
     (sn' = sn \<and> r \<noteq> Inr () \<and> (\<exists>q. saga_outcome c wid isrow v q v'))
     \<or> (sn' = insert i sn \<and> saga_outcome c wid isrow v (Inr ()) v')"

context saga_stores
begin

lemma handle_step:
  assumes ok: "w.store_ok s" and room: "int (Suc (length (log s wid))) < 2 ^ 63" and new: "i \<notin> seen s"
    and row: "\<And>eid now. isrow ((mk eid now)\<lparr>oe_PublishedAt := None\<rparr>)"
    and body: "\<And>s1. rt_lib s1 = rt_lib s \<Longrightarrow> B s1 = go_bind (go_map (\<lambda>_. ()) (svc_update es ss wid c)) (\<lambda>_.
        go_bind uuid_New (\<lambda>eid. go_bind time_Now (\<lambda>now. OutboxSave ob (mk eid now)))) s1"
    and run: "go_bind (IsProcessed pe i) (\<lambda>already. if already then go_return ()
        else go_bind B (\<lambda>_. MarkProcessed pe i)) s = (r, t)"
  shows "safe_step s t \<and> handled i c wid isrow (view s) (seen s) r (view t) (seen t)"
  using run
proof (cases rule: p.processed_guard)
  case duplicate
  then show ?thesis using new by simp
next
  case (unknown e)
  then show ?thesis
    using tick_step [OF unknown(2)] ok by (auto simp: handled_def saga_outcome_def)
next
  case (fresh s1)
  note t1 = tick_step [OF fresh(2)]
  have ok1: "w.store_ok s1" and step1: "env_step s s1" using t1(4) [OF ok] by (simp_all add: safe_step_def)
  have L1: "rt_lib s1 = rt_lib s" using step1 by (rule env_step_lib)
  obtain q s2 where b: "B s1 = (q, s2)" by fastforce
  have room1: "int (Suc (length (log s1 wid))) < 2 ^ 63" using room t1(3) by simp
  have cmd: "safe_step s1 s2" "seen s2 = seen s" "saga_outcome c wid isrow (view s) q (view s2)"
    using command_step [of s1 wid isrow mk c q s2, OF ok1 room1 row b [unfolded body [OF L1]]] t1(1,2)
    by simp_all
  have step2: "w.store_ok s2" "env_step s s2"
    using cmd(1) step1 env_step_trans by (auto simp: safe_step_def)
  show ?thesis
  proof (cases q)
    case (Inl e)
    then have "r = Inl e \<and> t = s2" using fresh(3) b by (simp add: go_simps)
    then show ?thesis using cmd step2 by (auto simp: handled_def safe_step_def)
  next
    case (Inr u)
    then have "MarkProcessed pe i s2 = (r, t)" using fresh(3) b by (simp add: go_simps)
    from mark_step [OF this step2(1)] have "safe_step s2 t" "view t = view s2"
      "seen t = seen s \<and> r \<noteq> Inr () \<or> seen t = insert i (seen s)" using cmd(2) by simp_all
    then show ?thesis
      using cmd(3) step2(2) Inr env_step_trans by (auto simp: handled_def safe_step_def)
  qed
qed

text \<open>The two events of the saga, and what they have in common.\<close>

lemma handle_event:
  assumes ok: "w.store_ok s" and parse: "uuid_Parse (rt_lib s) (headerValue (kr_Headers rec) ''event_id'') = Inr i"
    and new: "i \<notin> seen s" and dec: "decodes (rt_lib s) (kr_Value rec) p"
    and ev: "(headerValue (kr_Headers rec) ''event_type'', c, wid, isrow) \<in>
       {(''TransactionInitiated'', CmdReserve (ti_AmountCents p) (ti_TransactionID p), ti_SourceWalletID p,
           reserved_row (rt_lib s) p),
        (''TransactionCompleted'', CmdDeposit (ti_AmountCents p) ''saga credit'', ti_DestinationWalletID p,
           deposited_row (rt_lib s) p)}"
    and room: "int (Suc (length (log s wid))) < 2 ^ 63"
    and run: "SagaHandler_Handle es ss pe ob rec s = (r, t)"
  shows "safe_step s t \<and> handled i c wid isrow (view s) (seen s) r (view t) (seen t)"
proof -
  let ?L = "rt_lib s"
  from ev consider (init) "headerValue (kr_Headers rec) ''event_type'' = ''TransactionInitiated''"
      "c = CmdReserve (ti_AmountCents p) (ti_TransactionID p)" "wid = ti_SourceWalletID p"
      "isrow = reserved_row ?L p"
    | (fin) "headerValue (kr_Headers rec) ''event_type'' = ''TransactionCompleted''"
      "c = CmdDeposit (ti_AmountCents p) ''saga credit''" "wid = ti_DestinationWalletID p"
      "isrow = deposited_row ?L p" by auto
  then show ?thesis
  proof cases
    case init
    let ?mk = "\<lambda>eid now. \<lparr>oe_ID = eid, oe_Topic = topicWalletEvents, oe_Key = uuid_String ?L (ti_SourceWalletID p),
        oe_Payload = OutboxFundsReservedPayload_Marshal ?L
          \<lparr>ofr_WalletID = ti_SourceWalletID p, ofr_TransactionID = ti_TransactionID p,
           ofr_AmountCents = ti_AmountCents p\<rparr>,
        oe_EventType = OutboxFundsReserved, oe_PublishedAt = None, oe_CreatedAt = now\<rparr>"
    show ?thesis
    proof (rule handle_step [OF ok room new, where mk = ?mk
          and B = "SagaHandler_handleTransactionInitiated es ss ob (kr_Value rec)"])
      show "isrow ((?mk eid now)\<lparr>oe_PublishedAt := None\<rparr>)" for eid now
        unfolding init by (simp add: reserved_row_def)
      show "SagaHandler_handleTransactionInitiated es ss ob (kr_Value rec) s1
          = go_bind (go_map (\<lambda>_. ()) (svc_update es ss wid c)) (\<lambda>_.
              go_bind uuid_New (\<lambda>eid. go_bind time_Now (\<lambda>now. OutboxSave ob (?mk eid now)))) s1"
        if "rt_lib s1 = ?L" for s1
        using that init dec [unfolded decodes_def]
        by (simp add: SagaHandler_handleTransactionInitiated_def go_bind_def [of "go_gets rt_lib"]
            go_gets_def WalletService_ReserveForTransaction_update)
    qed (use run parse init in \<open>simp_all add: SagaHandler_Handle_def Let_def go_bind_def [of "go_gets rt_lib"]
           go_gets_def cong del: if_weak_cong\<close>)
  next
    case fin
    let ?mk = "\<lambda>eid now. \<lparr>oe_ID = eid, oe_Topic = topicWalletEvents, oe_Key = uuid_String ?L (ti_DestinationWalletID p),
        oe_Payload = OutboxFundsDepositedPayload_Marshal ?L
          \<lparr>ofd_WalletID = ti_DestinationWalletID p, ofd_TransactionID = ti_TransactionID p,
           ofd_AmountCents = ti_AmountCents p\<rparr>,
        oe_EventType = OutboxFundsDeposited, oe_PublishedAt = None, oe_CreatedAt = now\<rparr>"
    show ?thesis
    proof (rule handle_step [OF ok room new, where mk = ?mk
          and B = "SagaHandler_handleTransactionCompleted es ss ob (kr_Value rec)"])
      show "isrow ((?mk eid now)\<lparr>oe_PublishedAt := None\<rparr>)" for eid now
        unfolding fin by (simp add: deposited_row_def)
      show "SagaHandler_handleTransactionCompleted es ss ob (kr_Value rec) s1
          = go_bind (go_map (\<lambda>_. ()) (svc_update es ss wid c)) (\<lambda>_.
              go_bind uuid_New (\<lambda>eid. go_bind time_Now (\<lambda>now. OutboxSave ob (?mk eid now)))) s1"
        if "rt_lib s1 = ?L" for s1
        using that fin dec [unfolded decodes_def]
        by (simp add: SagaHandler_handleTransactionCompleted_def go_bind_def [of "go_gets rt_lib"]
            go_gets_def WalletService_CreditForTransaction_update)
    qed (use run parse fin in \<open>simp_all add: SagaHandler_Handle_def Let_def go_bind_def [of "go_gets rt_lib"]
           go_gets_def cong del: if_weak_cong\<close>)
  qed
qed

lemma handle_duplicate:
  assumes parse: "uuid_Parse (rt_lib s) (headerValue (kr_Headers rec) ''event_id'') = Inr i"
    and seen: "i \<in> seen s" and run: "SagaHandler_Handle es ss pe ob rec s = (r, t)"
  shows "only_tick s t"
proof -
  obtain q s1 where q: "IsProcessed pe i s = (q, s1)" by fastforce
  have "t = s1"
    using run parse q p.is_ok [of i s _ s1] seen
    by (auto simp: SagaHandler_Handle_def Let_def go_simps split: sum.splits)
  then show ?thesis using p.is_effect [OF q] by simp
qed

end

lemma wallet_snaps_cong:
  "wallet_snapshots t = wallet_snapshots s \<Longrightarrow> wallet_snaps t = wallet_snaps s"
  by (rule ext) (simp add: wallet_snaps_def)

interpretation saga_pg: saga_stores EventStore_postgres SnapshotStore_postgres
  wallet_log wallet_snaps wallet_inv wallet_rest
  WalletOutbox_postgres wallet_outbox_events
  "\<lambda>s. (wallet_events s, wallet_snapshots s, processed_events s, wallet_db.more s)"
  WalletProcessed_postgres "\<lambda>s. processed_ids (processed_events s)"
  "\<lambda>s. (wallet_events s, wallet_snapshots s, wallet_outbox_events s, wallet_db.more s)"
  by unfold_locales (auto simp: wallet_rest_def wallet_log_def wallet_inv_def intro!: wallet_snaps_cong)

section \<open>The saga on the wallet's database\<close>

abbreviation wallet_view :: "'a wallet_db_scheme \<Rightarrow> (uuid \<Rightarrow> wallet option) \<times> outbox_event list" where
  "wallet_view s \<equiv> (wallet_accounts s, wallet_outbox_events s)"

abbreviation wallet_seen :: "'a wallet_db_scheme \<Rightarrow> uuid set" where
  "wallet_seen s \<equiv> processed_ids (processed_events s)"

abbreviation saga_Handle :: "kafka_record \<Rightarrow> ('a wallet_db_scheme, unit) go" where
  "saga_Handle \<equiv> SagaHandler_Handle EventStore_postgres SnapshotStore_postgres
     WalletProcessed_postgres WalletOutbox_postgres"

text \<open>The record carries the event \<open>i\<close> of the saga, which asks for the command \<open>c\<close> on the wallet \<open>wid\<close>.\<close>

definition saga_event ::
  "lib \<Rightarrow> kafka_record \<Rightarrow> uuid \<Rightarrow> wallet_cmd \<Rightarrow> uuid \<Rightarrow> (outbox_event \<Rightarrow> bool) \<Rightarrow> bool"
where
  "saga_event L rec i c wid isrow \<longleftrightarrow>
     uuid_Parse L (headerValue (kr_Headers rec) ''event_id'') = Inr i
     \<and> (let (p, err) = json_Unmarshal (transactionInitiatedPayload_field L)
              zero_transactionInitiatedPayload (kr_Value rec);
            typ = headerValue (kr_Headers rec) ''event_type''
        in err = None
           \<and> (typ = ''TransactionInitiated'' \<and> c = CmdReserve (ti_AmountCents p) (ti_TransactionID p)
                \<and> wid = ti_SourceWalletID p \<and> isrow = reserved_row L p
              \<or> typ = ''TransactionCompleted'' \<and> c = CmdDeposit (ti_AmountCents p) ''saga credit''
                \<and> wid = ti_DestinationWalletID p \<and> isrow = deposited_row L p))"

lemma saga_pg_handled:
  assumes "wallet_db_ok s" and "saga_event (rt_lib s) rec i c wid isrow" and "has_room s wid"
    and "i \<notin> wallet_seen s" and "saga_Handle rec s = (r, t)"
  shows "wallet_db_ok t \<and> env_step s t
    \<and> handled i c wid isrow (wallet_view s) (wallet_seen s) r (wallet_view t) (wallet_seen t)"
proof -
  obtain p where p: "decodes (rt_lib s) (kr_Value rec) p"
      "uuid_Parse (rt_lib s) (headerValue (kr_Headers rec) ''event_id'') = Inr i"
      "(headerValue (kr_Headers rec) ''event_type'', c, wid, isrow) \<in>
       {(''TransactionInitiated'', CmdReserve (ti_AmountCents p) (ti_TransactionID p), ti_SourceWalletID p,
           reserved_row (rt_lib s) p),
        (''TransactionCompleted'', CmdDeposit (ti_AmountCents p) ''saga credit'', ti_DestinationWalletID p,
           deposited_row (rt_lib s) p)}"
    using assms(2) unfolding saga_event_def decodes_def
    by (cases "json_Unmarshal (transactionInitiatedPayload_field (rt_lib s))
      zero_transactionInitiatedPayload (kr_Value rec)") (auto simp: Let_def)
  have ok: "wallet_pg.store_ok s" using assms(1) by (simp add: wallet_db_ok_store)
  have room: "int (Suc (length (wallet_log s wid))) < 2 ^ 63" using assms(3) by (simp add: has_room_def)
  from saga_pg.handle_event [OF ok p(2) assms(4) p(1) p(3) room assms(5)]
  show ?thesis by (simp add: saga_pg.safe_step_def saga_pg.view_def wallet_db_ok_store)
qed

text \<open>C8. Handling an event of the saga that was not processed before, with any driver failures: the
  database stays well formed, and either the event is remembered, the command (reserve at the
  source, or credit the destination) was done and its row is in the outbox; or the event is not
  remembered, the handler returns an error, and of the command and its row nothing, the first, or
  both happened. The answer nil means the first case.\<close>

theorem saga_event_handled:
  assumes "wallet_db_ok s" and "saga_event (rt_lib s) rec i c wid isrow" and "has_room s wid"
    and "i \<notin> wallet_seen s" and "saga_Handle rec s = (r, t)"
  shows "wallet_db_ok t
    \<and> (wallet_seen t = insert i (wallet_seen s)
         \<and> spec_update c wid (wallet_accounts s) = Inr (wallet_accounts t)
         \<and> (\<exists>row. isrow row \<and> wallet_outbox_events t = wallet_outbox_events s @ [row])
       \<or> wallet_seen t = wallet_seen s \<and> r \<noteq> Inr ()
         \<and> (wallet_view t = wallet_view s
            \<or> spec_update c wid (wallet_accounts s) = Inr (wallet_accounts t)
              \<and> (wallet_outbox_events t = wallet_outbox_events s
                 \<or> (\<exists>row. isrow row \<and> wallet_outbox_events t = wallet_outbox_events s @ [row]))))"
  using saga_pg_handled [OF assms] by (auto simp: handled_def saga_outcome_def)

text \<open>A transfer of 30 cents from wallet 7 to wallet 0, as the transaction service announces it.\<close>

definition sample_initiated :: kafka_record where
  "sample_initiated =
     \<lparr>kr_Topic = ''transactions'', kr_Key = ''uuuuuuuu'', kr_Value = Some (JObj
        [(''transaction_id'', JStr ''uuu''), (''source_wallet_id'', JStr ''uuuuuuuu''),
         (''destination_wallet_id'', JStr ''u''), (''amount_cents'', JInt 30), (''description'', JStr [])]),
      kr_Headers = [(''event_type'', ''TransactionInitiated''), (''event_id'', ''uuuuuuuuuu'')]\<rparr>"

lemma sample_initiated_event:
  "saga_event sample_lib sample_initiated 9 (CmdReserve 30 2) 7
     (reserved_row sample_lib \<lparr>ti_TransactionID = 2, ti_SourceWalletID = 7, ti_DestinationWalletID = 0,
        ti_AmountCents = 30\<rparr>)"
  by (simp add: saga_event_def sample_initiated_def sample_lib_def transactionInitiatedPayload_field_def
      zero_transactionInitiatedPayload_def name_match_simps in_i64_def)

text \<open>The environment in which exactly the \<open>n\<close>-th driver call fails, before it has any effect.\<close>

definition sample_faulty :: "nat \<Rightarrow> wallet_db" where
  "sample_faulty n = sample_wallet_db7\<lparr>rt_uuid := (\<lambda>k. 2001 + of_nat k),
     rt_fault := (\<lambda>k. if k = n then FailBefore ''down'' else NoFault)\<rparr>"

lemma sample_faulty_simps [simp]:
  "wallet_db_ok (sample_faulty n)" "has_room (sample_faulty n) 7" "rt_lib (sample_faulty n) = sample_lib"
  "i \<notin> wallet_seen (sample_faulty n)" "wallet_log (sample_faulty n) = wallet_log sample_wallet_db7"
proof -
  show log: "wallet_log (sample_faulty n) = wallet_log sample_wallet_db7"
    by (simp add: sample_faulty_def wallet_log_def)
  have "wallet_snaps (sample_faulty n) = wallet_snaps sample_wallet_db7"
    by (rule wallet_snaps_cong) (simp add: sample_faulty_def)
  then show "wallet_db_ok (sample_faulty n)"
    using sample_wallet_db7_ok log by (simp add: sample_faulty_def wallet_db_ok_def)
  show "has_room (sample_faulty n) 7" using sample_room [of 7] by (simp add: has_room_def log)

  show "i \<notin> wallet_seen (sample_faulty n)"
    by (simp add: sample_faulty_def sample_wallet_db7_def sample_wallet_db_def rt.defs processed_ids_def)
qed (simp add: sample_faulty_def)

lemma sample_reserved_twice:
  assumes "spec_update (CmdReserve 30 2) 7 (wallet_accounts sample_wallet_db7) = Inr acc"
  shows "map_option w_Reserved (acc 7) = Some 30"
    and "spec_update (CmdReserve 30 2) 7 acc = Inr acc' \<Longrightarrow> map_option w_Reserved (acc' 7) = Some 60"
proof -
  have acc: "acc = (wallet_accounts sample_wallet_db7)(7 \<mapsto> \<lparr>w_ID = 7, w_UserID = 3, w_Currency = ''BRL'',
      w_BalanceCents = 100, w_Reserved = 30, w_Version = 3, w_changes = []\<rparr>)"
    using assms sample_account by (simp add: spec_update_def)
  show "map_option w_Reserved (acc 7) = Some 30" by (simp add: acc)
  show "map_option w_Reserved (acc' 7) = Some 60" if "spec_update (CmdReserve 30 2) 7 acc = Inr acc'"
    using that by (auto simp: acc spec_update_def)
qed

theorem saga_event_handled_witness:
  "\<exists>t. saga_Handle sample_initiated (sample_faulty 99) = (Inr (), t) \<and> wallet_db_ok t
     \<and> 9 \<in> wallet_seen t \<and> map_option w_Reserved (wallet_accounts t 7) = Some 30"
proof -
  have "fst (saga_Handle sample_initiated (sample_faulty 99)) = Inr ()" by code_simp
  then obtain t where t: "saga_Handle sample_initiated (sample_faulty 99) = (Inr (), t)"
    by (metis prod.collapse)
  from saga_event_handled [OF _ _ _ _ t] sample_initiated_event
  have "wallet_db_ok t \<and> wallet_seen t = insert 9 (wallet_seen (sample_faulty 99))
      \<and> spec_update (CmdReserve 30 2) 7 (wallet_accounts sample_wallet_db7) = Inr (wallet_accounts t)"
    by simp
  then have "wallet_db_ok t" "9 \<in> wallet_seen t"
    and "spec_update (CmdReserve 30 2) 7 (wallet_accounts sample_wallet_db7) = Inr (wallet_accounts t)"
    by simp_all
  moreover from sample_reserved_twice(1) [OF this(3)] have "map_option w_Reserved (wallet_accounts t 7) = Some 30" .
  ultimately show ?thesis using t by blast
qed

text \<open>An event that is already remembered changes nothing, whatever its type and payload.\<close>

theorem saga_duplicate_ignored:
  assumes "uuid_Parse (rt_lib s) (headerValue (kr_Headers rec) ''event_id'') = Inr i"
    and "i \<in> wallet_seen s" and "saga_Handle rec s = (r, t)"
  shows "\<exists>k \<ge> rt_tick s. t = s\<lparr>rt_tick := k\<rparr>"
proof -
  have "only_tick s t" by (rule saga_pg.handle_duplicate [OF assms])
  then show ?thesis by (elim only_tickE) blast
qed

definition sample_seen9 :: wallet_db where
  "sample_seen9 = sample_wallet_db7\<lparr>processed_events := [9 \<mapsto> 0]\<rparr>"

theorem saga_duplicate_ignored_witness:
  "wallet_events (snd (saga_Handle sample_initiated sample_seen9)) = wallet_events sample_seen9"
proof -
  have "\<exists>k \<ge> rt_tick sample_seen9. snd (saga_Handle sample_initiated sample_seen9) = sample_seen9\<lparr>rt_tick := k\<rparr>"
    by (rule saga_duplicate_ignored [where i = 9, OF _ _ surjective_pairing])
      (simp_all add: sample_seen9_def sample_initiated_def sample_lib_def processed_ids_def)
  then show ?thesis by auto
qed

text \<open>A reservation the account refuses (no such wallet, not enough available) changes no account
  and writes nothing to the outbox: the transaction service is not told, whatever the log line of
  the handler says. The event is not remembered, and the handler returns an error.\<close>

theorem refused_command_emits_nothing:
  assumes "wallet_db_ok s" and "saga_event (rt_lib s) rec i c wid isrow" and "has_room s wid"
    and "i \<notin> wallet_seen s" and "saga_Handle rec s = (r, t)"
    and "spec_update c wid (wallet_accounts s) = Inl e"
  shows "wallet_view t = wallet_view s \<and> wallet_seen t = wallet_seen s \<and> (\<exists>e'. r = Inl e')"
proof -
  have "wallet_view t = wallet_view s \<and> wallet_seen t = wallet_seen s \<and> r \<noteq> Inr ()"
    using saga_pg_handled [OF assms(1-5)] assms(6) by (auto simp: handled_def saga_outcome_def)
  then show ?thesis by (cases r) auto
qed

definition sample_overdrawing :: kafka_record where
  "sample_overdrawing = sample_initiated\<lparr>kr_Value := Some (JObj
     [(''source_wallet_id'', JStr ''uuuuuuuu''), (''amount_cents'', JInt 101)])\<rparr>"

theorem refused_command_emits_nothing_witness:
  "wallet_outbox_events (snd (saga_Handle sample_overdrawing (sample_faulty 99))) = []"
proof -
  have ev: "saga_event sample_lib sample_overdrawing 9 (CmdReserve 101 0) 7
     (reserved_row sample_lib \<lparr>ti_TransactionID = 0, ti_SourceWalletID = 7, ti_DestinationWalletID = 0,
        ti_AmountCents = 101\<rparr>)"
    by (simp add: saga_event_def sample_overdrawing_def sample_initiated_def sample_lib_def
        transactionInitiatedPayload_field_def zero_transactionInitiatedPayload_def name_match_simps in_i64_def)
  have "spec_update (CmdReserve 101 0) 7 (wallet_accounts sample_wallet_db7)
      = Inl (errors_New CodeInsufficientFunds ''insufficient funds to reserve'')"
    using sample_account by (simp add: spec_update_def)
  then have "wallet_view (snd (saga_Handle sample_overdrawing (sample_faulty 99))) = wallet_view (sample_faulty 99)"
    using refused_command_emits_nothing [OF _ _ _ _ surjective_pairing, of "sample_faulty 99" sample_overdrawing] ev
    by auto
  then show ?thesis by (simp add: sample_faulty_def sample_wallet_db7_def sample_wallet_db_def rt.defs)
qed

text \<open>C33. A handler that fails after its command was done does it again when the record is delivered
  again: the three writes are not one transaction, and the command does not look at the transaction's
  identifier.\<close>

theorem redelivery_repeats_command:
  assumes "wallet_db_ok s" and "saga_event (rt_lib s) rec i c wid isrow" and "has_room s wid"
    and "i \<notin> wallet_seen s" and "saga_Handle rec s = (Inl e, t)"
    and "wallet_accounts t \<noteq> wallet_accounts s" and "i \<notin> wallet_seen t"
    and "has_room t wid" and "saga_Handle rec t = (Inr (), u)"
  shows "\<exists>acc. spec_update c wid (wallet_accounts s) = Inr acc
    \<and> spec_update c wid acc = Inr (wallet_accounts u)"
proof -
  have 1: "wallet_db_ok t" "env_step s t"
      "spec_update c wid (wallet_accounts s) = Inr (wallet_accounts t)"
    using saga_pg_handled [OF assms(1-5)] assms(6) by (auto simp: handled_def saga_outcome_def)
  have ev: "saga_event (rt_lib t) rec i c wid isrow" using assms(2) env_step_lib [OF 1(2)] by simp
  have "spec_update c wid (wallet_accounts t) = Inr (wallet_accounts u)"
    using saga_pg_handled [OF 1(1) ev assms(8,7,9)] by (auto simp: handled_def saga_outcome_def)
  then show ?thesis using 1(3) by blast
qed

theorem redelivery_repeats_command_witness:
  "let t = snd (saga_Handle sample_initiated (sample_faulty 14));
       u = snd (saga_Handle sample_initiated t)
   in map_option w_Reserved (wallet_accounts u 7) = Some 60"
proof -
  let ?s = "sample_faulty 14"
  let ?t = "snd (saga_Handle sample_initiated ?s)"
  let ?u = "snd (saga_Handle sample_initiated ?t)"
  have run1: "\<exists>e. saga_Handle sample_initiated ?s = (Inl e, ?t)"
  proof -
    have "fst (saga_Handle sample_initiated ?s) =
        Inl (DomainError CodeInternal ''save wallet outbox event'' (Some (PlainError ''down'')))" by code_simp
    then show ?thesis by (metis prod.collapse)
  qed
  have "fst (saga_Handle sample_initiated ?t) = Inr ()" by code_simp
  then have run2: "saga_Handle sample_initiated ?t = (Inr (), ?u)" by (metis prod.collapse)
  have acc: "wallet_accounts ?t \<noteq> wallet_accounts ?s"
  proof
    assume "wallet_accounts ?t = wallet_accounts ?s"
    then have "map_option w_Reserved (wallet_accounts ?t 7) = map_option w_Reserved (wallet_accounts ?s 7)" by simp
    moreover have "map_option w_Reserved (wallet_accounts ?t 7) = Some 30" by code_simp
    moreover have "map_option w_Reserved (wallet_accounts ?s 7) = Some 0" using sample_account by simp
    ultimately have "Some 30 = Some (0 :: i64)" by (metis (no_types))
    then show False by simp
  qed
  have "processed_events ?t 9 = None" by code_simp
  then have seen: "9 \<notin> wallet_seen ?t" by (simp add: processed_ids_iff)
  have "length (wallet_log ?t 7) = 3" by code_simp
  then have room: "has_room ?t 7" by (simp add: has_room_def)
  obtain e where run1: "saga_Handle sample_initiated ?s = (Inl e, ?t)" using run1 by blast
  have "\<exists>acc. spec_update (CmdReserve 30 2) 7 (wallet_accounts ?s) = Inr acc
      \<and> spec_update (CmdReserve 30 2) 7 acc = Inr (wallet_accounts ?u)"
    by (rule redelivery_repeats_command [OF _ _ _ _ run1 acc seen room run2])
      (simp, simp, rule sample_initiated_event, simp_all)
  then obtain acc where "spec_update (CmdReserve 30 2) 7 (wallet_accounts sample_wallet_db7) = Inr acc"
    "spec_update (CmdReserve 30 2) 7 acc = Inr (wallet_accounts ?u)" by auto
  then show ?thesis unfolding Let_def by (rule sample_reserved_twice(2))
qed

section \<open>Publishing the wallet's outbox\<close>

text \<open>
  The broker's log is a part of the world beyond the database: any function \<open>f\<close> of the state's
  extension.
\<close>

lemma wallet_publishes:
  assumes "produce_law (\<lambda>s. f (wallet_db.more s)) wallet_outbox_events produce"
    and "execute_law execute" and "retry_law retry"
  shows "publishes (\<lambda>s. (\<lambda>(_, _, _, m). f m) (wallet_events s, wallet_snapshots s, processed_events s, wallet_db.more s))
    wallet_outbox_events (OutboxWorker_publishWithRetry produce execute retry)"
  using publishWithRetry_publishes [OF assms] by simp


text \<open>A broker that accepts every record; the world is its log.\<close>

definition sample_produce :: "kafka_record \<Rightarrow> (kafka_record list wallet_db_scheme, unit) go" where
  "sample_produce r s = (Inr (), wallet_db.more_update (\<lambda>l. l @ [r]) s)"

definition sample_outbox_row :: "nat \<Rightarrow> outbox_event" where
  "sample_outbox_row n =
     \<lparr>oe_ID = of_nat n, oe_Topic = ''wallet-events'', oe_Key = ''k'', oe_Payload = JNull,
      oe_EventType = OutboxFundsReserved, oe_PublishedAt = None, oe_CreatedAt = 100 - int n\<rparr>"

definition sample_outbox_db :: "kafka_record list wallet_db_scheme" where
  "sample_outbox_db = wallet_db.extend
     (sample_wallet_db\<lparr>wallet_outbox_events := [sample_outbox_row 1, sample_outbox_row 2]\<rparr>) []"

lemma sample_produce_laws:
  "produce_law (\<lambda>s. wallet_db.more s) wallet_outbox_events sample_produce"
  "execute_law (\<lambda>op. op)" "retry_law (\<lambda>op. op)"
proof -
  show "produce_law (\<lambda>s. wallet_db.more s) wallet_outbox_events sample_produce"
    by (simp add: produce_law_def sample_produce_def env_step_def)
  show "execute_law (\<lambda>op. op)" unfolding execute_law_def
    by (metis only_tick_refl prod.collapse)
  show "retry_law (\<lambda>op. op)" unfolding retry_law_def
  proof (intro allI impI)
    fix op :: "('s, unit) go" and s q s'
    assume "op s = (q, s')"
    then show "attempts op s q s'" by (cases q) (auto intro: first_success give_up)
  qed
qed

lemma sample_outbox_db_simps [simp]:
  "wallet_db.more sample_outbox_db = []" "rt_lib sample_outbox_db = sample_lib"
  "wallet_outbox_events sample_outbox_db = [sample_outbox_row 1, sample_outbox_row 2]"
  "no_faults sample_outbox_db"
  by (simp_all add: sample_outbox_db_def wallet_db.defs sample_wallet_db_def rt.defs sample_rt_def no_faults_def)


text \<open>C16. When nothing fails, each tick publishes exactly the hundred oldest unpublished rows, in
  order and once, and enough ticks leave nothing unpublished.\<close>

theorem wallet_outbox_drains:
  assumes "produce_law (\<lambda>s. f (wallet_db.more s)) wallet_outbox_events produce"
    and "execute_law execute" and "retry_law retry"
    and "\<And>rec s. no_faults s \<Longrightarrow>
      \<exists>s'. OutboxWorker_publishWithRetry produce execute retry rec s = (Inr (), s')
         \<and> f (wallet_db.more s') = f (wallet_db.more s) @ [rec]"
    and "no_faults s" and "distinct (map oe_ID (wallet_outbox_events s))"
    and "card (pending (wallet_outbox_events s)) \<le> 100 * ticks"
  shows "pending (wallet_outbox_events (snd (OutboxWorker_Run ticks WalletOutbox_postgres
      (OutboxWorker_publishWithRetry produce execute retry) s))) = {}
    \<and> f (wallet_db.more (snd (OutboxWorker_flush WalletOutbox_postgres
      (OutboxWorker_publishWithRetry produce execute retry) s)))
      = f (wallet_db.more s) @ map (OutboxWorker_record (rt_lib s)) (outbox_unpublished 100 (wallet_outbox_events s))"
proof
  note pub = wallet_publishes [OF assms(1-3)]
  have good: "\<And>rec s. no_faults s \<Longrightarrow> \<exists>s'. OutboxWorker_publishWithRetry produce execute retry rec s = (Inr (), s')
      \<and> (\<lambda>(_, _, _, m). f m) (wallet_events s', wallet_snapshots s', processed_events s', wallet_db.more s')
         = (\<lambda>(_, _, _, m). f m) (wallet_events s, wallet_snapshots s, processed_events s, wallet_db.more s) @ [rec]"
    using assms(4) by simp
  show "pending (wallet_outbox_events (snd (OutboxWorker_Run ticks WalletOutbox_postgres
      (OutboxWorker_publishWithRetry produce execute retry) s))) = {}"
    by (rule wallet_outbox_pg.Run_drains [OF pub good assms(5-7) surjective_pairing])
  show "f (wallet_db.more (snd (OutboxWorker_flush WalletOutbox_postgres
      (OutboxWorker_publishWithRetry produce execute retry) s)))
      = f (wallet_db.more s) @ map (OutboxWorker_record (rt_lib s)) (outbox_unpublished 100 (wallet_outbox_events s))"
    using wallet_outbox_pg.flush_all [OF pub good assms(5) surjective_pairing] by simp
qed

theorem wallet_outbox_drains_witness:
  "pending (wallet_outbox_events (snd (OutboxWorker_Run 1 WalletOutbox_postgres
      (OutboxWorker_publishWithRetry sample_produce (\<lambda>op. op) (\<lambda>op. op)) sample_outbox_db))) = {}
   \<and> wallet_db.more (snd (OutboxWorker_flush WalletOutbox_postgres
      (OutboxWorker_publishWithRetry sample_produce (\<lambda>op. op) (\<lambda>op. op)) sample_outbox_db))
     = map (OutboxWorker_record sample_lib) [sample_outbox_row 2, sample_outbox_row 1]"
proof -
  have batch: "outbox_unpublished 100 [sample_outbox_row 1, sample_outbox_row 2] = [sample_outbox_row 2, sample_outbox_row 1]"
    by code_simp
  have "card (pending [sample_outbox_row 1, sample_outbox_row 2]) = 2"
    by (subst card_pending) (simp_all add: sample_outbox_row_def)
  then have few: "card (pending (wallet_outbox_events sample_outbox_db)) \<le> 100 * 1" by simp
  have ids: "distinct (map oe_ID (wallet_outbox_events sample_outbox_db))"
    by simp (simp add: sample_outbox_row_def)
  have good: "\<exists>s'. OutboxWorker_publishWithRetry sample_produce (\<lambda>op. op) (\<lambda>op. op) rec s = (Inr (), s')
      \<and> wallet_db.more s' = wallet_db.more s @ [rec]" for rec s
    by (simp add: OutboxWorker_publishWithRetry_def sample_produce_def)
  from wallet_outbox_drains [OF sample_produce_laws good _ ids few] batch show ?thesis by simp
qed

end
