(* ===== verification/TransactionDomain.thy ===== *)
theory TransactionDomain
  imports Errors Outbox
begin

text \<open>
  The transaction aggregate: \<open>services/transaction/internal/domain\<close> (\<open>transaction.go\<close>, \<open>events.go\<close>,
  \<open>repository.go\<close>). A transaction starts pending and is completed, failed or compensated; the
  order on \<open>Status\<close> is that progress. The repository interface has the locale
  \<open>transaction_table\<close> as its contract.
\<close>

section \<open>Status (transaction.go)\<close>

text \<open>
  The Go type is a string with four constants; \<open>StatusText\<close> is any other string the column could
  hold.
\<close>

datatype Status =
    StatusPending | StatusCompleted | StatusFailed | StatusCompensated | StatusText string

fun Status_string :: "Status \<Rightarrow> string" where
  "Status_string StatusPending = ''PENDING''"
| "Status_string StatusCompleted = ''COMPLETED''"
| "Status_string StatusFailed = ''FAILED''"
| "Status_string StatusCompensated = ''COMPENSATED''"
| "Status_string (StatusText t) = t"

definition Status_of :: "string \<Rightarrow> Status" where
  "Status_of t =
     (if t = ''PENDING'' then StatusPending
      else if t = ''COMPLETED'' then StatusCompleted
      else if t = ''FAILED'' then StatusFailed
      else if t = ''COMPENSATED'' then StatusCompensated
      else StatusText t)"

lemma Status_string_of [simp]: "Status_string (Status_of t) = t"
  by (simp add: Status_of_def)

lemma Status_of_string [simp]:
  "Status_of (Status_string StatusPending) = StatusPending"
  "Status_of (Status_string StatusCompleted) = StatusCompleted"
  "Status_of (Status_string StatusFailed) = StatusFailed"
  "Status_of (Status_string StatusCompensated) = StatusCompensated"
  by (simp_all add: Status_of_def)

text \<open>Progress: a pending transaction may end, an ended one stays as it is.\<close>

definition final :: "Status \<Rightarrow> bool" where
  "final st \<longleftrightarrow> st = StatusCompleted \<or> st = StatusFailed \<or> st = StatusCompensated"

instantiation Status :: order
begin

definition less_eq_Status :: "Status \<Rightarrow> Status \<Rightarrow> bool" where
  "s \<le> t \<longleftrightarrow> s = t \<or> s = StatusPending \<and> final t"

definition less_Status :: "Status \<Rightarrow> Status \<Rightarrow> bool" where
  "s < t \<longleftrightarrow> s = StatusPending \<and> final t"

instance
  by standard (auto simp: less_eq_Status_def less_Status_def final_def)

end

lemma final_maximal: "final s \<Longrightarrow> s \<le> t \<Longrightarrow> t = s"
  by (auto simp: less_eq_Status_def final_def)

section \<open>Transactions\<close>

record transaction =
  tx_ID :: uuid
  tx_SourceWalletID :: uuid
  tx_DestinationWalletID :: uuid
  tx_AmountCents :: i64
  tx_Description :: string
  tx_Status :: Status
  tx_FailureReason :: string
  tx_IdempotencyKey :: string
  tx_CreatedAt :: time
  tx_UpdatedAt :: time

definition NewTransaction ::
  "uuid \<Rightarrow> uuid \<Rightarrow> i64 \<Rightarrow> string \<Rightarrow> string \<Rightarrow> ('a rt_scheme, transaction) go"
where
  "NewTransaction sourceWalletID destWalletID amountCents description idempotencyKey =
     (if sint amountCents \<le> 0 then go_throw (errors_New CodeInvalidArgument ''amount must be positive'')
      else if sourceWalletID = destWalletID
      then go_throw (errors_New CodeInvalidArgument ''source and destination wallets must differ'')
      else
        go_bind time_Now (\<lambda>now.
        go_bind uuid_New (\<lambda>txid.
        go_return
          \<lparr>tx_ID = txid, tx_SourceWalletID = sourceWalletID, tx_DestinationWalletID = destWalletID,
           tx_AmountCents = amountCents, tx_Description = description, tx_Status = StatusPending,
           tx_FailureReason = '''', tx_IdempotencyKey = idempotencyKey, tx_CreatedAt = now,
           tx_UpdatedAt = now\<rparr>)))"

definition Transaction_Complete :: "transaction \<Rightarrow> ('a rt_scheme, transaction) go" where
  "Transaction_Complete t =
     go_bind time_Now (\<lambda>now. go_return (t\<lparr>tx_Status := StatusCompleted, tx_UpdatedAt := now\<rparr>))"

definition Transaction_Fail :: "string \<Rightarrow> transaction \<Rightarrow> ('a rt_scheme, transaction) go" where
  "Transaction_Fail reason t =
     go_bind time_Now (\<lambda>now. go_return
       (t\<lparr>tx_Status := StatusFailed, tx_FailureReason := reason, tx_UpdatedAt := now\<rparr>))"

definition Transaction_Compensate :: "transaction \<Rightarrow> ('a rt_scheme, transaction) go" where
  "Transaction_Compensate t =
     go_bind time_Now (\<lambda>now. go_return (t\<lparr>tx_Status := StatusCompensated, tx_UpdatedAt := now\<rparr>))"

section \<open>Events (events.go)\<close>

definition EventTransactionInitiated :: string where "EventTransactionInitiated = ''TransactionInitiated''"
definition EventTransactionCompleted :: string where "EventTransactionCompleted = ''TransactionCompleted''"
definition EventTransactionFailed :: string where "EventTransactionFailed = ''TransactionFailed''"
definition EventTransactionCompensated :: string where "EventTransactionCompensated = ''TransactionCompensated''"

text \<open>The event of the outbox is the struct both services have.\<close>

type_synonym OutboxEvent = outbox_event

record TransactionInitiatedPayload =
  tip_TransactionID :: uuid
  tip_SourceWalletID :: uuid
  tip_DestinationWalletID :: uuid
  tip_AmountCents :: i64
  tip_Description :: string

record TransactionCompletedPayload =
  tcp_TransactionID :: uuid
  tcp_SourceWalletID :: uuid
  tcp_DestinationWalletID :: uuid
  tcp_AmountCents :: i64

record TransactionFailedPayload =
  tfp_TransactionID :: uuid
  tfp_SourceWalletID :: uuid
  tfp_Reason :: string

definition TransactionInitiatedPayload_Marshal :: "lib \<Rightarrow> TransactionInitiatedPayload \<Rightarrow> json" where
  "TransactionInitiatedPayload_Marshal L p =
     JObj [(''transaction_id'', json_uuid L (tip_TransactionID p)),
           (''source_wallet_id'', json_uuid L (tip_SourceWalletID p)),
           (''destination_wallet_id'', json_uuid L (tip_DestinationWalletID p)),
           (''amount_cents'', json_int64 (tip_AmountCents p)),
           (''description'', JStr (tip_Description p))]"

definition TransactionCompletedPayload_Marshal :: "lib \<Rightarrow> TransactionCompletedPayload \<Rightarrow> json" where
  "TransactionCompletedPayload_Marshal L p =
     JObj [(''transaction_id'', json_uuid L (tcp_TransactionID p)),
           (''source_wallet_id'', json_uuid L (tcp_SourceWalletID p)),
           (''destination_wallet_id'', json_uuid L (tcp_DestinationWalletID p)),
           (''amount_cents'', json_int64 (tcp_AmountCents p))]"

definition TransactionFailedPayload_Marshal :: "lib \<Rightarrow> TransactionFailedPayload \<Rightarrow> json" where
  "TransactionFailedPayload_Marshal L p =
     JObj [(''transaction_id'', json_uuid L (tfp_TransactionID p)),
           (''source_wallet_id'', json_uuid L (tfp_SourceWalletID p)),
           (''reason'', JStr (tfp_Reason p))]"

section \<open>The repository (repository.go)\<close>

record 's TransactionRepository =
  TxSave :: "transaction \<Rightarrow> ('s, unit) go"
  TxUpdate :: "transaction \<Rightarrow> ('s, unit) go"
  TxFindByID :: "uuid \<Rightarrow> ('s, transaction) go"
  TxFindByIdempotencyKey :: "string \<Rightarrow> ('s, transaction) go"

text \<open>Rows with the same identifier or the same non-empty idempotency key clash.\<close>

definition tx_clash :: "transaction \<Rightarrow> transaction \<Rightarrow> bool" where
  "tx_clash t u \<longleftrightarrow> tx_ID t = tx_ID u
     \<or> tx_IdempotencyKey t \<noteq> '''' \<and> tx_IdempotencyKey t = tx_IdempotencyKey u"

definition tx_updated :: "transaction \<Rightarrow> transaction list \<Rightarrow> transaction list" where
  "tx_updated t ts =
     map (\<lambda>u. if tx_ID u = tx_ID t
       then u\<lparr>tx_Status := tx_Status t, tx_FailureReason := tx_FailureReason t, tx_UpdatedAt := tx_UpdatedAt t\<rparr>
       else u) ts"

definition txs_distinct :: "transaction list \<Rightarrow> bool" where
  "txs_distinct ts \<longleftrightarrow> sorted_wrt (\<lambda>t u. \<not> tx_clash t u) ts"

text \<open>
  A status that is one of the constants, or was read from the column, is what its text stands for.
\<close>

definition proper :: "transaction \<Rightarrow> bool" where
  "proper t \<longleftrightarrow> Status_of (Status_string (tx_Status t)) = tx_Status t"

lemma properI [intro]: "tx_Status t = StatusPending \<or> final (tx_Status t) \<Longrightarrow> proper t"
  by (auto simp: proper_def final_def Status_of_def)

locale transaction_table =
  fixes tr :: "'a rt_scheme TransactionRepository"
    and txs :: "'a rt_scheme \<Rightarrow> transaction list"
    and rest :: "'a rt_scheme \<Rightarrow> 'r"
  assumes txs_tick [simp]: "txs (s\<lparr>rt_tick := k\<rparr>) = txs s"
    and rest_tick [simp]: "rest (s\<lparr>rt_tick := k\<rparr>) = rest s"
    and save_effect: "TxSave tr t s = (r, s') \<Longrightarrow> proper t \<Longrightarrow> env_step s s' \<and> rest s' = rest s
          \<and> (txs s' = txs s \<or> (\<forall>u \<in> set (txs s). \<not> tx_clash u t) \<and> txs s' = txs s @ [t])"
    and save_ok: "TxSave tr t s = (Inr u, s') \<Longrightarrow> proper t \<Longrightarrow>
          (\<forall>u \<in> set (txs s). \<not> tx_clash u t) \<and> txs s' = txs s @ [t]"
    and save_succeeds: "no_faults s \<Longrightarrow> (\<forall>u \<in> set (txs s). \<not> tx_clash u t) \<Longrightarrow>
          \<exists>s'. TxSave tr t s = (Inr (), s')"
    and update_effect: "TxUpdate tr t s = (r, s') \<Longrightarrow> proper t \<Longrightarrow> env_step s s' \<and> rest s' = rest s
          \<and> (txs s' = txs s \<or> txs s' = tx_updated t (txs s))"
    and update_ok: "TxUpdate tr t s = (Inr u, s') \<Longrightarrow> proper t \<Longrightarrow> txs s' = tx_updated t (txs s)"
    and update_succeeds: "no_faults s \<Longrightarrow> \<exists>s'. TxUpdate tr t s = (Inr (), s')"
    and find_effect: "TxFindByID tr i s = (rt, s') \<Longrightarrow> only_tick s s'"
    and find_ok: "TxFindByID tr i s = (Inr t, s') \<Longrightarrow> find (\<lambda>t. tx_ID t = i) (txs s) = Some t"
    and find_answers: "no_faults s \<Longrightarrow> TxFindByID tr i s = (rt, s') \<Longrightarrow>
          rt = (case find (\<lambda>t. tx_ID t = i) (txs s) of
                  None \<Rightarrow> Inl (errors_New CodeNotFound ''transaction not found'') | Some t \<Rightarrow> Inr t)"
    and find_key_effect: "TxFindByIdempotencyKey tr key s = (rt, s') \<Longrightarrow> only_tick s s'"
    and find_key_ok: "TxFindByIdempotencyKey tr key s = (Inr t, s') \<Longrightarrow>
          find (\<lambda>t. tx_IdempotencyKey t = key) (txs s) = Some t"
    and find_key_answers: "no_faults s \<Longrightarrow> TxFindByIdempotencyKey tr key s = (rt, s') \<Longrightarrow>
          rt = (case find (\<lambda>t. tx_IdempotencyKey t = key) (txs s) of
                  None \<Rightarrow> Inl (errors_New CodeNotFound ''transaction not found'') | Some t \<Rightarrow> Inr t)"

section \<open>Facts about tables of transactions\<close>

lemma find_append: "find P (xs @ ys) = (case find P xs of None \<Rightarrow> find P ys | Some x \<Rightarrow> Some x)"
  by (induction xs) simp_all

lemma tx_updated_ids [simp]: "map tx_ID (tx_updated t ts) = map tx_ID ts"
  by (simp add: tx_updated_def)

lemma tx_updated_keys [simp]: "map tx_IdempotencyKey (tx_updated t ts) = map tx_IdempotencyKey ts"
  by (simp add: tx_updated_def)

lemma tx_clash_update [simp]:
  "tx_clash (t\<lparr>tx_Status := a, tx_FailureReason := b, tx_UpdatedAt := c\<rparr>) u = tx_clash t u"
  "tx_clash t (u\<lparr>tx_Status := a, tx_FailureReason := b, tx_UpdatedAt := c\<rparr>) = tx_clash t u"
  by (simp_all add: tx_clash_def)

lemma txs_distinct_update [simp]: "txs_distinct (tx_updated t ts) = txs_distinct ts"
proof -
  let ?f = "\<lambda>u. if tx_ID u = tx_ID t
    then u\<lparr>tx_Status := tx_Status t, tx_FailureReason := tx_FailureReason t, tx_UpdatedAt := tx_UpdatedAt t\<rparr>
    else u"
  have "(\<lambda>x y. \<not> tx_clash (?f x) (?f y)) = (\<lambda>x y. \<not> tx_clash x y)" by (intro ext) simp
  then show ?thesis by (simp add: txs_distinct_def tx_updated_def sorted_wrt_map)
qed

lemma txs_distinct_snoc:
  "txs_distinct ts \<Longrightarrow> \<forall>u \<in> set ts. \<not> tx_clash u t \<Longrightarrow> txs_distinct (ts @ [t])"
  by (simp add: txs_distinct_def sorted_wrt_append)

lemma txs_distinct_find:
  assumes "txs_distinct ts" and "t \<in> set ts"
  shows "find (\<lambda>u. tx_ID u = tx_ID t) ts = Some t"
    and "tx_IdempotencyKey t \<noteq> '''' \<Longrightarrow> find (\<lambda>u. tx_IdempotencyKey u = tx_IdempotencyKey t) ts = Some t"
  using assms by (induction ts) (auto simp: txs_distinct_def tx_clash_def)

end
