(* ===== verification/TransactionPostgres.thy ===== *)
theory TransactionPostgres
  imports TransactionDomain OutboxWorker
begin

text \<open>
  The transaction service's PostgreSQL adapters,
  \<open>services/transaction/internal/adapters/outbound/postgres/repos.go\<close>, over the tables of its
  migration, and the interpretations of the contracts on them.
\<close>

section \<open>Tables\<close>

record txRow =
  xr_ID :: uuid
  xr_SourceWalletID :: uuid
  xr_DestinationWalletID :: uuid
  xr_AmountCents :: i64
  xr_Description :: string
  xr_Status :: string
  xr_FailureReason :: string
  xr_IdempotencyKey :: string
  xr_CreatedAt :: time
  xr_UpdatedAt :: time

definition txRow_toDomain :: "txRow \<Rightarrow> transaction" where
  "txRow_toDomain r =
     \<lparr>tx_ID = xr_ID r, tx_SourceWalletID = xr_SourceWalletID r,
      tx_DestinationWalletID = xr_DestinationWalletID r, tx_AmountCents = xr_AmountCents r,
      tx_Description = xr_Description r, tx_Status = Status_of (xr_Status r),
      tx_FailureReason = xr_FailureReason r, tx_IdempotencyKey = xr_IdempotencyKey r,
      tx_CreatedAt = xr_CreatedAt r, tx_UpdatedAt = xr_UpdatedAt r\<rparr>"

record transaction_db = rt +
  transactions :: "txRow list"
  outbox_events :: "outbox_event list"

section \<open>Transactions\<close>

text \<open>The values of the \<open>INSERT\<close>.\<close>

definition txRow_of :: "transaction \<Rightarrow> txRow" where
  "txRow_of t =
     \<lparr>xr_ID = tx_ID t, xr_SourceWalletID = tx_SourceWalletID t,
      xr_DestinationWalletID = tx_DestinationWalletID t, xr_AmountCents = tx_AmountCents t,
      xr_Description = tx_Description t, xr_Status = Status_string (tx_Status t),
      xr_FailureReason = tx_FailureReason t, xr_IdempotencyKey = tx_IdempotencyKey t,
      xr_CreatedAt = tx_CreatedAt t, xr_UpdatedAt = tx_UpdatedAt t\<rparr>"

text \<open>Primary key, and the unique index on the non-empty idempotency keys.\<close>

definition insert_transaction :: "txRow \<Rightarrow> txRow list \<Rightarrow> goerr + txRow list" where
  "insert_transaction r rows =
     (if list_ex (\<lambda>u. xr_ID u = xr_ID r) rows then Inl (duplicate_key ''transactions_pkey'')
      else if xr_IdempotencyKey r \<noteq> '''' \<and> list_ex (\<lambda>u. xr_IdempotencyKey u = xr_IdempotencyKey r) rows
      then Inl (duplicate_key ''idx_transactions_idempotency'')
      else Inr (rows @ [r]))"

definition TransactionRepository_Save :: "transaction \<Rightarrow> ('a transaction_db_scheme, unit) go" where
  "TransactionRepository_Save tx =
     go_wrap CodeInternal ''save transaction''
       (sql_exec (\<lambda>s. case insert_transaction (txRow_of tx) (transactions s) of
          Inl e \<Rightarrow> Inl e
        | Inr rows \<Rightarrow> Inr (s\<lparr>transactions := rows\<rparr>)))"

definition update_transaction :: "transaction \<Rightarrow> txRow list \<Rightarrow> txRow list" where
  "update_transaction tx rows =
     map (\<lambda>r. if xr_ID r = tx_ID tx
       then r\<lparr>xr_Status := Status_string (tx_Status tx), xr_FailureReason := tx_FailureReason tx,
              xr_UpdatedAt := tx_UpdatedAt tx\<rparr>
       else r) rows"

definition TransactionRepository_Update :: "transaction \<Rightarrow> ('a transaction_db_scheme, unit) go" where
  "TransactionRepository_Update tx =
     go_wrap CodeInternal ''update transaction''
       (sql_exec (\<lambda>s. Inr (s\<lparr>transactions := update_transaction tx (transactions s)\<rparr>)))"

definition TransactionRepository_FindByID :: "uuid \<Rightarrow> ('a transaction_db_scheme, transaction) go" where
  "TransactionRepository_FindByID i =
     go_bind (go_wrap CodeInternal ''find transaction''
        (sql_query (\<lambda>s. find (\<lambda>r. xr_ID r = i) (transactions s)))) (\<lambda>row.
     case row of
       None \<Rightarrow> go_throw (errors_New CodeNotFound ''transaction not found'')
     | Some r \<Rightarrow> go_return (txRow_toDomain r))"

definition TransactionRepository_FindByIdempotencyKey ::
  "string \<Rightarrow> ('a transaction_db_scheme, transaction) go"
where
  "TransactionRepository_FindByIdempotencyKey key =
     go_bind (go_wrap CodeInternal ''find transaction by idempotency key''
        (sql_query (\<lambda>s. find (\<lambda>r. xr_IdempotencyKey r = key) (transactions s)))) (\<lambda>row.
     case row of
       None \<Rightarrow> go_throw (errors_New CodeNotFound ''transaction not found'')
     | Some r \<Rightarrow> go_return (txRow_toDomain r))"

section \<open>Outbox\<close>

definition OutboxRepository_Save :: "outbox_event \<Rightarrow> ('a transaction_db_scheme, unit) go" where
  "OutboxRepository_Save event =
     go_wrap CodeInternal ''save outbox event''
       (sql_exec (\<lambda>s. case outbox_insert ''outbox_events_pkey'' event (outbox_events s) of
          Inl e \<Rightarrow> Inl e
        | Inr rows \<Rightarrow> Inr (s\<lparr>outbox_events := rows\<rparr>)))"

definition OutboxRepository_FetchUnpublished :: "nat \<Rightarrow> ('a transaction_db_scheme, outbox_event list) go" where
  "OutboxRepository_FetchUnpublished limit =
     sql_select ''fetch outbox events'' ''scan outbox event''
       (\<lambda>s. outbox_unpublished limit (outbox_events s))"

definition OutboxRepository_MarkPublished :: "uuid \<Rightarrow> ('a transaction_db_scheme, unit) go" where
  "OutboxRepository_MarkPublished i =
     go_wrap CodeInternal ''mark outbox event published''
       (sql_exec (\<lambda>s. Inr (s\<lparr>outbox_events := outbox_mark (sql_NOW s) i (outbox_events s)\<rparr>)))"

definition TransactionRepository_postgres :: "'a transaction_db_scheme TransactionRepository" where
  "TransactionRepository_postgres =
     \<lparr>TxSave = TransactionRepository_Save, TxUpdate = TransactionRepository_Update,
      TxFindByID = TransactionRepository_FindByID,
      TxFindByIdempotencyKey = TransactionRepository_FindByIdempotencyKey\<rparr>"

definition OutboxRepository_postgres :: "'a transaction_db_scheme OutboxRepository" where
  "OutboxRepository_postgres =
     \<lparr>OutboxSave = OutboxRepository_Save, FetchUnpublished = OutboxRepository_FetchUnpublished,
      MarkPublished = OutboxRepository_MarkPublished\<rparr>"

section \<open>The adapters keep the contracts\<close>

definition txs_of :: "'a transaction_db_scheme \<Rightarrow> transaction list" where
  "txs_of s = map txRow_toDomain (transactions s)"

lemma txRow_roundtrip: "proper t \<Longrightarrow> txRow_toDomain (txRow_of t) = t"
  by (simp add: proper_def txRow_toDomain_def txRow_of_def)

lemma find_map: "find P (map f xs) = map_option f (find (\<lambda>x. P (f x)) xs)"
  by (induction xs) simp_all

lemma txRow_toDomain_simps [simp]:
  "tx_ID (txRow_toDomain r) = xr_ID r" "tx_IdempotencyKey (txRow_toDomain r) = xr_IdempotencyKey r"
  by (simp_all add: txRow_toDomain_def)

lemma insert_transaction_cases:
  "insert_transaction (txRow_of t) rows =
     (if \<forall>u \<in> set (map txRow_toDomain rows). \<not> tx_clash u t then Inr (rows @ [txRow_of t])
      else Inl (duplicate_key (if list_ex (\<lambda>u. xr_ID u = tx_ID t) rows then ''transactions_pkey''
                else ''idx_transactions_idempotency'')))"
  by (auto simp: insert_transaction_def tx_clash_def list_ex_iff txRow_of_def) metis

lemma txs_update:
  "proper t \<Longrightarrow> map txRow_toDomain (update_transaction t rows) = tx_updated t (map txRow_toDomain rows)"
  by (simp add: update_transaction_def tx_updated_def proper_def txRow_toDomain_def)

lemma transaction_find:
  assumes run: "go_bind (go_wrap CodeInternal msg (sql_query (\<lambda>s. find P (transactions s)))) (\<lambda>row.
     case row of
       None \<Rightarrow> go_throw (errors_New CodeNotFound ''transaction not found'')
     | Some r \<Rightarrow> go_return (txRow_toDomain r)) s = (r, s')"
    and Q: "P = (\<lambda>x. Q (txRow_toDomain x))"
  shows "only_tick s s'" and "r = Inr t \<Longrightarrow> find Q (txs_of s) = Some t"
    and "no_faults s \<Longrightarrow> r = (case find Q (txs_of s) of
           None \<Rightarrow> Inl (errors_New CodeNotFound ''transaction not found'') | Some t \<Rightarrow> Inr t)"
proof -
  obtain q u where q: "sql_query (\<lambda>s. find P (transactions s)) s = (q, u)" by fastforce
  have st: "s' = u"
    using run q by (auto simp: go_simps split: sum.splits option.splits)
  then show "only_tick s s'" using sql_query_only_tick [OF q] by simp
  have found: "map_option txRow_toDomain x = find Q (txs_of s)" if "q = Inr x" for x
    using sql_query_ok [OF q [unfolded that]] by (simp add: txs_of_def find_map Q)
  have ans: "r = (case find Q (txs_of s) of
      None \<Rightarrow> Inl (errors_New CodeNotFound ''transaction not found'') | Some t \<Rightarrow> Inr t)" if "q = Inr x" for x
    using run q that by (simp add: go_simps found [OF that, symmetric] split: option.splits)
  show "find Q (txs_of s) = Some t" if "r = Inr t"
  proof (cases q)
    case (Inl e)
    then show ?thesis using run q that by (simp add: go_simps)
  next
    case (Inr x)
    from ans [OF this] show ?thesis using that by (simp split: option.splits)
  qed
  show "r = (case find Q (txs_of s) of
      None \<Rightarrow> Inl (errors_New CodeNotFound ''transaction not found'') | Some t \<Rightarrow> Inr t)" if "no_faults s"
  proof -
    have "\<exists>x. q = Inr x" using q that by (auto simp: Let_def)
    then show ?thesis using ans by blast
  qed
qed

lemma FindByID_spec:
  assumes "TransactionRepository_FindByID i s = (r, s')"
  shows "only_tick s s'" and "r = Inr t \<Longrightarrow> find (\<lambda>t. tx_ID t = i) (txs_of s) = Some t"
    and "no_faults s \<Longrightarrow> r = (case find (\<lambda>t. tx_ID t = i) (txs_of s) of
           None \<Rightarrow> Inl (errors_New CodeNotFound ''transaction not found'') | Some t \<Rightarrow> Inr t)"
  using transaction_find [OF assms [unfolded TransactionRepository_FindByID_def], of "\<lambda>t. tx_ID t = i"]
  by simp_all

lemma FindByIdempotencyKey_spec:
  assumes "TransactionRepository_FindByIdempotencyKey key s = (r, s')"
  shows "only_tick s s'" and "r = Inr t \<Longrightarrow> find (\<lambda>t. tx_IdempotencyKey t = key) (txs_of s) = Some t"
    and "no_faults s \<Longrightarrow> r = (case find (\<lambda>t. tx_IdempotencyKey t = key) (txs_of s) of
           None \<Rightarrow> Inl (errors_New CodeNotFound ''transaction not found'') | Some t \<Rightarrow> Inr t)"
  using transaction_find [OF assms [unfolded TransactionRepository_FindByIdempotencyKey_def],
      of "\<lambda>t. tx_IdempotencyKey t = key"]
  by simp_all

lemma txs_of_tick [simp]: "txs_of (s\<lparr>rt_tick := k\<rparr>) = txs_of s"
  by (simp add: txs_of_def)

lemma Save_spec:
  assumes "TransactionRepository_Save t s = (r, s')" and "proper t"
  shows "env_step s s' \<and> (outbox_events s', transaction_db.more s') = (outbox_events s, transaction_db.more s)
      \<and> (txs_of s' = txs_of s \<or> (\<forall>u \<in> set (txs_of s). \<not> tx_clash u t) \<and> txs_of s' = txs_of s @ [t])"
    and "r = Inr u \<Longrightarrow> (\<forall>u \<in> set (txs_of s). \<not> tx_clash u t) \<and> txs_of s' = txs_of s @ [t]"
proof -
  have ins: "(\<forall>u \<in> set (txs_of s). \<not> tx_clash u t) \<and> txs_of u = txs_of s @ [t] \<and> env_step s u
      \<and> outbox_events u = outbox_events s \<and> transaction_db.more u = transaction_db.more s"
    if "(case insert_transaction (txRow_of t) (transactions (s\<lparr>rt_tick := Suc (rt_tick s)\<rparr>)) of
          Inl e \<Rightarrow> Inl e
        | Inr rows \<Rightarrow> Inr (s\<lparr>rt_tick := Suc (rt_tick s), transactions := rows\<rparr>)) = Inr u" for u
    using that assms(2)
    by (auto simp: insert_transaction_cases txs_of_def txRow_roundtrip env_step_def split: if_splits)
  show "env_step s s' \<and> (outbox_events s', transaction_db.more s') = (outbox_events s, transaction_db.more s)
      \<and> (txs_of s' = txs_of s \<or> (\<forall>u \<in> set (txs_of s). \<not> tx_clash u t) \<and> txs_of s' = txs_of s @ [t])"
    using assms(1) unfolding TransactionRepository_Save_def
    by (rule wrap_exec_effect) (use ins in \<open>auto\<close>)
  show "(\<forall>u \<in> set (txs_of s). \<not> tx_clash u t) \<and> txs_of s' = txs_of s @ [t]" if "r = Inr u"
    using wrap_exec_ok [OF assms(1) [unfolded TransactionRepository_Save_def that]] ins by blast
qed

lemma Update_spec:
  assumes "TransactionRepository_Update t s = (r, s')" and "proper t"
  shows "env_step s s' \<and> (outbox_events s', transaction_db.more s') = (outbox_events s, transaction_db.more s)
      \<and> (txs_of s' = txs_of s \<or> txs_of s' = tx_updated t (txs_of s))"
    and "r = Inr u \<Longrightarrow> txs_of s' = tx_updated t (txs_of s)"
proof -
  show "env_step s s' \<and> (outbox_events s', transaction_db.more s') = (outbox_events s, transaction_db.more s)
      \<and> (txs_of s' = txs_of s \<or> txs_of s' = tx_updated t (txs_of s))"
    using assms(1) unfolding TransactionRepository_Update_def
    by (rule wrap_exec_effect) (use assms(2) in \<open>auto simp: txs_of_def txs_update env_step_def\<close>)
  show "txs_of s' = tx_updated t (txs_of s)" if "r = Inr u"
    using wrap_exec_ok [OF assms(1) [unfolded TransactionRepository_Update_def that]] assms(2)
    by (auto simp: txs_of_def txs_update)
qed

interpretation transaction_pg: transaction_table TransactionRepository_postgres txs_of
  "\<lambda>s. (outbox_events s, transaction_db.more s)"
proof (unfold_locales, unfold TransactionRepository_postgres_def TransactionRepository.simps)
  show "\<exists>s'. TransactionRepository_Save t s = (Inr (), s')"
    if "no_faults s" "\<forall>u \<in> set (txs_of s). \<not> tx_clash u t" for s :: "'a transaction_db_scheme" and t
    using that by (simp add: TransactionRepository_Save_def insert_transaction_cases txs_of_def Let_def)
  show "\<exists>s'. TransactionRepository_Update t s = (Inr (), s')"
    if "no_faults s" for s :: "'a transaction_db_scheme" and t
    using that by (simp add: TransactionRepository_Update_def Let_def)
qed (erule FindByID_spec(1) FindByID_spec(2) [OF _ refl] FindByIdempotencyKey_spec(1)
    FindByIdempotencyKey_spec(2) [OF _ refl]
  | erule (1) FindByID_spec(3) FindByIdempotencyKey_spec(3) Save_spec(1) Save_spec(2) [OF _ _ refl]
      Update_spec(1) Update_spec(2) [OF _ _ refl]
  | simp)+

lemmas transaction_outbox_defs = OutboxRepository_postgres_def OutboxRepository_Save_def
  OutboxRepository_FetchUnpublished_def OutboxRepository_MarkPublished_def

interpretation transaction_outbox_pg: outbox_table OutboxRepository_postgres outbox_events
  "\<lambda>s. (txs_of s, transaction_db.more s)"
proof (unfold_locales, unfold transaction_outbox_defs OutboxRepository.simps)
qed (auto simp: outbox_insert_def txs_of_def env_step_def Let_def elim!: wrap_exec_effect
  dest!: sql_exec_ok dest: sql_select_effect sql_select_ok
  intro: sql_select_succeeds split: if_splits)

end
