(* ===== verification/TransactionService.thy ===== *)
theory TransactionService
  imports TransactionPostgres
begin

text \<open>
  The transaction service: \<open>application/transaction_service.go\<close> and its client of the fraud service,
  \<open>adapters/outbound/grpc/fraud_client.go\<close>. The repositories and the fraud checker are its first
  arguments; the checker may be nil.
\<close>

section \<open>The fraud client (fraud_client.go)\<close>

text \<open>The enumeration of the protocol, of which a peer may send numbers this build does not know.\<close>

datatype Decision =
    DECISION_UNSPECIFIED | DECISION_APPROVED | DECISION_REJECTED | DECISION_REVIEW | DecisionNumber int

record EvaluateRequest =
  erq_TransactionId :: string
  erq_UserId :: string
  erq_WalletId :: string
  erq_AmountCents :: i64
  erq_OccurredAt :: "time option"

record EvaluateResponse =
  ers_TransactionId :: string
  ers_Decision :: Decision
  ers_Reason :: string

type_synonym 's FraudChecker = "uuid \<Rightarrow> uuid \<Rightarrow> uuid \<Rightarrow> i64 \<Rightarrow> ('s, string) go"

definition FraudClient_Evaluate ::
  "(EvaluateRequest \<Rightarrow> ('a rt_scheme, EvaluateResponse) go) \<Rightarrow> 'a rt_scheme FraudChecker"
where
  "FraudClient_Evaluate call txID userID walletID amountCents =
     go_bind (go_gets rt_lib) (\<lambda>L.
     go_bind (call \<lparr>erq_TransactionId = uuid_String L txID, erq_UserId = uuid_String L userID,
        erq_WalletId = uuid_String L walletID, erq_AmountCents = amountCents, erq_OccurredAt = None\<rparr>) (\<lambda>resp.
     case ers_Decision resp of
       DECISION_REJECTED \<Rightarrow> go_return ''REJECTED''
     | DECISION_REVIEW \<Rightarrow> go_return ''REVIEW''
     | DECISION_APPROVED \<Rightarrow> go_return ''APPROVED''
     | DECISION_UNSPECIFIED \<Rightarrow> go_return ''APPROVED''
     | DecisionNumber n \<Rightarrow> go_return ''APPROVED''))"

section \<open>The service (transaction_service.go)\<close>

definition topicTransactions :: string where "topicTransactions = ''transactions''"

record InitiateResult =
  ir_TransactionID :: uuid
  ir_Status :: Status
  ir_CreatedAt :: time

definition InitiateResult_of :: "transaction \<Rightarrow> InitiateResult" where
  "InitiateResult_of t = \<lparr>ir_TransactionID = tx_ID t, ir_Status = tx_Status t, ir_CreatedAt = tx_CreatedAt t\<rparr>"

text \<open>The outbox literal of the three operations: identifier and time are drawn here.\<close>

definition outbox_literal :: "transaction \<Rightarrow> json \<Rightarrow> string \<Rightarrow> ('a rt_scheme, outbox_event) go" where
  "outbox_literal t payload typ =
     go_bind (go_gets rt_lib) (\<lambda>L.
     go_bind uuid_New (\<lambda>eid.
     go_bind time_Now (\<lambda>now.
     go_return
       \<lparr>oe_ID = eid, oe_Topic = topicTransactions, oe_Key = uuid_String L (tx_SourceWalletID t),
        oe_Payload = payload, oe_EventType = typ, oe_PublishedAt = None, oe_CreatedAt = now\<rparr>)))"

definition initiated_payload :: "lib \<Rightarrow> transaction \<Rightarrow> json" where
  "initiated_payload L t = TransactionInitiatedPayload_Marshal L
     \<lparr>tip_TransactionID = tx_ID t, tip_SourceWalletID = tx_SourceWalletID t,
      tip_DestinationWalletID = tx_DestinationWalletID t, tip_AmountCents = tx_AmountCents t,
      tip_Description = tx_Description t\<rparr>"

definition completed_payload :: "lib \<Rightarrow> transaction \<Rightarrow> json" where
  "completed_payload L t = TransactionCompletedPayload_Marshal L
     \<lparr>tcp_TransactionID = tx_ID t, tcp_SourceWalletID = tx_SourceWalletID t,
      tcp_DestinationWalletID = tx_DestinationWalletID t, tcp_AmountCents = tx_AmountCents t\<rparr>"

definition failed_payload :: "lib \<Rightarrow> string \<Rightarrow> transaction \<Rightarrow> json" where
  "failed_payload L reason t = TransactionFailedPayload_Marshal L
     \<lparr>tfp_TransactionID = tx_ID t, tfp_SourceWalletID = tx_SourceWalletID t, tfp_Reason = reason\<rparr>"

text \<open>\<open>if s.fraud != nil { ... }\<close>\<close>

definition TransactionService_fraudCheck ::
  "'a rt_scheme FraudChecker option \<Rightarrow> transaction \<Rightarrow> ('a rt_scheme, unit) go"
where
  "TransactionService_fraudCheck fraud t =
     (case fraud of
        None \<Rightarrow> go_return ()
      | Some evaluate \<Rightarrow>
          go_bind (go_wrap CodeInternal ''fraud check''
            (evaluate (tx_ID t) uuid_Nil (tx_SourceWalletID t) (tx_AmountCents t))) (\<lambda>decision.
          if decision = ''REJECTED''
          then go_throw (errors_New CodePermissionDenied ''transaction rejected by fraud check'')
          else go_return ()))"

text \<open>Everything after the idempotency check.\<close>

definition TransactionService_startTransfer ::
  "'a rt_scheme TransactionRepository \<Rightarrow> 'a rt_scheme OutboxRepository \<Rightarrow> 'a rt_scheme FraudChecker option
     \<Rightarrow> uuid \<Rightarrow> uuid \<Rightarrow> i64 \<Rightarrow> string \<Rightarrow> string \<Rightarrow> ('a rt_scheme, InitiateResult) go"
where
  "TransactionService_startTransfer txRepo outbox fraud sourceWalletID destWalletID amountCents
     description idempotencyKey =
     go_bind (NewTransaction sourceWalletID destWalletID amountCents description idempotencyKey) (\<lambda>t.
     go_bind (TransactionService_fraudCheck fraud t) (\<lambda>_.
     go_bind (go_gets rt_lib) (\<lambda>L.
     go_bind (outbox_literal t (initiated_payload L t) EventTransactionInitiated) (\<lambda>outboxEvent.
     go_bind (TxSave txRepo t) (\<lambda>_.
     go_bind (OutboxSave outbox outboxEvent) (\<lambda>_.
     go_return (InitiateResult_of t)))))))"

definition TransactionService_InitiateTransfer ::
  "'a rt_scheme TransactionRepository \<Rightarrow> 'a rt_scheme OutboxRepository \<Rightarrow> 'a rt_scheme FraudChecker option
     \<Rightarrow> uuid \<Rightarrow> uuid \<Rightarrow> i64 \<Rightarrow> string \<Rightarrow> string \<Rightarrow> ('a rt_scheme, InitiateResult) go"
where
  "TransactionService_InitiateTransfer txRepo outbox fraud sourceWalletID destWalletID amountCents
     description idempotencyKey =
     go_bind (if idempotencyKey \<noteq> '''' then go_try (TxFindByIdempotencyKey txRepo idempotencyKey)
              else go_return (Inl (PlainError ''''))) (\<lambda>existing.
     case existing of
       Inr t \<Rightarrow> go_return (InitiateResult_of t)
     | Inl _ \<Rightarrow> TransactionService_startTransfer txRepo outbox fraud sourceWalletID destWalletID
                  amountCents description idempotencyKey)"

text \<open>What \<open>CompleteTransaction\<close> and \<open>FailTransaction\<close> do with the transaction they read.\<close>

definition TransactionService_complete ::
  "'a rt_scheme TransactionRepository \<Rightarrow> 'a rt_scheme OutboxRepository \<Rightarrow> transaction \<Rightarrow> ('a rt_scheme, unit) go"
where
  "TransactionService_complete txRepo outbox t0 =
     (if tx_Status t0 \<noteq> StatusPending
      then go_throw (errors_New CodeConflict ''transaction not in pending state'')
      else
        go_bind (Transaction_Complete t0) (\<lambda>t.
        go_bind (go_gets rt_lib) (\<lambda>L.
        go_bind (outbox_literal t (completed_payload L t) EventTransactionCompleted) (\<lambda>outboxEvent.
        go_bind (TxUpdate txRepo t) (\<lambda>_.
        OutboxSave outbox outboxEvent)))))"

definition TransactionService_CompleteTransaction ::
  "'a rt_scheme TransactionRepository \<Rightarrow> 'a rt_scheme OutboxRepository \<Rightarrow> uuid \<Rightarrow> ('a rt_scheme, unit) go"
where
  "TransactionService_CompleteTransaction txRepo outbox txID =
     go_bind (TxFindByID txRepo txID) (TransactionService_complete txRepo outbox)"

definition TransactionService_fail ::
  "'a rt_scheme TransactionRepository \<Rightarrow> 'a rt_scheme OutboxRepository \<Rightarrow> string \<Rightarrow> transaction
     \<Rightarrow> ('a rt_scheme, unit) go"
where
  "TransactionService_fail txRepo outbox reason t0 =
     (if tx_Status t0 \<noteq> StatusPending
      then go_throw (errors_New CodeConflict ''transaction not in pending state'')
      else
        go_bind (Transaction_Fail reason t0) (\<lambda>t.
        go_bind (go_gets rt_lib) (\<lambda>L.
        go_bind (outbox_literal t (failed_payload L reason t) EventTransactionFailed) (\<lambda>outboxEvent.
        go_bind (TxUpdate txRepo t) (\<lambda>_.
        OutboxSave outbox outboxEvent)))))"

definition TransactionService_FailTransaction ::
  "'a rt_scheme TransactionRepository \<Rightarrow> 'a rt_scheme OutboxRepository \<Rightarrow> uuid \<Rightarrow> string
     \<Rightarrow> ('a rt_scheme, unit) go"
where
  "TransactionService_FailTransaction txRepo outbox txID reason =
     go_bind (TxFindByID txRepo txID) (TransactionService_fail txRepo outbox reason)"

definition TransactionService_GetTransaction ::
  "'a rt_scheme TransactionRepository \<Rightarrow> uuid \<Rightarrow> ('a rt_scheme, transaction) go"
where
  "TransactionService_GetTransaction txRepo txID = TxFindByID txRepo txID"

section \<open>What the operations do\<close>

definition event_row :: "lib \<Rightarrow> transaction \<Rightarrow> json \<Rightarrow> string \<Rightarrow> outbox_event \<Rightarrow> bool" where
  "event_row L t payload typ row \<longleftrightarrow>
     oe_Topic row = topicTransactions \<and> oe_Key row = uuid_String L (tx_SourceWalletID t)
     \<and> oe_Payload row = payload \<and> oe_EventType row = typ \<and> oe_PublishedAt row = None"

definition new_transaction :: "uuid \<Rightarrow> uuid \<Rightarrow> i64 \<Rightarrow> string \<Rightarrow> string \<Rightarrow> transaction \<Rightarrow> bool" where
  "new_transaction src dst amount description key t \<longleftrightarrow>
     0 < sint amount \<and> src \<noteq> dst \<and> tx_SourceWalletID t = src \<and> tx_DestinationWalletID t = dst
     \<and> tx_AmountCents t = amount \<and> tx_Description t = description \<and> tx_IdempotencyKey t = key
     \<and> tx_Status t = StatusPending \<and> tx_FailureReason t = ''''"

text \<open>The checker is called, but it has no hand in the service's tables.\<close>

definition fraud_law ::
  "('a rt_scheme \<Rightarrow> 'f) \<Rightarrow> 'a rt_scheme FraudChecker option \<Rightarrow> bool"
where
  "fraud_law frame fraud \<longleftrightarrow>
     (\<forall>f. fraud = Some f \<longrightarrow> (\<forall>a b c d s r s'. f a b c d s = (r, s') \<longrightarrow> env_step s s' \<and> frame s' = frame s))"

text \<open>
  The tables after a call, in terms of those before: \<open>txs\<close> and \<open>rows\<close> are the transactions and the
  outbox, \<open>r\<close> the answer.
\<close>

definition initiate_outcome ::
  "lib \<Rightarrow> (transaction \<Rightarrow> bool) \<Rightarrow> transaction list \<times> outbox_event list \<Rightarrow> goerr + InitiateResult
     \<Rightarrow> transaction list \<times> outbox_event list \<Rightarrow> bool"
where
  "initiate_outcome L new v r v' \<longleftrightarrow>
     (v' = v \<and> (\<exists>e. r = Inl e))
     \<or> (\<exists>t. new t \<and> (\<forall>u \<in> set (fst v). \<not> tx_clash u t) \<and> fst v' = fst v @ [t]
          \<and> (snd v' = snd v \<and> (\<exists>e. r = Inl e)
             \<or> (\<exists>row. event_row L t (initiated_payload L t) EventTransactionInitiated row
                  \<and> snd v' = snd v @ [row] \<and> (r = Inr (InitiateResult_of t) \<or> (\<exists>e. r = Inl e)))))"

definition finish_outcome ::
  "lib \<Rightarrow> (time \<Rightarrow> transaction \<Rightarrow> transaction) \<Rightarrow> (transaction \<Rightarrow> json) \<Rightarrow> string \<Rightarrow> transaction
     \<Rightarrow> transaction list \<times> outbox_event list \<Rightarrow> goerr + unit \<Rightarrow> transaction list \<times> outbox_event list \<Rightarrow> bool"
where
  "finish_outcome L upd payload typ t v r v' \<longleftrightarrow>
     (v' = v \<and> r \<noteq> Inr ())
     \<or> (tx_Status t = StatusPending \<and> (\<exists>now. fst v' = tx_updated (upd now t) (fst v)
          \<and> (snd v' = snd v \<and> r \<noteq> Inr ()
             \<or> (\<exists>row. event_row L (upd now t) (payload (upd now t)) typ row \<and> snd v' = snd v @ [row]))))"

locale transfer_stores =
  t: transaction_table tr txs trest +
  o: outbox_table ob rows orest
  for tr :: "'a rt_scheme TransactionRepository" and txs :: "'a rt_scheme \<Rightarrow> transaction list"
    and trest :: "'a rt_scheme \<Rightarrow> 'r"
    and ob :: "'a rt_scheme OutboxRepository" and rows :: "'a rt_scheme \<Rightarrow> outbox_event list"
    and orest :: "'a rt_scheme \<Rightarrow> 'q" +
  assumes transaction_frame: "trest u = trest s \<Longrightarrow> rows u = rows s"
    and outbox_frame: "orest u = orest s \<Longrightarrow> txs u = txs s"

context transfer_stores
begin

definition tables :: "'a rt_scheme \<Rightarrow> transaction list \<times> outbox_event list" where
  "tables s = (txs s, rows s)"

lemma tables_tick [simp]: "tables (s\<lparr>rt_tick := k\<rparr>) = tables s"
  by (simp add: tables_def)

lemma only_tick_tables: "only_tick s u \<Longrightarrow> tables u = tables s \<and> env_step s u"
  by (auto elim!: only_tickE)

lemma outbox_step:
  assumes "OutboxSave ob e s = (r, u)"
  shows "env_step s u \<and> txs u = txs s
    \<and> (rows u = rows s \<and> r \<noteq> Inr () \<or> rows u = rows s @ [e\<lparr>oe_PublishedAt := None\<rparr>])"
proof -
  have "env_step s u" "orest u = orest s" "rows u = rows s \<or> rows u = rows s @ [e\<lparr>oe_PublishedAt := None\<rparr>]"
    using o.save_effect [OF assms] by blast+
  moreover have "r = Inr () \<Longrightarrow> rows u = rows s @ [e\<lparr>oe_PublishedAt := None\<rparr>]"
    using o.save_ok [of e s "()" u] assms by simp
  ultimately show ?thesis using outbox_frame by blast
qed

lemma outbox_literal_run:
  "outbox_literal t payload typ s =
     (Inr \<lparr>oe_ID = rt_uuid s (rt_tick s), oe_Topic = topicTransactions,
           oe_Key = uuid_String (rt_lib s) (tx_SourceWalletID t), oe_Payload = payload,
           oe_EventType = typ, oe_PublishedAt = None, oe_CreatedAt = rt_now s (Suc (rt_tick s))\<rparr>,
      s\<lparr>rt_tick := Suc (Suc (rt_tick s))\<rparr>)"
  by (simp add: outbox_literal_def uuid_New_def time_Now_def go_simps)

lemma fraudCheck_step:
  assumes law: "fraud_law tables fraud" and run: "TransactionService_fraudCheck fraud t s = (r, u)"
  shows "env_step s u \<and> tables u = tables s"
proof (cases fraud)
  case None
  then show ?thesis using run by (simp add: TransactionService_fraudCheck_def go_return_def)
next
  case (Some f)
  obtain q s1 where q: "f (tx_ID t) uuid_Nil (tx_SourceWalletID t) (tx_AmountCents t) s = (q, s1)" by fastforce
  have "u = s1"
    using run q Some by (auto simp: TransactionService_fraudCheck_def go_simps split: sum.splits if_splits)
  then show ?thesis using law q Some unfolding fraud_law_def by blast
qed

lemma save_pair:
  assumes "proper t" and ev: "event_row L t (initiated_payload L t) EventTransactionInitiated ev"
    and "new t"
    and run: "go_bind (TxSave tr t) (\<lambda>_. go_bind (OutboxSave ob ev) (\<lambda>_. go_return (InitiateResult_of t))) s = (r, u)"
  shows "env_step s u \<and> initiate_outcome L new (tables s) r (tables u)"
proof -
  obtain q s1 where sv: "TxSave tr t s = (q, s1)" by fastforce
  have s1: "env_step s s1" "rows s1 = rows s"
      "txs s1 = txs s \<or> (\<forall>u \<in> set (txs s). \<not> tx_clash u t) \<and> txs s1 = txs s @ [t]"
    using t.save_effect [OF sv assms(1)] transaction_frame by blast+
  show ?thesis
  proof (cases q)
    case (Inl e)
    then have "r = Inl e \<and> u = s1" using run sv by (simp add: go_simps)
    then show ?thesis using s1 assms(3) by (auto simp: initiate_outcome_def tables_def)
  next
    case (Inr y)
    have tx1: "(\<forall>u \<in> set (txs s). \<not> tx_clash u t) \<and> txs s1 = txs s @ [t]"
      by (rule t.save_ok [OF sv [unfolded Inr] assms(1)])
    obtain q2 s2 where sv2: "OutboxSave ob ev s1 = (q2, s2)" by fastforce
    have ev': "ev\<lparr>oe_PublishedAt := None\<rparr> = ev" using ev by (simp add: event_row_def)
    have s2: "env_step s s2" "txs s2 = txs s1" "rows s2 = rows s1 \<and> q2 \<noteq> Inr () \<or> rows s2 = rows s1 @ [ev]"
      using outbox_step [OF sv2] env_step_trans [OF s1(1), of s2] unfolding ev' by blast+
    have "u = s2 \<and> r = (case q2 of Inl e \<Rightarrow> Inl e | Inr z \<Rightarrow> Inr (InitiateResult_of t))"
      using run sv Inr sv2 by (simp add: go_simps split: sum.splits)
    then show ?thesis using assms(3) ev tx1 s1(2) s2
      by (cases q2) (auto simp: initiate_outcome_def tables_def)
  qed
qed

lemma startTransfer_spec:
  assumes law: "fraud_law tables fraud"
    and run: "TransactionService_startTransfer tr ob fraud src dst amount description key s = (r, u)"
  shows "env_step s u
    \<and> initiate_outcome (rt_lib s) (new_transaction src dst amount description key) (tables s) r (tables u)"
proof (cases "sint amount \<le> 0 \<or> src = dst")
  case True
  then show ?thesis
    using run by (auto simp: TransactionService_startTransfer_def NewTransaction_def go_simps
        initiate_outcome_def split: if_splits)
next
  case False
  define t where "t = \<lparr>tx_ID = rt_uuid s (Suc (rt_tick s)), tx_SourceWalletID = src, tx_DestinationWalletID = dst,
    tx_AmountCents = amount, tx_Description = description, tx_Status = StatusPending,
    tx_FailureReason = '''', tx_IdempotencyKey = key, tx_CreatedAt = rt_now s (rt_tick s),
    tx_UpdatedAt = rt_now s (rt_tick s)\<rparr>"
  let ?s1 = "s\<lparr>rt_tick := Suc (Suc (rt_tick s))\<rparr>"
  obtain q s2 where f: "TransactionService_fraudCheck fraud t ?s1 = (q, s2)" by fastforce
  have f2: "tables s2 = tables s" "env_step s s2"
    using fraudCheck_step [OF law f] by (auto simp: env_step_def)
  have L: "rt_lib s2 = rt_lib s" using f2(2) by (rule env_step_lib)
  note run_defs = TransactionService_startTransfer_def NewTransaction_def time_Now_def uuid_New_def
    go_simps t_def [symmetric] outbox_literal_run
  show ?thesis
  proof (cases q)
    case (Inl e)
    then have "r = Inl e \<and> u = s2" using run False f by (simp add: run_defs)
    then show ?thesis using f2 by (simp add: initiate_outcome_def)
  next
    case (Inr x)
    let ?ev = "\<lparr>oe_ID = rt_uuid s2 (rt_tick s2), oe_Topic = topicTransactions,
           oe_Key = uuid_String (rt_lib s2) (tx_SourceWalletID t), oe_Payload = initiated_payload (rt_lib s2) t,
           oe_EventType = EventTransactionInitiated, oe_PublishedAt = None,
           oe_CreatedAt = rt_now s2 (Suc (rt_tick s2))\<rparr>"
    let ?s3 = "s2\<lparr>rt_tick := Suc (Suc (rt_tick s2))\<rparr>"
    have "go_bind (TxSave tr t) (\<lambda>_. go_bind (OutboxSave ob ?ev) (\<lambda>_. go_return (InitiateResult_of t))) ?s3 = (r, u)"
      using run False f Inr by (simp add: run_defs)
    moreover have "proper t" by (rule properI) (simp add: t_def)
    ultimately have "env_step ?s3 u"
      "initiate_outcome (rt_lib s) (new_transaction src dst amount description key) (tables s) r (tables u)"
      using save_pair [of t "rt_lib s" ?ev "new_transaction src dst amount description key" ?s3 r u] False f2(1) L
      by (auto simp: event_row_def new_transaction_def t_def)
    then show ?thesis using f2(2) by (auto simp: env_step_def)
  qed
qed

text \<open>
  Asking twice with one key: what is found is what the earlier call stored; a lookup that fails is
  treated as if nothing was found.
\<close>

lemma initiate_spec:
  assumes law: "fraud_law tables fraud"
    and run: "TransactionService_InitiateTransfer tr ob fraud src dst amount description key s = (r, u)"
  shows "env_step s u \<and>
     ((\<exists>t. key \<noteq> '''' \<and> find (\<lambda>t. tx_IdempotencyKey t = key) (txs s) = Some t
         \<and> r = Inr (InitiateResult_of t) \<and> tables u = tables s)
      \<or> initiate_outcome (rt_lib s) (new_transaction src dst amount description key) (tables s) r (tables u))"
proof (cases "key = ''''")
  case True
  then show ?thesis
    using startTransfer_spec [OF law] run by (simp add: TransactionService_InitiateTransfer_def)
next
  case False
  obtain q s1 where q: "TxFindByIdempotencyKey tr key s = (q, s1)" by fastforce
  have s1: "tables s1 = tables s" "env_step s s1" using only_tick_tables [OF t.find_key_effect [OF q]] by blast+
  show ?thesis
  proof (cases q)
    case (Inl e)
    then have "TransactionService_startTransfer tr ob fraud src dst amount description key s1 = (r, u)"
      using run False q by (simp add: TransactionService_InitiateTransfer_def go_simps)
    from startTransfer_spec [OF law this] show ?thesis
      using s1 env_step_lib [OF s1(2)] env_step_trans [OF s1(2), of u] by simp
  next
    case (Inr t)
    then have "r = Inr (InitiateResult_of t) \<and> u = s1"
      using run False q by (simp add: TransactionService_InitiateTransfer_def go_simps)
    then show ?thesis using t.find_key_ok [OF q [unfolded Inr]] False s1 by blast
  qed
qed

lemma finish_spec:
  assumes pr: "\<And>now. proper (upd now t0)"
    and run: "(if tx_Status t0 \<noteq> StatusPending
       then go_throw (errors_New CodeConflict ''transaction not in pending state'')
       else go_bind (go_bind time_Now (\<lambda>now. go_return (upd now t0))) (\<lambda>t.
         go_bind (go_gets rt_lib) (\<lambda>L.
         go_bind (outbox_literal t (payload L t) typ) (\<lambda>ev.
         go_bind (TxUpdate tr t) (\<lambda>_. OutboxSave ob ev))))) s = (r, u)"
  shows "env_step s u \<and> finish_outcome (rt_lib s) upd (payload (rt_lib s)) typ t0 (tables s) r (tables u)"
proof (cases "tx_Status t0 = StatusPending")
  case False
  then show ?thesis using run by (auto simp: go_throw_def finish_outcome_def)
next
  case True
  let ?now = "rt_now s (rt_tick s)" and ?s1 = "s\<lparr>rt_tick := Suc (Suc (Suc (rt_tick s)))\<rparr>"
  let ?t = "upd ?now t0"
  let ?ev = "\<lparr>oe_ID = rt_uuid s (Suc (rt_tick s)), oe_Topic = topicTransactions,
           oe_Key = uuid_String (rt_lib s) (tx_SourceWalletID ?t), oe_Payload = payload (rt_lib s) ?t,
           oe_EventType = typ, oe_PublishedAt = None, oe_CreatedAt = rt_now s (Suc (Suc (rt_tick s)))\<rparr>"
  have row: "event_row (rt_lib s) ?t (payload (rt_lib s) ?t) typ ?ev" by (simp add: event_row_def)
  have body: "go_bind (TxUpdate tr ?t) (\<lambda>_. OutboxSave ob ?ev) ?s1 = (r, u)"
    using run True by (simp add: go_simps time_Now_def outbox_literal_run cong del: prod.case_cong_weak sum.case_cong_weak)
  obtain q s2 where up: "TxUpdate tr ?t ?s1 = (q, s2)" by fastforce
  have eff: "env_step ?s1 s2" "trest s2 = trest s" "txs s2 = txs s \<or> txs s2 = tx_updated ?t (txs s)"
    using t.update_effect [OF up pr] by simp_all
  note s2 = eff(1) transaction_frame [OF eff(2)] eff(3)
  have e2: "env_step s s2" using s2(1) by (auto simp: env_step_def)
  show ?thesis
  proof (cases q)
    case (Inl e)
    then have "r = Inl e \<and> u = s2" using body up by (simp add: go_simps)
    then show ?thesis using s2 e2 True by (auto simp: finish_outcome_def tables_def)
  next
    case (Inr x)
    have tx2: "txs s2 = tx_updated ?t (txs s)" using t.update_ok [OF up [unfolded Inr] pr] by simp
    have "OutboxSave ob ?ev s2 = (r, u)" using body up Inr by (simp add: go_simps)
    from outbox_step [OF this] have "env_step s2 u" "txs u = txs s2"
      "rows u = rows s2 \<and> r \<noteq> Inr () \<or> rows u = rows s2 @ [?ev]" by simp_all
    then show ?thesis
      using True tx2 s2(2) row env_step_trans [OF e2] by (auto simp: finish_outcome_def tables_def)
  qed
qed

lemma complete_spec:
  assumes "TransactionService_complete tr ob t0 s = (r, u)"
  shows "env_step s u \<and> finish_outcome (rt_lib s)
    (\<lambda>now t. t\<lparr>tx_Status := StatusCompleted, tx_UpdatedAt := now\<rparr>) (completed_payload (rt_lib s))
    EventTransactionCompleted t0 (tables s) r (tables u)"
  by (rule finish_spec)
    (use assms in \<open>auto simp: TransactionService_complete_def Transaction_Complete_def final_def\<close>)

lemma fail_spec:
  assumes "TransactionService_fail tr ob reason t0 s = (r, u)"
  shows "env_step s u \<and> finish_outcome (rt_lib s)
    (\<lambda>now t. t\<lparr>tx_Status := StatusFailed, tx_FailureReason := reason, tx_UpdatedAt := now\<rparr>)
    (failed_payload (rt_lib s) reason) EventTransactionFailed t0 (tables s) r (tables u)"
  by (rule finish_spec)
    (use assms in \<open>auto simp: TransactionService_fail_def Transaction_Fail_def final_def\<close>)

text \<open>Reading the transaction first.\<close>

lemma with_found:
  assumes run: "go_bind (TxFindByID tr i) K s = (r, u)"
  obtains (missing) e where "r = Inl e" "tables u = tables s" "env_step s u"
    | (found) t s1 where "find (\<lambda>t. tx_ID t = i) (txs s) = Some t" "only_tick s s1" "K t s1 = (r, u)"
proof -
  obtain q s1 where q: "TxFindByID tr i s = (q, s1)" by fastforce
  have s1: "only_tick s s1" by (rule t.find_effect [OF q])
  show thesis
  proof (cases q)
    case (Inl e)
    then have "r = Inl e" "u = s1" using run q by (simp_all add: go_simps)
    then show thesis using missing only_tick_tables [OF s1] by blast
  next
    case (Inr t)
    then have "K t s1 = (r, u)" using run q by (simp add: go_simps)
    then show thesis using found [OF t.find_ok s1] q Inr by blast
  qed
qed

end

interpretation transfer_pg: transfer_stores TransactionRepository_postgres txs_of
  "\<lambda>s. (outbox_events s, transaction_db.more s)"
  OutboxRepository_postgres outbox_events "\<lambda>s. (txs_of s, transaction_db.more s)"
  by unfold_locales auto

section \<open>The service on its database\<close>

abbreviation tx_tables :: "'a transaction_db_scheme \<Rightarrow> transaction list \<times> outbox_event list" where
  "tx_tables s \<equiv> (txs_of s, outbox_events s)"

abbreviation svc_Initiate ::
  "'a transaction_db_scheme FraudChecker option \<Rightarrow> uuid \<Rightarrow> uuid \<Rightarrow> i64 \<Rightarrow> string \<Rightarrow> string
     \<Rightarrow> ('a transaction_db_scheme, InitiateResult) go"
where
  "svc_Initiate \<equiv> TransactionService_InitiateTransfer TransactionRepository_postgres OutboxRepository_postgres"

abbreviation svc_Complete :: "uuid \<Rightarrow> ('a transaction_db_scheme, unit) go" where
  "svc_Complete \<equiv> TransactionService_CompleteTransaction TransactionRepository_postgres OutboxRepository_postgres"

abbreviation svc_Fail :: "uuid \<Rightarrow> string \<Rightarrow> ('a transaction_db_scheme, unit) go" where
  "svc_Fail \<equiv> TransactionService_FailTransaction TransactionRepository_postgres OutboxRepository_postgres"

lemma transfer_tables [simp]: "transfer_pg.tables s = tx_tables s"
  by (simp add: transfer_pg.tables_def)

lemma fraud_law_tables: "fraud_law tx_tables fraud \<Longrightarrow> fraud_law transfer_pg.tables fraud"
  by (simp add: fraud_law_def)

text \<open>A database with one pending transaction, for the witnesses.\<close>

definition sample_transfer :: transaction where
  "sample_transfer =
     \<lparr>tx_ID = 500, tx_SourceWalletID = 7, tx_DestinationWalletID = 8, tx_AmountCents = 30,
      tx_Description = ''rent'', tx_Status = StatusPending, tx_FailureReason = [],
      tx_IdempotencyKey = ''key-1'', tx_CreatedAt = 5, tx_UpdatedAt = 5\<rparr>"

definition sample_tx_db :: transaction_db where
  "sample_tx_db = rt.extend sample_rt
     \<lparr>transactions = [txRow_of sample_transfer], outbox_events = []\<rparr>"

lemma sample_tx_db_simps [simp]:
  "txs_of sample_tx_db = [sample_transfer]" "outbox_events sample_tx_db = []"
  "no_faults sample_tx_db" "rt_lib sample_tx_db = sample_lib"
proof -
  show "txs_of sample_tx_db = [sample_transfer]"
    by (simp add: txs_of_def sample_tx_db_def rt.defs)
      (rule txRow_roundtrip, rule properI, simp add: sample_transfer_def)
qed (simp_all add: sample_tx_db_def rt.defs no_faults_def sample_rt_def)

text \<open>C9. Starting a transfer: either the key is known and the answer is the transaction stored under
  it, the tables unchanged; or nothing was stored and the answer is an error; or one new pending
  transaction with the given wallets, amount and key was stored, its amount positive and its wallets
  different. In the last case the event that announces it is in the outbox, unless saving it failed,
  and the answer is that transaction or an error; without the event it is an error.\<close>

theorem initiate_transfer_outcome:
  assumes "fraud_law tx_tables fraud"
    and "svc_Initiate fraud src dst amount description key s = (r, s')"
  shows "(\<exists>t. key \<noteq> '''' \<and> find (\<lambda>t. tx_IdempotencyKey t = key) (txs_of s) = Some t
         \<and> r = Inr (InitiateResult_of t) \<and> tx_tables s' = tx_tables s)
    \<or> (tx_tables s' = tx_tables s \<and> (\<exists>e. r = Inl e))
    \<or> (\<exists>t. new_transaction src dst amount description key t \<and> txs_of s' = txs_of s @ [t]
         \<and> (outbox_events s' = outbox_events s \<and> (\<exists>e. r = Inl e)
            \<or> (\<exists>row. event_row (rt_lib s) t (initiated_payload (rt_lib s) t) EventTransactionInitiated row
                 \<and> outbox_events s' = outbox_events s @ [row]
                 \<and> (r = Inr (InitiateResult_of t) \<or> (\<exists>e. r = Inl e)))))"
  using transfer_pg.initiate_spec [OF fraud_law_tables [OF assms(1)] assms(2)]
  by (auto simp: initiate_outcome_def)

theorem initiate_transfer_outcome_witness:
  "\<exists>t. txs_of (snd (svc_Initiate None 7 9 40 ''gift'' ''key-2'' sample_tx_db)) = [sample_transfer, t]
     \<and> new_transaction 7 9 40 ''gift'' ''key-2'' t"
proof -
  let ?run = "svc_Initiate None 7 9 40 ''gift'' ''key-2'' sample_tx_db"
  have ok: "(case fst ?run of Inr x \<Rightarrow> True | Inl e \<Rightarrow> False)" by code_simp
  have "fraud_law tx_tables (None :: transaction_db FraudChecker option)" by (simp add: fraud_law_def)
  from initiate_transfer_outcome [OF this surjective_pairing, where src = 7 and dst = 9 and amount = 40
      and description = "''gift''" and key = "''key-2''" and s = sample_tx_db]
  show ?thesis using ok by (auto simp: sample_transfer_def split: sum.splits)
qed

text \<open>C14. Idempotency: when a transfer with a key has been answered with a transaction, every later
  request with that key, whatever its wallets and amount, that runs without driver failures is
  answered with the same transaction and stores nothing.\<close>

theorem initiate_idempotent:
  assumes "fraud_law tx_tables fraud" and "fraud_law tx_tables fraud'" and "key \<noteq> ''''"
    and "svc_Initiate fraud src dst amount description key s = (Inr res, s1)"
    and "no_faults s1"
    and "svc_Initiate fraud' src' dst' amount' description' key s1 = (r, s2)"
  shows "r = Inr res \<and> tx_tables s2 = tx_tables s1"
proof -
  have known: "\<exists>t. find (\<lambda>t. tx_IdempotencyKey t = key) (txs_of s1) = Some t \<and> res = InitiateResult_of t"
    using transfer_pg.initiate_spec [OF fraud_law_tables [OF assms(1)] assms(4)]
  proof (elim conjE disjE)
    assume "\<exists>t. key \<noteq> '''' \<and> find (\<lambda>t. tx_IdempotencyKey t = key) (txs_of s) = Some t
      \<and> Inr res = Inr (InitiateResult_of t) \<and> transfer_pg.tables s1 = transfer_pg.tables s"
    then show ?thesis by auto
  next
    assume "initiate_outcome (rt_lib s) (new_transaction src dst amount description key)
      (transfer_pg.tables s) (Inr res) (transfer_pg.tables s1)"
    then obtain t where t: "new_transaction src dst amount description key t"
      "\<forall>u \<in> set (txs_of s). \<not> tx_clash u t" "txs_of s1 = txs_of s @ [t]" "res = InitiateResult_of t"
      by (auto simp: initiate_outcome_def)
    have "find (\<lambda>t. tx_IdempotencyKey t = key) (txs_of s) = None"
      using t(1,2) assms(3) by (auto simp: find_None_iff tx_clash_def new_transaction_def)
    then show ?thesis using t by (simp add: find_append new_transaction_def)
  qed
  obtain q s1' where q: "TransactionRepository_FindByIdempotencyKey key s1 = (q, s1')" by fastforce
  have "\<exists>t. q = Inr t \<and> res = InitiateResult_of t"
    using FindByIdempotencyKey_spec(3) [OF q assms(5)] known by auto
  moreover have "tx_tables s1' = tx_tables s1"
    using FindByIdempotencyKey_spec(1) [OF q] by (auto elim!: only_tickE)
  ultimately show ?thesis
    using assms(3,6) q
    by (auto simp: TransactionService_InitiateTransfer_def TransactionRepository_postgres_def go_simps)
qed

text \<open>A bystander: another service's request under a key that is known.\<close>

theorem initiate_idempotent_witness:
  "\<exists>res. fst (svc_Initiate None 7 9 40 ''gift'' ''key-2'' sample_tx_db) = Inr res
     \<and> fst (svc_Initiate None 1 2 99 ''other'' ''key-2''
          (snd (svc_Initiate None 7 9 40 ''gift'' ''key-2'' sample_tx_db))) = Inr res"
proof -
  let ?run = "svc_Initiate None 7 9 40 ''gift'' ''key-2'' sample_tx_db"
  have "(case fst ?run of Inr x \<Rightarrow> True | Inl e \<Rightarrow> False)" by code_simp
  then obtain res where res: "?run = (Inr res, snd ?run)" by (cases "fst ?run") (auto simp: prod_eq_iff)
  have law: "fraud_law tx_tables (None :: transaction_db FraudChecker option)" by (simp add: fraud_law_def)
  have "env_step sample_tx_db (snd ?run)"
    using transfer_pg.initiate_spec [OF fraud_law_tables [OF law] res] by blast
  then have nf: "no_faults (snd ?run)" by (simp add: env_step_no_faults)
  from initiate_idempotent [OF law law _ res nf surjective_pairing, where src' = 1 and dst' = 2
      and amount' = 99 and description' = "''other''"]
  show ?thesis using res by (metis fst_conv list.distinct(1))
qed

section \<open>The state machine\<close>

text \<open>One call of the service with the fraud checker \<open>fraud\<close>.\<close>

inductive transfer_step ::
  "'a transaction_db_scheme FraudChecker option \<Rightarrow> 'a transaction_db_scheme \<Rightarrow> 'a transaction_db_scheme \<Rightarrow> bool"
  for fraud
where
  step_initiate: "svc_Initiate fraud src dst amount description key s = (r, s') \<Longrightarrow> transfer_step fraud s s'"
| step_complete: "svc_Complete i s = (r, s') \<Longrightarrow> transfer_step fraud s s'"
| step_fail: "svc_Fail i reason s = (r, s') \<Longrightarrow> transfer_step fraud s s'"
| step_get: "TransactionService_GetTransaction TransactionRepository_postgres i s = (r, s') \<Longrightarrow> transfer_step fraud s s'"

text \<open>Every transaction is still there, the same but for its status, which did not go back.\<close>

definition progressed :: "transaction \<Rightarrow> transaction \<Rightarrow> bool" where
  "progressed t t' \<longleftrightarrow> tx_ID t' = tx_ID t \<and> tx_Status t \<le> tx_Status t'
     \<and> tx_SourceWalletID t' = tx_SourceWalletID t \<and> tx_DestinationWalletID t' = tx_DestinationWalletID t
     \<and> tx_AmountCents t' = tx_AmountCents t \<and> tx_IdempotencyKey t' = tx_IdempotencyKey t
     \<and> tx_CreatedAt t' = tx_CreatedAt t"

lemma progressed_refl [simp]: "progressed t t"
  by (simp add: progressed_def)

lemma progressed_trans: "progressed t u \<Longrightarrow> progressed u v \<Longrightarrow> progressed t v"
  unfolding progressed_def by (metis order_trans)

definition advanced :: "transaction list \<Rightarrow> transaction list \<Rightarrow> bool" where
  "advanced ts ts' \<longleftrightarrow> (\<forall>t \<in> set ts. \<exists>t' \<in> set ts'. progressed t t')"

lemma advanced_refl [simp]: "advanced ts ts"
  unfolding advanced_def using progressed_refl by blast

lemma advanced_snoc [simp]: "advanced ts (ts @ us)"
  unfolding advanced_def using progressed_refl by fastforce

lemma advanced_trans: "advanced ts us \<Longrightarrow> advanced us vs \<Longrightarrow> advanced ts vs"
  unfolding advanced_def by (meson progressed_trans)

lemma advanced_update:
  assumes dist: "txs_distinct ts" and found: "find (\<lambda>t. tx_ID t = i) ts = Some t"
    and pend: "tx_Status t = StatusPending"
    and upd: "tx_ID t' = tx_ID t" "final (tx_Status t')"
  shows "advanced ts (tx_updated t' ts)"
  unfolding advanced_def
proof
  fix u assume u: "u \<in> set ts"
  have t: "t \<in> set ts" "tx_ID t = i" using found by (auto simp: find_Some_iff)
  show "\<exists>v \<in> set (tx_updated t' ts). progressed u v"
  proof (cases "tx_ID u = tx_ID t")
    case True
    then have "Some u = Some t"
      using txs_distinct_find(1) [OF dist u] txs_distinct_find(1) [OF dist t(1)] by metis
    then have "u = t" by (rule option.inject [THEN iffD1])
    then have "progressed u (u\<lparr>tx_Status := tx_Status t', tx_FailureReason := tx_FailureReason t',
        tx_UpdatedAt := tx_UpdatedAt t'\<rparr>)"
      using pend upd(2) by (simp add: progressed_def less_eq_Status_def)
    moreover have "u\<lparr>tx_Status := tx_Status t', tx_FailureReason := tx_FailureReason t',
        tx_UpdatedAt := tx_UpdatedAt t'\<rparr> \<in> set (tx_updated t' ts)"
      using u True upd(1) by (force simp: tx_updated_def)
    ultimately show ?thesis by blast
  next
    case False
    then have "u \<in> set (tx_updated t' ts)" using u upd(1) by (force simp: tx_updated_def)
    then show ?thesis using progressed_refl by blast
  qed
qed

lemma finish_outcome_txs:
  assumes "finish_outcome L upd payload typ t v r v'"
  shows "fst v' = fst v \<or> tx_Status t = StatusPending \<and> (\<exists>now. fst v' = tx_updated (upd now t) (fst v))"
  using assms unfolding finish_outcome_def by blast

lemma finish_advances:
  assumes dist: "txs_distinct (txs_of s)" and found: "find (\<lambda>t. tx_ID t = i) (txs_of s) = Some t"
    and out: "finish_outcome L upd payload typ t (tx_tables s) r (tx_tables s')"
    and upd: "\<And>now. tx_ID (upd now t) = tx_ID t" "\<And>now. final (tx_Status (upd now t))"
  shows "txs_distinct (txs_of s') \<and> advanced (txs_of s) (txs_of s')"
proof -
  from out consider "txs_of s' = txs_of s"
    | now where "tx_Status t = StatusPending" "txs_of s' = tx_updated (upd now t) (txs_of s)"
    using finish_outcome_txs [OF out] by auto
  then show ?thesis
  proof cases
    case 1
    then show ?thesis using dist by simp
  next
    case (2 now)
    have "advanced (txs_of s) (tx_updated (upd now t) (txs_of s))"
      by (rule advanced_update [OF dist found 2(1) upd])
    then show ?thesis using dist by (simp add: 2(2))
  qed
qed

lemma transfer_step_advances:
  assumes "fraud_law tx_tables fraud" and "transfer_step fraud s s'" and dist: "txs_distinct (txs_of s)"
  shows "txs_distinct (txs_of s') \<and> advanced (txs_of s) (txs_of s')"
  using assms(2)
proof cases
  case (step_initiate src dst amount description key r)
  from transfer_pg.initiate_spec [OF fraud_law_tables [OF assms(1)] this] dist show ?thesis
    by (auto simp: initiate_outcome_def intro: txs_distinct_snoc)
next
  case (step_complete i r)
  from step_complete [unfolded TransactionService_CompleteTransaction_def] show ?thesis
  proof (cases rule: transfer_pg.with_found)
    case (found t s1)
    have "finish_outcome (rt_lib s) (\<lambda>now t. t\<lparr>tx_Status := StatusCompleted, tx_UpdatedAt := now\<rparr>)
        (completed_payload (rt_lib s)) EventTransactionCompleted t (tx_tables s) r (tx_tables s')"
      using transfer_pg.complete_spec [OF found(3)] found(2) by (auto elim!: only_tickE)
    then show ?thesis by (rule finish_advances [OF dist found(1)]) (simp_all add: final_def)
  qed (use dist in simp)
next
  case (step_fail i reason r)
  from step_fail [unfolded TransactionService_FailTransaction_def] show ?thesis
  proof (cases rule: transfer_pg.with_found)
    case (found t s1)
    have "finish_outcome (rt_lib s)
        (\<lambda>now t. t\<lparr>tx_Status := StatusFailed, tx_FailureReason := reason, tx_UpdatedAt := now\<rparr>)
        (failed_payload (rt_lib s) reason) EventTransactionFailed t (tx_tables s) r (tx_tables s')"
      using transfer_pg.fail_spec [OF found(3)] found(2) by (auto elim!: only_tickE)
    then show ?thesis by (rule finish_advances [OF dist found(1)]) (simp_all add: final_def)
  qed (use dist in simp)
next
  case (step_get i r)
  then have "only_tick s s'"
    using FindByID_spec(1) by (simp add: TransactionService_GetTransaction_def TransactionRepository_postgres_def)
  then show ?thesis using dist by (auto elim!: only_tickE)
qed



end
