(* ===== verification/TransactionRaces.thy ===== *)
theory TransactionRaces
  imports TransactionService
begin

text \<open>
  Where the transaction service writes its two tables without one database transaction around them:
  the transfer that was stored but not announced, and two callers that finish the same transfer.
\<close>

lemma known_key_answered:
  assumes "no_faults s" "key \<noteq> ''''" "find (\<lambda>t. tx_IdempotencyKey t = key) (txs_of s) = Some t"
    and run: "svc_Initiate fraud src dst amount description key s = (r, s')"
  shows "r = Inr (InitiateResult_of t) \<and> tx_tables s' = tx_tables s"
proof -
  obtain q s1 where q: "TransactionRepository_FindByIdempotencyKey key s = (q, s1)" by fastforce
  have "q = Inr t" using FindByIdempotencyKey_spec(3) [OF q assms(1)] assms(3) by simp
  moreover have "tx_tables s1 = tx_tables s" using FindByIdempotencyKey_spec(1) [OF q] by (auto elim!: only_tickE)
  ultimately show ?thesis using run q assms(2)
    by (auto simp: TransactionService_InitiateTransfer_def TransactionRepository_postgres_def go_simps)
qed

text \<open>C35. The transaction and the event that announces it are not saved atomically: when the transaction was
  stored and its event was not, the caller gets an error, and a retry with the same key, the remedy the
  key is for, is answered as a success with that pending transaction while no event is ever written:
  no wallet will hear of the transfer.\<close>

theorem unannounced_transfer_confirmed:
  assumes "fraud_law tx_tables fraud" and "key \<noteq> ''''"
    and "svc_Initiate fraud src dst amount description key s = (r, s1)"
    and "txs_of s1 \<noteq> txs_of s" "outbox_events s1 = outbox_events s"
    and "tx_tables u = tx_tables s1" "no_faults u"
    and "svc_Initiate fraud' src' dst' amount' description' key u = (r', u')"
  shows "(\<exists>e. r = Inl e)
    \<and> (\<exists>t. txs_of s1 = txs_of s @ [t] \<and> new_transaction src dst amount description key t
         \<and> r' = Inr (InitiateResult_of t) \<and> txs_of u' = txs_of s1)
    \<and> outbox_events u' = outbox_events s"
proof -
  obtain t where t: "new_transaction src dst amount description key t" "\<forall>u \<in> set (txs_of s). \<not> tx_clash u t"
    "txs_of s1 = txs_of s @ [t]" "\<exists>e. r = Inl e"
    using transfer_pg.initiate_spec [OF fraud_law_tables [OF assms(1)] assms(3)] assms(4,5)
    by (auto simp: initiate_outcome_def)
  have "find (\<lambda>t. tx_IdempotencyKey t = key) (txs_of s) = None"
    using t(1,2) assms(2) by (auto simp: find_None_iff tx_clash_def new_transaction_def)
  then have "find (\<lambda>t. tx_IdempotencyKey t = key) (txs_of u) = Some t"
    using t assms(6) by (simp add: find_append new_transaction_def)
  from known_key_answered [OF assms(7,2) this assms(8)] show ?thesis using t assms(5,6) by auto
qed

definition sample_tx_db_lossy :: transaction_db where
  "sample_tx_db_lossy = sample_tx_db\<lparr>rt_fault := (\<lambda>k. if k = 6 then FailBefore ''connection reset'' else NoFault)\<rparr>"

theorem unannounced_transfer_confirmed_witness:
  "let (r, s1) = svc_Initiate None 7 9 40 ''gift'' ''key-2'' sample_tx_db_lossy;
       (r', u') = svc_Initiate None 7 9 40 ''gift'' ''key-2'' (s1\<lparr>rt_fault := (\<lambda>_. NoFault)\<rparr>)
   in (\<exists>e. r = Inl e) \<and> (\<exists>x. r' = Inr x) \<and> outbox_events u' = []"
proof -
  let ?run = "svc_Initiate None 7 9 40 ''gift'' ''key-2'' sample_tx_db_lossy"
  let ?u = "(snd ?run)\<lparr>rt_fault := (\<lambda>_. NoFault)\<rparr>"
  have stored: "length (txs_of (snd ?run)) = 2" "outbox_events (snd ?run) = []" by code_simp+
  have law: "fraud_law tx_tables (None :: transaction_db FraudChecker option)" by (simp add: fraud_law_def)
  have init: "txs_of sample_tx_db_lossy = [sample_transfer]" "outbox_events sample_tx_db_lossy = []"
    using sample_tx_db_simps by (simp_all add: sample_tx_db_lossy_def txs_of_def)
  have "txs_of (snd ?run) \<noteq> txs_of sample_tx_db_lossy" using stored(1) init(1) by auto
  moreover have "tx_tables ?u = tx_tables (snd ?run)" "no_faults ?u" by (simp_all add: txs_of_def no_faults_def)
  ultimately show ?thesis
    using unannounced_transfer_confirmed [OF law _ surjective_pairing, of "''key-2''" 7 9 40 "''gift''" sample_tx_db_lossy
        ?u None 7 9 40 "''gift''"] stored(2) init(2)
    by (auto simp: Let_def split: prod.splits)
qed



end
