(* ===== verification/TransferFlow.thy ===== *)
theory TransferFlow
  imports WalletSaga TransactionRaces
begin

text \<open>
  A transfer across the two services: the transaction service's outbox row becomes, through its
  outbox worker, the Kafka record the wallet's saga handler decodes. Both sides were written
  separately (\<open>domain/events.go\<close> of the transaction service, the payload structs of the wallet's
  \<open>saga_handler.go\<close>); here they meet.
\<close>

section \<open>The messages fit\<close>

text \<open>What the wallet reads of a transaction's payload.\<close>

definition wallet_payload :: "transaction \<Rightarrow> transactionInitiatedPayload" where
  "wallet_payload t =
     \<lparr>ti_TransactionID = tx_ID t, ti_SourceWalletID = tx_SourceWalletID t,
      ti_DestinationWalletID = tx_DestinationWalletID t, ti_AmountCents = tx_AmountCents t\<rparr>"

lemmas payload_defs = initiated_payload_def completed_payload_def TransactionInitiatedPayload_Marshal_def
  TransactionCompletedPayload_Marshal_def transactionInitiatedPayload_field_def zero_transactionInitiatedPayload_def
  wallet_payload_def

lemma payload_decodes:
  assumes "uuid_laws L"
  shows "json_Unmarshal (transactionInitiatedPayload_field L) zero_transactionInitiatedPayload
      (Some (initiated_payload L t)) = (wallet_payload t, None)"
    and "json_Unmarshal (transactionInitiatedPayload_field L) zero_transactionInitiatedPayload
      (Some (completed_payload L t)) = (wallet_payload t, None)"
  using assms by (simp_all add: payload_defs name_match_simps)

lemma initiated_record:
  assumes "uuid_laws L" "event_row L t (initiated_payload L t) EventTransactionInitiated row"
  shows "saga_event L (OutboxWorker_record L row) (oe_ID row) (CmdReserve (tx_AmountCents t) (tx_ID t))
    (tx_SourceWalletID t) (reserved_row L (wallet_payload t))"
  using assms payload_decodes(1) [OF assms(1), of t]
  by (simp add: saga_event_def OutboxWorker_record_def event_row_def EventTransactionInitiated_def)
    (simp add: wallet_payload_def)

lemma completed_record:
  assumes "uuid_laws L" "event_row L t (completed_payload L t) EventTransactionCompleted row"
  shows "saga_event L (OutboxWorker_record L row) (oe_ID row) (CmdDeposit (tx_AmountCents t) ''saga credit'')
    (tx_DestinationWalletID t) (deposited_row L (wallet_payload t))"
  using assms payload_decodes(2) [OF assms(1), of t]
  by (simp add: saga_event_def OutboxWorker_record_def event_row_def EventTransactionCompleted_def)
    (simp add: wallet_payload_def)

text \<open>A new event that is answered with nil was handled.\<close>

lemma saga_done:
  assumes "wallet_db_ok w" "saga_event (rt_lib w) rec i c wid isrow" "has_room w wid" "i \<notin> wallet_seen w"
    and "saga_Handle rec w = (Inr (), w')"
  shows "wallet_db_ok w' \<and> rt_lib w' = rt_lib w \<and> wallet_seen w' = insert i (wallet_seen w)
    \<and> spec_update c wid (wallet_accounts w) = Inr (wallet_accounts w')"
  using saga_pg_handled [OF assms] by (auto simp: handled_def saga_outcome_def dest: env_step_lib)

section \<open>From the request to the reservation\<close>


section \<open>Where the money goes\<close>

text \<open>C11. A completed transfer creates money: when both of its events were handled, each once and without an
  error, the destination's balance has grown by the amount, while the source's balance is what it was
  and the amount stays reserved there: no event of the transfer withdraws it.\<close>

theorem completed_transfer_creates_money:
  assumes "uuid_laws (rt_lib w)" and "wallet_db_ok w"
    and "event_row (rt_lib w) t (initiated_payload (rt_lib w) t) EventTransactionInitiated row"
    and "event_row (rt_lib w) t' (completed_payload (rt_lib w) t') EventTransactionCompleted row'"
    and "tx_SourceWalletID t' = tx_SourceWalletID t" "tx_DestinationWalletID t' = tx_DestinationWalletID t"
    and "tx_AmountCents t' = tx_AmountCents t" "tx_SourceWalletID t \<noteq> tx_DestinationWalletID t"
    and "has_room w (tx_SourceWalletID t)" "has_room w1 (tx_DestinationWalletID t)"
    and "oe_ID row \<notin> wallet_seen w" "oe_ID row' \<notin> insert (oe_ID row) (wallet_seen w)"
    and "saga_Handle (OutboxWorker_record (rt_lib w) row) w = (Inr (), w1)"
    and "saga_Handle (OutboxWorker_record (rt_lib w) row') w1 = (Inr (), w2)"
  shows "\<exists>a b. wallet_accounts w (tx_SourceWalletID t) = Some a \<and> wallet_accounts w (tx_DestinationWalletID t) = Some b
    \<and> wallet_accounts w2 = (wallet_accounts w)
        (tx_SourceWalletID t \<mapsto> a\<lparr>w_Reserved := w_Reserved a + tx_AmountCents t, w_Version := w_Version a + 1\<rparr>,
         tx_DestinationWalletID t \<mapsto> b\<lparr>w_BalanceCents := w_BalanceCents b + tx_AmountCents t, w_Version := w_Version b + 1\<rparr>)"
proof -
  have one: "wallet_db_ok w1" "rt_lib w1 = rt_lib w" "wallet_seen w1 = insert (oe_ID row) (wallet_seen w)"
    "spec_update (CmdReserve (tx_AmountCents t) (tx_ID t)) (tx_SourceWalletID t) (wallet_accounts w) = Inr (wallet_accounts w1)"
    using saga_done [OF assms(2) initiated_record [OF assms(1,3)] assms(9,11,13)] by simp_all
  have ev: "saga_event (rt_lib w1) (OutboxWorker_record (rt_lib w) row') (oe_ID row')
      (CmdDeposit (tx_AmountCents t) ''saga credit'') (tx_DestinationWalletID t) (deposited_row (rt_lib w1) (wallet_payload t'))"
    using completed_record [OF assms(1,4)] assms(5-7) one(2) by simp
  have two: "spec_update (CmdDeposit (tx_AmountCents t) ''saga credit'') (tx_DestinationWalletID t) (wallet_accounts w1)
      = Inr (wallet_accounts w2)"
    using saga_done [OF one(1) ev assms(10) _ assms(14)] one(3) assms(12) by simp
  obtain a where a: "wallet_accounts w (tx_SourceWalletID t) = Some a" "wallet_accounts w1 = (wallet_accounts w)
      (tx_SourceWalletID t \<mapsto> a\<lparr>w_Reserved := w_Reserved a + tx_AmountCents t, w_Version := w_Version a + 1\<rparr>)"
    using one(4) by (auto simp: spec_update_def split: option.splits if_splits)
  then have "wallet_accounts w1 (tx_DestinationWalletID t) = wallet_accounts w (tx_DestinationWalletID t)"
    using assms(8) by simp
  then show ?thesis using two a by (auto simp: spec_update_def split: option.splits if_splits)
qed


section \<open>A transfer that runs\<close>

text \<open>The transaction database beside a broker's log, and a broker that accepts every record.\<close>

definition sample_bus :: "kafka_record list transaction_db_scheme" where
  "sample_bus = transaction_db.extend sample_tx_db []"

definition sample_send :: "kafka_record \<Rightarrow> (kafka_record list transaction_db_scheme, unit) go" where
  "sample_send rec s = (Inr (), transaction_db.more_update (\<lambda>log. log @ [rec]) s)"

lemma sample_send_publishes: "publishes (\<lambda>s. snd (txs_of s, transaction_db.more s)) outbox_events sample_send"
  unfolding publishes_def
proof (intro allI impI)
  fix r s q s'
  assume "sample_send r s = (q, s')"
  then have s': "s' = transaction_db.more_update (\<lambda>log. log @ [r]) s" by (simp add: sample_send_def)
  show "env_step s s' \<and> outbox_events s' = outbox_events s
      \<and> (\<exists>n. snd (txs_of s', transaction_db.more s') = snd (txs_of s, transaction_db.more s) @ replicate n r
           \<and> (q = Inr () \<longrightarrow> 0 < n))"
    by (intro conjI exI [of _ 1]) (simp_all add: s' env_step_def)
qed

lemma sample_bus_simps [simp]:
  "rt_lib sample_bus = sample_lib" "outbox_events sample_bus = []" "txs_of sample_bus = [sample_transfer]"
  using sample_tx_db_simps(1,4) by (simp_all add: sample_bus_def transaction_db.defs txs_of_def sample_tx_db_def rt.defs)

abbreviation sample_request :: "(goerr + InitiateResult) \<times> kafka_record list transaction_db_scheme" where
  "sample_request \<equiv> svc_Initiate None 7 9 40 ''gift'' ''key-2'' sample_bus"


text \<open>A second wallet, the destination, beside wallet 7.\<close>

definition sample_two_wallets :: wallet_db where
  "sample_two_wallets =
     snd (WalletService_CreateWallet EventStore_postgres SnapshotStore_postgres 5 ''BRL'' sample_wallet_db7)"

definition sample_gift :: transaction where
  "sample_gift = sample_transfer\<lparr>tx_DestinationWalletID := 2\<rparr>"

definition sample_gift_row :: "uuid \<Rightarrow> string \<Rightarrow> (lib \<Rightarrow> transaction \<Rightarrow> json) \<Rightarrow> outbox_event" where
  "sample_gift_row i typ payload =
     \<lparr>oe_ID = i, oe_Topic = topicTransactions, oe_Key = uuid_String sample_lib (tx_SourceWalletID sample_gift),
      oe_Payload = payload sample_lib sample_gift, oe_EventType = typ, oe_PublishedAt = None, oe_CreatedAt = 0\<rparr>"

abbreviation sample_step1 :: "(goerr + unit) \<times> wallet_db" where
  "sample_step1 \<equiv> saga_Handle (OutboxWorker_record sample_lib
     (sample_gift_row 301 EventTransactionInitiated initiated_payload)) sample_two_wallets"

abbreviation sample_step2 :: "(goerr + unit) \<times> wallet_db" where
  "sample_step2 \<equiv> saga_Handle (OutboxWorker_record sample_lib
     (sample_gift_row 302 EventTransactionCompleted completed_payload)) (snd sample_step1)"


theorem completed_transfer_creates_money_witness:
  "map_option w_BalanceCents (wallet_accounts sample_two_wallets 7) = Some 100
   \<and> map_option w_BalanceCents (wallet_accounts (snd sample_step2) 7) = Some 100
   \<and> map_option w_BalanceCents (wallet_accounts sample_two_wallets 2) = Some 0
   \<and> map_option w_BalanceCents (wallet_accounts (snd sample_step2) 2) = Some 30"
proof -
  let ?t = "sample_gift" and ?r = "sample_gift_row 301 EventTransactionInitiated initiated_payload"
    and ?r' = "sample_gift_row 302 EventTransactionCompleted completed_payload"
  have before: "map_option w_BalanceCents (wallet_accounts sample_two_wallets 7) = Some 100"
    "map_option w_BalanceCents (wallet_accounts sample_two_wallets 2) = Some 0" by code_simp+
  have created: "WalletService_CreateWallet EventStore_postgres SnapshotStore_postgres 5 ''BRL'' sample_wallet_db7
      = (fst (WalletService_CreateWallet EventStore_postgres SnapshotStore_postgres 5 ''BRL'' sample_wallet_db7),
         sample_two_wallets)" by (simp add: sample_two_wallets_def)
  have "wallet_pg.store_ok sample_wallet_db7" using sample_wallet_db7_ok by (simp only: wallet_db_ok_store)
  then have ok: "wallet_db_ok sample_two_wallets" and "env_step sample_wallet_db7 sample_two_wallets"
    using wallet_pg.create_refines [OF _ _ created] by (auto simp: wallet_db_ok_store)
  then have lib: "rt_lib sample_two_wallets = sample_lib" using env_step_lib by fastforce
  have "length (wallet_log sample_two_wallets 7) = 2" "length (wallet_log (snd sample_step1) 2) = 1" by code_simp+
  then have room: "has_room sample_two_wallets 7" "has_room (snd sample_step1) 2" by (simp_all add: has_room_def)
  have "processed_events sample_two_wallets 301 = None" "processed_events sample_two_wallets 302 = None" by code_simp+
  then have seen: "301 \<notin> wallet_seen sample_two_wallets" "302 \<notin> wallet_seen sample_two_wallets"
    by (simp_all add: processed_ids_iff)
  have "fst sample_step1 = Inr ()" "fst sample_step2 = Inr ()" by code_simp+
  then have runs: "sample_step1 = (Inr (), snd sample_step1)" "sample_step2 = (Inr (), snd sample_step2)"
    by (metis prod.collapse)+
  have rows: "event_row sample_lib ?t (initiated_payload sample_lib ?t) EventTransactionInitiated ?r"
    "event_row sample_lib ?t (completed_payload sample_lib ?t) EventTransactionCompleted ?r'"
    by (simp_all add: event_row_def sample_gift_row_def)
  have gift: "tx_SourceWalletID ?t = 7" "tx_DestinationWalletID ?t = 2" "tx_AmountCents ?t = 30"
    "oe_ID ?r = 301" "oe_ID ?r' = 302"
    by (simp_all add: sample_gift_def sample_transfer_def sample_gift_row_def)
  have "\<exists>a b. wallet_accounts sample_two_wallets 7 = Some a \<and> wallet_accounts sample_two_wallets 2 = Some b
      \<and> wallet_accounts (snd sample_step2) = (wallet_accounts sample_two_wallets)
          (7 \<mapsto> a\<lparr>w_Reserved := w_Reserved a + 30, w_Version := w_Version a + 1\<rparr>,
           2 \<mapsto> b\<lparr>w_BalanceCents := w_BalanceCents b + 30, w_Version := w_Version b + 1\<rparr>)"
    using completed_transfer_creates_money [of sample_two_wallets ?t ?r ?t ?r' "snd sample_step1" "snd sample_step2"]
      ok lib rows room seen runs by (simp add: gift)
  then show ?thesis using before by auto
qed

end
