(* ===== verification/Consumer.thy ===== *)
theory Consumer
  imports Outbox
begin

text \<open>
  The Kafka consumer the saga, query and notification handlers run under, \<open>pkg/kafka/consumer.go\<close>:
  poll a batch, hand each record to the handler, mark those it accepted, commit what is marked.
  Marking and committing are the Kafka client's: the arguments \<open>mark\<close> and \<open>commit\<close>, with the law
  the client documents for marks (per partition, and never backwards).
\<close>

record delivery =
  dl_Partition :: nat
  dl_Offset :: nat
  dl_Record :: kafka_record

definition dl_place :: "delivery \<Rightarrow> string \<times> nat" where
  "dl_place d = (kr_Topic (dl_Record d), dl_Partition d)"

text \<open>\<open>fetches.EachRecord(func(record) { ... })\<close>\<close>

fun Consumer_eachRecord ::
  "(kafka_record \<Rightarrow> ('s, unit) go) \<Rightarrow> (delivery \<Rightarrow> ('s, unit) go) \<Rightarrow> delivery list \<Rightarrow> ('s, unit) go"
where
  "Consumer_eachRecord handler mark [] = go_return ()"
| "Consumer_eachRecord handler mark (d # ds) =
     go_bind (go_try (handler (dl_Record d))) (\<lambda>res.
     go_bind (case res of Inl err \<Rightarrow> go_return () | Inr _ \<Rightarrow> mark d) (\<lambda>_.
     Consumer_eachRecord handler mark ds))"

text \<open>
  \<open>Run\<close>: one round for each batch that is polled before the context ends. Errors of fetching and of
  committing are logged.
\<close>

fun Consumer_Run ::
  "(kafka_record \<Rightarrow> ('s, unit) go) \<Rightarrow> (delivery \<Rightarrow> ('s, unit) go) \<Rightarrow> ('s, unit) go \<Rightarrow> delivery list list
     \<Rightarrow> ('s, unit) go"
where
  "Consumer_Run handler mark commit [] = go_return ()"
| "Consumer_Run handler mark commit (batch # polls) =
     go_bind (Consumer_eachRecord handler mark batch) (\<lambda>_.
     go_bind (go_try commit) (\<lambda>_.
     Consumer_Run handler mark commit polls))"

section \<open>What is marked\<close>

text \<open>\<open>heads s p\<close> is the offset the next commit puts for the partition \<open>p\<close>.\<close>

definition mark_law ::
  "('s \<Rightarrow> string \<times> nat \<Rightarrow> nat) \<Rightarrow> (delivery \<Rightarrow> ('s, unit) go) \<Rightarrow> bool"
where
  "mark_law heads mark \<longleftrightarrow> (\<forall>d s q s'. mark d s = (q, s') \<longrightarrow> q = Inr () \<and>
     heads s' = (heads s)(dl_place d := max (heads s (dl_place d)) (Suc (dl_Offset d))))"

definition keeps_heads ::
  "('s \<Rightarrow> string \<times> nat \<Rightarrow> nat) \<Rightarrow> (kafka_record \<Rightarrow> ('s, unit) go) \<Rightarrow> bool"
where
  "keeps_heads heads handler \<longleftrightarrow> (\<forall>r s q s'. handler r s = (q, s') \<longrightarrow> heads s' = heads s)"

text \<open>Which records of a batch the handler accepts, run in order from the state \<open>s\<close>.\<close>

fun accepted ::
  "(kafka_record \<Rightarrow> ('s, unit) go) \<Rightarrow> (delivery \<Rightarrow> ('s, unit) go) \<Rightarrow> delivery list \<Rightarrow> 's \<Rightarrow> delivery list"
where
  "accepted handler mark [] s = []"
| "accepted handler mark (d # ds) s =
     (case handler (dl_Record d) s of
        (Inl e, s1) \<Rightarrow> accepted handler mark ds s1
      | (Inr _, s1) \<Rightarrow> d # accepted handler mark ds (snd (mark d s1)))"

lemma eachRecord_heads:
  assumes mark: "mark_law heads mark" and keep: "keeps_heads heads handler"
    and run: "Consumer_eachRecord handler mark ds s = (r, s')"
  shows "r = Inr () \<and> heads s' p =
    fold (\<lambda>d h. if dl_place d = p then max h (Suc (dl_Offset d)) else h) (accepted handler mark ds s) (heads s p)"
  using run
proof (induction ds arbitrary: s)
  case (Cons d ds)
  obtain q s1 where h: "handler (dl_Record d) s = (q, s1)" by fastforce
  have h1: "heads s1 = heads s" using keep h unfolding keeps_heads_def by blast
  show ?case
  proof (cases q)
    case (Inl e)
    then have "Consumer_eachRecord handler mark ds s1 = (r, s')" using Cons.prems h by (simp add: go_simps)
    then show ?thesis using Cons.IH h h1 Inl by simp
  next
    case (Inr u)
    obtain m s2 where m: "mark d s1 = (m, s2)" by fastforce
    then have m1: "m = Inr ()" "heads s2 = (heads s1)(dl_place d := max (heads s1 (dl_place d)) (Suc (dl_Offset d)))"
      using mark unfolding mark_law_def by blast+
    then have "Consumer_eachRecord handler mark ds s2 = (r, s')"
      using Cons.prems h Inr m by (simp add: go_simps)
    from Cons.IH [OF this] show ?thesis using m1(2) h1 by (simp add: h Inr m)
  qed
qed (simp add: go_return_def)

lemma fold_heads_bounds:
  fixes h :: nat
  shows "h \<le> fold (\<lambda>d h. if dl_place d = p then max h (Suc (dl_Offset d)) else h) ds h"
    and "d \<in> set ds \<Longrightarrow> dl_place d = p \<Longrightarrow>
      dl_Offset d < fold (\<lambda>d h. if dl_place d = p then max h (Suc (dl_Offset d)) else h) ds h"
    and "h \<le> n \<Longrightarrow> (\<And>d. d \<in> set ds \<Longrightarrow> dl_place d = p \<Longrightarrow> dl_Offset d < n) \<Longrightarrow>
      fold (\<lambda>d h. if dl_place d = p then max h (Suc (dl_Offset d)) else h) ds h \<le> n"
proof (induction ds arbitrary: h)
  case (Cons x ds)
  let ?f = "\<lambda>d h. if dl_place d = p then max h (Suc (dl_Offset d)) else h"
  { case 1 show ?case using Cons.IH(1) [of "?f x h"] by (auto split: if_splits intro: le_trans [rotated]) }
  { case 2
    show ?case
    proof (cases "d = x")
      case True
      then show ?thesis using Cons.IH(1) [of "?f x h"] 2 by (auto split: if_splits)
    next
      case False
      then show ?thesis using Cons.IH(2) [of "?f x h"] 2 by simp
    qed }
  { case 3
    have "?f x h \<le> n" using 3 by (auto simp: Suc_le_eq)
    then show ?case using Cons.IH(3) [of "?f x h"] 3 by simp }
qed simp_all

section \<open>Properties\<close>

text \<open>A client that only keeps its marks, and a handler that refuses records without a key.\<close>

definition sample_mark :: "delivery \<Rightarrow> (string \<times> nat \<Rightarrow> nat, unit) go" where
  "sample_mark d s = (Inr (), s(dl_place d := max (s (dl_place d)) (Suc (dl_Offset d))))"

definition sample_handler :: "kafka_record \<Rightarrow> (string \<times> nat \<Rightarrow> nat, unit) go" where
  "sample_handler r s = (if kr_Key r = [] then Inl (PlainError ''no key'') else Inr (), s)"

definition sample_delivery :: "nat \<Rightarrow> string \<Rightarrow> delivery" where
  "sample_delivery n key = \<lparr>dl_Partition = 0, dl_Offset = n, dl_Record =
     \<lparr>kr_Topic = ''transactions'', kr_Key = key, kr_Value = None, kr_Headers = []\<rparr>\<rparr>"

lemma sample_client_laws:
  "mark_law (\<lambda>s. s) sample_mark" "keeps_heads (\<lambda>s. s) sample_handler"
  by (simp_all add: mark_law_def keeps_heads_def sample_mark_def sample_handler_def)



text \<open>A partition whose records are all refused from some offset on is not committed past it:
  those records are delivered again.\<close>

theorem refused_tail_redelivered:
  assumes "mark_law heads mark" and "keeps_heads heads handler"
    and "heads s p \<le> n"
    and "\<And>d. d \<in> set (accepted handler mark ds s) \<Longrightarrow> dl_place d = p \<Longrightarrow> dl_Offset d < n"
    and "Consumer_eachRecord handler mark ds s = (r, s')"
  shows "r = Inr () \<and> heads s' p \<le> n"
  using eachRecord_heads [OF assms(1,2,5), of p] fold_heads_bounds(3) [OF assms(3,4)] by simp

theorem refused_tail_redelivered_witness:
  "let ds = [sample_delivery 4 ''k'', sample_delivery 5 [], sample_delivery 6 []]
   in snd (Consumer_eachRecord sample_handler sample_mark ds (\<lambda>_. 4)) (''transactions'', 0) \<le> 5"
  unfolding Let_def
  using refused_tail_redelivered [OF sample_client_laws, of "\<lambda>_. 4" "(''transactions'', 0)" 5
      "[sample_delivery 4 ''k'', sample_delivery 5 [], sample_delivery 6 []]",
      OF _ _ surjective_pairing]
  by (simp add: sample_delivery_def sample_handler_def sample_mark_def dl_place_def)

end
