(* ===== verification/TransactionTables.thy ===== *)
theory TransactionTables
  imports TransactionService
begin

text \<open>
  The tables of the transaction service over time: the type every stored transaction keeps, and the
  outbox worker as the service constructs it (\<open>transaction/internal/adapters/outbound/kafka/outbox_worker.go\<close>),
  with the settings of its breaker and of its retries.
\<close>

section \<open>The type of a stored transaction\<close>

definition well_typed :: "transaction \<Rightarrow> bool" where
  "well_typed t \<longleftrightarrow> 0 < sint (tx_AmountCents t) \<and> tx_SourceWalletID t \<noteq> tx_DestinationWalletID t
     \<and> tx_Status t \<in> {StatusPending, StatusCompleted, StatusFailed}
     \<and> (tx_Status t \<noteq> StatusFailed \<longrightarrow> tx_FailureReason t = '''')"

lemma new_transaction_typed: "new_transaction src dst amount description key t \<Longrightarrow> well_typed t"
  by (auto simp: new_transaction_def well_typed_def)

lemma well_typed_updated:
  assumes "list_all well_typed ts" and "find (\<lambda>t. tx_ID t = i) ts = Some t" and "txs_distinct ts"
    and "tx_ID t' = tx_ID t"
    and "well_typed (t\<lparr>tx_Status := tx_Status t', tx_FailureReason := tx_FailureReason t', tx_UpdatedAt := tx_UpdatedAt t'\<rparr>)"
  shows "list_all well_typed (tx_updated t' ts)"
proof -
  have t: "t \<in> set ts" using assms(2) by (auto simp: find_Some_iff)
  have "u = t" if "u \<in> set ts" "tx_ID u = tx_ID t" for u
    using txs_distinct_find(1) [OF assms(3) that(1)] txs_distinct_find(1) [OF assms(3) t] that(2)
    by (metis option.inject)
  then show ?thesis using assms(1,4,5) by (auto simp: tx_updated_def list_all_iff)
qed

lemma finish_typed:
  assumes "list_all well_typed (txs_of s)" and "find (\<lambda>t. tx_ID t = i) (txs_of s) = Some t"
    and "txs_distinct (txs_of s)"
    and "finish_outcome L upd payload typ t (tx_tables s) r (tx_tables s')"
    and "\<And>now. tx_ID (upd now t) = tx_ID t"
    and "\<And>now. tx_Status t = StatusPending \<Longrightarrow> well_typed t \<Longrightarrow> well_typed (t\<lparr>tx_Status := tx_Status (upd now t),
      tx_FailureReason := tx_FailureReason (upd now t), tx_UpdatedAt := tx_UpdatedAt (upd now t)\<rparr>)"
  shows "list_all well_typed (txs_of s')"
proof -
  have t: "well_typed t" using assms(1,2) by (auto simp: find_Some_iff list_all_iff)
  consider "txs_of s' = txs_of s"
    | now where "tx_Status t = StatusPending" "txs_of s' = tx_updated (upd now t) (txs_of s)"
    using finish_outcome_txs [OF assms(4)] by auto
  then show ?thesis
  proof cases
    case (2 now)
    show ?thesis unfolding 2(2)
      by (rule well_typed_updated [OF assms(1-3) assms(5)]) (rule assms(6) [OF 2(1) t])
  qed (use assms(1) in simp)
qed

lemma transfer_step_typed:
  assumes "fraud_law tx_tables fraud" and "transfer_step fraud s s'" and dist: "txs_distinct (txs_of s)"
    and typed: "list_all well_typed (txs_of s)"
  shows "list_all well_typed (txs_of s')"
  using assms(2)
proof cases
  case (step_initiate src dst amount description key r)
  from transfer_pg.initiate_spec [OF fraud_law_tables [OF assms(1)] this] typed show ?thesis
    by (auto simp: initiate_outcome_def intro: new_transaction_typed)
next
  case (step_complete i r)
  from step_complete [unfolded TransactionService_CompleteTransaction_def] show ?thesis
  proof (cases rule: transfer_pg.with_found)
    case (found t s1)
    have "finish_outcome (rt_lib s) (\<lambda>now t. t\<lparr>tx_Status := StatusCompleted, tx_UpdatedAt := now\<rparr>)
        (completed_payload (rt_lib s)) EventTransactionCompleted t (tx_tables s) r (tx_tables s')"
      using transfer_pg.complete_spec [OF found(3)] found(2) by (auto elim!: only_tickE)
    then show ?thesis by (rule finish_typed [OF typed found(1) dist]) (simp_all add: well_typed_def)
  qed (use typed in simp)
next
  case (step_fail i reason r)
  from step_fail [unfolded TransactionService_FailTransaction_def] show ?thesis
  proof (cases rule: transfer_pg.with_found)
    case (found t s1)
    have "finish_outcome (rt_lib s)
        (\<lambda>now t. t\<lparr>tx_Status := StatusFailed, tx_FailureReason := reason, tx_UpdatedAt := now\<rparr>)
        (failed_payload (rt_lib s) reason) EventTransactionFailed t (tx_tables s) r (tx_tables s')"
      using transfer_pg.fail_spec [OF found(3)] found(2) by (auto elim!: only_tickE)
    then show ?thesis by (rule finish_typed [OF typed found(1) dist]) (simp_all add: well_typed_def)
  qed (use typed in simp)
next
  case (step_get i r)
  then have "only_tick s s'"
    using FindByID_spec(1) by (simp add: TransactionService_GetTransaction_def TransactionRepository_postgres_def)
  then show ?thesis using typed by (auto elim!: only_tickE)
qed

text \<open>C13. The type of the stored rows: over any sequence of calls, with any driver failures, every
  transaction in the table has a positive amount, two different wallets, one of the three statuses the
  service writes, and a failure reason only when it has failed; identifiers and non-empty keys stay
  unique.\<close>

theorem stored_transactions_typed:
  assumes "fraud_law tx_tables fraud" and "(transfer_step fraud)\<^sup>*\<^sup>* s s'"
    and "txs_distinct (txs_of s)" "list_all well_typed (txs_of s)"
  shows "txs_distinct (txs_of s') \<and> list_all well_typed (txs_of s')"
  using assms(2-4)
proof (induction rule: rtranclp_induct)
  case (step u v)
  then show ?case using transfer_step_advances [OF assms(1)] transfer_step_typed [OF assms(1)] by blast
qed simp

theorem stored_transactions_typed_witness:
  "\<exists>s1 s'. transfer_step None (sample_tx_db\<lparr>transactions := []\<rparr>) s1 \<and> transfer_step None s1 s'
     \<and> list_all well_typed (txs_of s') \<and> map tx_Status (txs_of s') = [StatusFailed]"
proof -
  let ?s = "sample_tx_db\<lparr>transactions := []\<rparr>"
  obtain r s1 where 1: "svc_Initiate None 7 9 40 ''gift'' ''key-2'' ?s = (r, s1)" by fastforce
  obtain r' s' where 2: "svc_Fail 3 ''late'' s1 = (r', s')" by fastforce
  have "map tx_Status (txs_of (snd (svc_Fail 3 ''late'' (snd (svc_Initiate None 7 9 40 ''gift'' ''key-2'' ?s))))) = [StatusFailed]"
    by code_simp
  then have len: "map tx_Status (txs_of s') = [StatusFailed]" using 1 2 by simp
  have steps: "transfer_step None ?s s1" "transfer_step None s1 s'"
    using transfer_step.step_initiate [OF 1] transfer_step.step_fail [OF 2] by blast+
  then have run: "(transfer_step None)\<^sup>*\<^sup>* ?s s'" by simp
  have law: "fraud_law tx_tables (None :: transaction_db FraudChecker option)" by (simp add: fraud_law_def)
  have "txs_of ?s = []" by (simp add: txs_of_def)
  then have "list_all well_typed (txs_of s')"
    using stored_transactions_typed [OF law run] by (simp add: txs_distinct_def)
  then show ?thesis using steps len by (intro exI [of _ s1] exI [of _ s'] conjI)
qed


section \<open>The outbox worker as it is constructed\<close>

text \<open>What \<open>publishWithRetry\<close> asks of the retry library, in nanoseconds.\<close>

record backoff_settings =
  bk_InitialInterval :: int
  bk_MaxInterval :: int
  bk_MaxElapsedTime :: int

definition publish_backoff :: backoff_settings where
  "publish_backoff = \<lparr>bk_InitialInterval = 100 * 10 ^ 6, bk_MaxInterval = 5 * second, bk_MaxElapsedTime = 30 * second\<rparr>"

record 's OutboxWorker =
  ow_Outbox :: "'s OutboxRepository"
  ow_Client :: "kafka_record \<Rightarrow> ('s, unit) go"
  ow_TickInterval :: int
  ow_Breaker :: breaker_settings

text \<open>\<open>new_client\<close> is \<open>kgo.NewClient\<close> with acknowledgements of all replicas; its error is handed on.\<close>

definition TransactionOutboxWorker_New ::
  "(string list \<Rightarrow> goerr + (kafka_record \<Rightarrow> ('s, unit) go)) \<Rightarrow> 's OutboxRepository \<Rightarrow> string list \<Rightarrow> goerr + 's OutboxWorker"
where
  "TransactionOutboxWorker_New new_client outbox brokers =
     (case new_client brokers of
        Inl err \<Rightarrow> Inl err
      | Inr client \<Rightarrow> Inr \<lparr>ow_Outbox = outbox, ow_Client = client, ow_TickInterval = 500 * 10 ^ 6,
          ow_Breaker = breaker_New ''transaction-kafka-publish''\<rparr>)"

text \<open>
  The libraries \<open>execute\<close> (a breaker of given settings) and \<open>retry\<close> (a back-off of given settings) are
  parameters. The body of \<open>flush\<close> is, line by line, that of the wallet's worker.
\<close>

definition TransactionOutboxWorker_publishWithRetry ::
  "(breaker_settings \<Rightarrow> ('s, unit) go \<Rightarrow> ('s, unit) go) \<Rightarrow> (backoff_settings \<Rightarrow> ('s, unit) go \<Rightarrow> ('s, unit) go)
     \<Rightarrow> 's OutboxWorker \<Rightarrow> kafka_record \<Rightarrow> ('s, unit) go"
where
  "TransactionOutboxWorker_publishWithRetry execute retry w record =
     retry publish_backoff (execute (ow_Breaker w) (ow_Client w record))"

fun TransactionOutboxWorker_publishBatch ::
  "(breaker_settings \<Rightarrow> ('a rt_scheme, unit) go \<Rightarrow> ('a rt_scheme, unit) go)
     \<Rightarrow> (backoff_settings \<Rightarrow> ('a rt_scheme, unit) go \<Rightarrow> ('a rt_scheme, unit) go)
     \<Rightarrow> 'a rt_scheme OutboxWorker \<Rightarrow> outbox_event list \<Rightarrow> ('a rt_scheme, unit) go"
where
  "TransactionOutboxWorker_publishBatch execute retry w [] = go_return ()"
| "TransactionOutboxWorker_publishBatch execute retry w (e # es) =
     go_bind (go_gets rt_lib) (\<lambda>L.
     let record = \<lparr>kr_Topic = oe_Topic e, kr_Key = oe_Key e, kr_Value = Some (oe_Payload e),
           kr_Headers = [(''event_type'', oe_EventType e), (''event_id'', uuid_String L (oe_ID e))]\<rparr>
     in go_bind (go_try (TransactionOutboxWorker_publishWithRetry execute retry w record)) (\<lambda>res.
        case res of
          Inl err \<Rightarrow> go_return ()
        | Inr _ \<Rightarrow>
            go_bind (go_try (MarkPublished (ow_Outbox w) (oe_ID e))) (\<lambda>_.
            TransactionOutboxWorker_publishBatch execute retry w es)))"

definition TransactionOutboxWorker_flush ::
  "(breaker_settings \<Rightarrow> ('a rt_scheme, unit) go \<Rightarrow> ('a rt_scheme, unit) go)
     \<Rightarrow> (backoff_settings \<Rightarrow> ('a rt_scheme, unit) go \<Rightarrow> ('a rt_scheme, unit) go)
     \<Rightarrow> 'a rt_scheme OutboxWorker \<Rightarrow> ('a rt_scheme, unit) go"
where
  "TransactionOutboxWorker_flush execute retry w =
     go_bind (go_try (FetchUnpublished (ow_Outbox w) 100)) (\<lambda>res.
     case res of
       Inl err \<Rightarrow> go_return ()
     | Inr events \<Rightarrow> TransactionOutboxWorker_publishBatch execute retry w events)"

fun TransactionOutboxWorker_Run ::
  "nat \<Rightarrow> (breaker_settings \<Rightarrow> ('a rt_scheme, unit) go \<Rightarrow> ('a rt_scheme, unit) go)
     \<Rightarrow> (backoff_settings \<Rightarrow> ('a rt_scheme, unit) go \<Rightarrow> ('a rt_scheme, unit) go)
     \<Rightarrow> 'a rt_scheme OutboxWorker \<Rightarrow> ('a rt_scheme, unit) go"
where
  "TransactionOutboxWorker_Run 0 execute retry w = go_return ()"
| "TransactionOutboxWorker_Run (Suc ticks) execute retry w =
     go_bind (TransactionOutboxWorker_flush execute retry w) (\<lambda>_. TransactionOutboxWorker_Run ticks execute retry w)"

text \<open>Both workers are the same program, so that the lemmas of \<open>OutboxWorker\<close> apply to this one.\<close>

lemma publishBatch_same:
  "TransactionOutboxWorker_publishBatch execute retry w es =
     OutboxWorker_publishBatch (ow_Outbox w) (TransactionOutboxWorker_publishWithRetry execute retry w) es"
  by (induction es) (simp_all add: OutboxWorker_record_def Let_def)

lemma flush_same:
  "TransactionOutboxWorker_flush execute retry w =
     OutboxWorker_flush (ow_Outbox w) (TransactionOutboxWorker_publishWithRetry execute retry w)"
  unfolding TransactionOutboxWorker_flush_def OutboxWorker_flush_def publishBatch_same ..

lemma Run_same:
  "TransactionOutboxWorker_Run ticks execute retry w =
     OutboxWorker_Run ticks (ow_Outbox w) (TransactionOutboxWorker_publishWithRetry execute retry w)"
  by (induction ticks) (simp_all add: flush_same)

lemma transaction_worker_publishes:
  assumes "TransactionOutboxWorker_New new_client OutboxRepository_postgres brokers = Inr w" "new_client brokers = Inr produce"
    and "produce_law (\<lambda>s. f (transaction_db.more s)) outbox_events produce"
    and "execute_law (execute (breaker_New ''transaction-kafka-publish''))" and "retry_law (retry publish_backoff)"
  shows "publishes (\<lambda>s. (\<lambda>(_, m). f m) (txs_of s, transaction_db.more s)) outbox_events
    (TransactionOutboxWorker_publishWithRetry execute retry w)"
proof -
  have w: "ow_Client w = produce" "ow_Breaker w = breaker_New ''transaction-kafka-publish''"
    using assms(1,2) by (auto simp: TransactionOutboxWorker_New_def)
  have "TransactionOutboxWorker_publishWithRetry execute retry w
      = OutboxWorker_publishWithRetry produce (execute (breaker_New ''transaction-kafka-publish'')) (retry publish_backoff)"
    by (rule ext) (simp add: TransactionOutboxWorker_publishWithRetry_def OutboxWorker_publishWithRetry_def w)
  then show ?thesis using publishWithRetry_publishes [OF assms(3-5)] by simp
qed

text \<open>The worker of the transaction service, as its constructor makes it: when nothing fails, each tick
  publishes exactly the hundred oldest unpublished rows, in order and once, and enough ticks leave
  nothing unpublished.\<close>

theorem transaction_outbox_drains:
  assumes new: "TransactionOutboxWorker_New new_client OutboxRepository_postgres brokers = Inr w" "new_client brokers = Inr produce"
    and laws: "produce_law (\<lambda>s. f (transaction_db.more s)) outbox_events produce"
      "execute_law (execute (breaker_New ''transaction-kafka-publish''))" "retry_law (retry publish_backoff)"
    and up: "\<And>rec s. no_faults s \<Longrightarrow> \<exists>s'. TransactionOutboxWorker_publishWithRetry execute retry w rec s = (Inr (), s')
      \<and> f (transaction_db.more s') = f (transaction_db.more s) @ [rec]"
    and state: "no_faults s" "distinct (map oe_ID (outbox_events s))" "card (pending (outbox_events s)) \<le> 100 * ticks"
  shows "pending (outbox_events (snd (TransactionOutboxWorker_Run ticks execute retry w s))) = {}
    \<and> f (transaction_db.more (snd (TransactionOutboxWorker_flush execute retry w s)))
      = f (transaction_db.more s) @ map (OutboxWorker_record (rt_lib s)) (outbox_unpublished 100 (outbox_events s))"
proof
  have w: "ow_Outbox w = OutboxRepository_postgres" using new by (auto simp: TransactionOutboxWorker_New_def)
  note pub = transaction_worker_publishes [where new_client = new_client and brokers = brokers and f = f
      and execute = execute and retry = retry, OF new laws]
  have good: "\<And>rec s. no_faults s \<Longrightarrow> \<exists>s'. TransactionOutboxWorker_publishWithRetry execute retry w rec s = (Inr (), s')
      \<and> (\<lambda>(_, m). f m) (txs_of s', transaction_db.more s') = (\<lambda>(_, m). f m) (txs_of s, transaction_db.more s) @ [rec]"
    using up by simp
  show "pending (outbox_events (snd (TransactionOutboxWorker_Run ticks execute retry w s))) = {}"
    unfolding Run_same w by (rule transaction_outbox_pg.Run_drains [OF pub good state surjective_pairing])
  show "f (transaction_db.more (snd (TransactionOutboxWorker_flush execute retry w s)))
      = f (transaction_db.more s) @ map (OutboxWorker_record (rt_lib s)) (outbox_unpublished 100 (outbox_events s))"
    unfolding flush_same w using transaction_outbox_pg.flush_all [OF pub good state(1) surjective_pairing] by simp
qed

text \<open>A broker that accepts every record, and libraries that add nothing.\<close>

definition sample_kafka :: "string list \<Rightarrow> goerr + (kafka_record \<Rightarrow> (kafka_record list transaction_db_scheme, unit) go)" where
  "sample_kafka brokers = Inr (\<lambda>rec s. (Inr (), transaction_db.more_update (\<lambda>log. log @ [rec]) s))"

definition sample_row :: "nat \<Rightarrow> outbox_event" where
  "sample_row n =
     \<lparr>oe_ID = of_nat n, oe_Topic = topicTransactions, oe_Key = ''k'', oe_Payload = JNull,
      oe_EventType = EventTransactionInitiated, oe_PublishedAt = None, oe_CreatedAt = 100 - int n\<rparr>"

definition sample_rows_db :: "kafka_record list transaction_db_scheme" where
  "sample_rows_db = transaction_db.extend (sample_tx_db\<lparr>outbox_events := [sample_row 1, sample_row 2]\<rparr>) []"

lemma sample_rows_db_simps [simp]:
  "rt_lib sample_rows_db = sample_lib" "outbox_events sample_rows_db = [sample_row 1, sample_row 2]"
  "transaction_db.more sample_rows_db = []" "no_faults sample_rows_db"
  by (simp_all add: sample_rows_db_def transaction_db.defs sample_tx_db_def rt.defs sample_rt_def no_faults_def)

theorem transaction_outbox_drains_witness:
  "\<exists>w. TransactionOutboxWorker_New sample_kafka OutboxRepository_postgres [''localhost:9092''] = Inr w
   \<and> pending (outbox_events (snd (TransactionOutboxWorker_Run 1 (\<lambda>_ op. op) (\<lambda>_ op. op) w sample_rows_db))) = {}
   \<and> transaction_db.more (snd (TransactionOutboxWorker_flush (\<lambda>_ op. op) (\<lambda>_ op. op) w sample_rows_db))
     = map (OutboxWorker_record sample_lib) [sample_row 2, sample_row 1]"
proof -
  let ?send = "\<lambda>rec (s :: kafka_record list transaction_db_scheme).
    (Inr () :: goerr + unit, transaction_db.more_update (\<lambda>log. log @ [rec]) s)"
  obtain w where w: "TransactionOutboxWorker_New sample_kafka OutboxRepository_postgres [''localhost:9092''] = Inr w"
    by (simp add: TransactionOutboxWorker_New_def sample_kafka_def)
  have send: "sample_kafka [''localhost:9092''] = Inr ?send" by (simp add: sample_kafka_def)
  have laws: "produce_law (\<lambda>s. transaction_db.more s) outbox_events ?send"
    "execute_law (\<lambda>op :: (kafka_record list transaction_db_scheme, unit) go. op)"
    "retry_law (\<lambda>op :: (kafka_record list transaction_db_scheme, unit) go. op)"
  proof -
    show "produce_law (\<lambda>s. transaction_db.more s) outbox_events ?send"
      by (simp add: produce_law_def env_step_def)
    show "retry_law (\<lambda>op :: (kafka_record list transaction_db_scheme, unit) go. op)"
      unfolding retry_law_def by (metis (full_types) attempts.first_success attempts.give_up old.unit.exhaust sum.exhaust)
    show "execute_law (\<lambda>op :: (kafka_record list transaction_db_scheme, unit) go. op)"
      unfolding execute_law_def by (metis only_tick_refl surj_pair)
  qed
  have client: "ow_Client w = ?send" using w send by (auto simp: TransactionOutboxWorker_New_def)
  have up: "\<exists>s'. TransactionOutboxWorker_publishWithRetry (\<lambda>_ op. op) (\<lambda>_ op. op) w rec s = (Inr (), s')
      \<and> transaction_db.more s' = transaction_db.more s @ [rec]" for rec s
    by (simp add: TransactionOutboxWorker_publishWithRetry_def client)
  have batch: "outbox_unpublished 100 [sample_row 1, sample_row 2] = [sample_row 2, sample_row 1]" by code_simp
  have "card (pending [sample_row 1, sample_row 2]) = 2"
    by (subst card_pending) (simp_all add: sample_row_def)
  then have few: "card (pending (outbox_events sample_rows_db)) \<le> 100 * 1" by simp
  have ids: "distinct (map oe_ID (outbox_events sample_rows_db))" by simp (simp add: sample_row_def)
  note drained = transaction_outbox_drains [where new_client = sample_kafka and brokers = "[''localhost:9092'']" and f = "\<lambda>l. l"
    and execute = "\<lambda>_ op. op" and retry = "\<lambda>_ op. op" and ticks = 1, OF w send laws up _ ids few]
  show ?thesis using w drained batch by auto
qed

end
