(* ===== verification/QueryProjections.thy ===== *)
theory QueryProjections
  imports Outbox
begin

text \<open>
  The read side, \<open>services/query\<close>: the three read models of \<open>internal/domain/projections.go\<close>, the
  contracts of their repositories, and the PostgreSQL adapters
  \<open>internal/adapters/outbound/postgres/repos.go\<close> with the proof that they keep them.
\<close>

section \<open>Read models (domain/projections.go)\<close>

record BalanceProjection =
  bp_WalletID :: uuid
  bp_UserID :: uuid
  bp_Currency :: string
  bp_BalanceCents :: i64
  bp_Version :: i64
  bp_UpdatedAt :: time

record StatementEntry =
  se_EventID :: uuid
  se_WalletID :: uuid
  se_Type :: string
  se_AmountCents :: i64
  se_Description :: string
  se_OccurredAt :: time

record UserStats =
  us_UserID :: uuid
  us_TotalTransactions :: i64
  us_TotalDepositCents :: i64
  us_TotalWithdrawCents :: i64
  us_UpdatedAt :: time

record 's BalanceRepository =
  BalanceUpsert :: "BalanceProjection \<Rightarrow> ('s, unit) go"
  BalanceFindByWalletID :: "uuid \<Rightarrow> ('s, BalanceProjection) go"
  BalanceFindByUserID :: "uuid \<Rightarrow> ('s, BalanceProjection list) go"

record 's StatementRepository =
  StatementAppend :: "StatementEntry \<Rightarrow> ('s, unit) go"
  StatementFindByWalletID :: "uuid \<Rightarrow> i64 \<Rightarrow> i64 \<Rightarrow> ('s, StatementEntry list) go"

record 's StatsRepository =
  StatsUpsert :: "UserStats \<Rightarrow> ('s, unit) go"
  StatsFindByUserID :: "uuid \<Rightarrow> ('s, UserStats) go"

section \<open>Contracts\<close>

text \<open>
  A table with a key that is read by key and written by upsert; \<open>upd old new\<close> is what an upsert
  leaves of a row that is there.
\<close>

locale keyed_table =
  fixes lookup :: "'k \<Rightarrow> ('a rt_scheme, 'p) go"
    and upsert :: "'p \<Rightarrow> ('a rt_scheme, unit) go"
    and key :: "'p \<Rightarrow> 'k" and upd :: "'p \<Rightarrow> 'p \<Rightarrow> 'p"
    and tbl :: "'a rt_scheme \<Rightarrow> 'k \<Rightarrow> 'p option"
    and rest :: "'a rt_scheme \<Rightarrow> 'r"
  assumes tbl_tick [simp]: "tbl (s\<lparr>rt_tick := k'\<rparr>) = tbl s"
    and rest_tick [simp]: "rest (s\<lparr>rt_tick := k'\<rparr>) = rest s"
    and tbl_key: "tbl s k = Some p \<Longrightarrow> key p = k"
    and lookup_effect: "lookup k s = (r, s') \<Longrightarrow> only_tick s s'"
    and lookup_ok: "lookup k s = (Inr p, s') \<Longrightarrow> tbl s k = Some p"
    and lookup_succeeds: "no_faults s \<Longrightarrow> tbl s k = Some p \<Longrightarrow> \<exists>s'. lookup k s = (Inr p, s')"
    and upsert_effect: "upsert p s = (q, s') \<Longrightarrow> env_step s s' \<and> rest s' = rest s
          \<and> (tbl s' = tbl s \<or> tbl s' = (tbl s)(key p \<mapsto> merged upd (tbl s (key p)) p))"
    and upsert_ok: "upsert p s = (Inr u, s') \<Longrightarrow> tbl s' = (tbl s)(key p \<mapsto> merged upd (tbl s (key p)) p)"
    and upsert_succeeds: "no_faults s \<Longrightarrow> \<exists>s'. upsert p s = (Inr (), s')"

text \<open>The statement: entries are kept once per event, and read in pages, latest first.\<close>

definition statement_of :: "uuid \<Rightarrow> StatementEntry list \<Rightarrow> StatementEntry list" where
  "statement_of w es = sort_key (\<lambda>e. - se_OccurredAt e) (filter (\<lambda>e. se_WalletID e = w) es)"

abbreviation keep_entry :: "StatementEntry \<Rightarrow> StatementEntry list \<Rightarrow> StatementEntry list" where
  "keep_entry \<equiv> sql_upsert se_EventID (\<lambda>old new. old)"

locale statement_table =
  fixes st :: "'a rt_scheme StatementRepository"
    and entries :: "'a rt_scheme \<Rightarrow> StatementEntry list"
    and rest :: "'a rt_scheme \<Rightarrow> 'r"
  assumes entries_tick [simp]: "entries (s\<lparr>rt_tick := k\<rparr>) = entries s"
    and rest_tick [simp]: "rest (s\<lparr>rt_tick := k\<rparr>) = rest s"
    and append_effect: "StatementAppend st e s = (q, s') \<Longrightarrow> env_step s s' \<and> rest s' = rest s
          \<and> (entries s' = entries s \<or> entries s' = keep_entry e (entries s))"
    and append_ok: "StatementAppend st e s = (Inr u, s') \<Longrightarrow> entries s' = keep_entry e (entries s)"
    and append_succeeds: "no_faults s \<Longrightarrow> \<exists>s'. StatementAppend st e s = (Inr (), s')"
    and page_effect: "StatementFindByWalletID st w n m s = (r, s') \<Longrightarrow> only_tick s s'"
    and page_ok: "StatementFindByWalletID st w n m s = (Inr xs, s') \<Longrightarrow>
          sql_page (sint n) (sint m) (statement_of w (entries s)) = Inr xs"
    and page_succeeds: "no_faults s \<Longrightarrow> 0 \<le> sint n \<Longrightarrow> 0 \<le> sint m \<Longrightarrow>
          \<exists>xs s'. StatementFindByWalletID st w n m s = (Inr xs, s')"

section \<open>Tables and adapters (repos.go)\<close>

text \<open>The row structs have the fields of the domain structs in the same order.\<close>

type_synonym balanceRow = BalanceProjection
type_synonym statementRow = StatementEntry
type_synonym statsRow = UserStats

record query_db = rt +
  balance_projections :: "balanceRow list"
  statement_entries :: "statementRow list"
  user_stats :: "statsRow list"
  query_processed_events :: "uuid \<Rightarrow> time option"

text \<open>\<open>SET balance_cents=EXCLUDED.balance_cents, version=EXCLUDED.version, updated_at=EXCLUDED.updated_at\<close>\<close>

definition balance_conflict :: "balanceRow \<Rightarrow> balanceRow \<Rightarrow> balanceRow" where
  "balance_conflict old new =
     old\<lparr>bp_BalanceCents := bp_BalanceCents new, bp_Version := bp_Version new, bp_UpdatedAt := bp_UpdatedAt new\<rparr>"

definition BalanceRepository_Upsert :: "BalanceProjection \<Rightarrow> ('a query_db_scheme, unit) go" where
  "BalanceRepository_Upsert p =
     go_wrap CodeInternal ''upsert balance''
       (sql_exec (\<lambda>s. Inr (s\<lparr>balance_projections :=
          sql_upsert bp_WalletID balance_conflict p (balance_projections s)\<rparr>)))"

definition BalanceRepository_FindByWalletID :: "uuid \<Rightarrow> ('a query_db_scheme, BalanceProjection) go" where
  "BalanceRepository_FindByWalletID walletID =
     go_bind (go_wrap CodeInternal ''find balance''
        (sql_query (\<lambda>s. row_of bp_WalletID (balance_projections s) walletID))) (\<lambda>row.
     case row of
       None \<Rightarrow> go_throw (errors_New CodeNotFound ''balance not found'')
     | Some r \<Rightarrow> go_return r)"

text \<open>No order is asked for: the rows come as the table has them.\<close>

definition BalanceRepository_FindByUserID :: "uuid \<Rightarrow> ('a query_db_scheme, BalanceProjection list) go" where
  "BalanceRepository_FindByUserID userID =
     sql_select ''find balances by user'' ''scan balance''
       (\<lambda>s. filter (\<lambda>r. bp_UserID r = userID) (balance_projections s))"

definition StatementRepository_Append :: "StatementEntry \<Rightarrow> ('a query_db_scheme, unit) go" where
  "StatementRepository_Append e =
     go_wrap CodeInternal ''append statement''
       (sql_exec (\<lambda>s. Inr (s\<lparr>statement_entries := keep_entry e (statement_entries s)\<rparr>)))"

definition StatementRepository_FindByWalletID ::
  "uuid \<Rightarrow> i64 \<Rightarrow> i64 \<Rightarrow> ('a query_db_scheme, StatementEntry list) go"
where
  "StatementRepository_FindByWalletID walletID limit offset =
     sql_select_checked ''find statement'' ''scan statement''
       (\<lambda>s. sql_page (sint limit) (sint offset)
          (sort_key (\<lambda>e. - se_OccurredAt e)
             (filter (\<lambda>e. se_WalletID e = walletID) (statement_entries s))))"

definition stats_conflict :: "statsRow \<Rightarrow> statsRow \<Rightarrow> statsRow" where
  "stats_conflict old new =
     old\<lparr>us_TotalTransactions := us_TotalTransactions new, us_TotalDepositCents := us_TotalDepositCents new,
         us_TotalWithdrawCents := us_TotalWithdrawCents new, us_UpdatedAt := us_UpdatedAt new\<rparr>"

definition StatsRepository_Upsert :: "UserStats \<Rightarrow> ('a query_db_scheme, unit) go" where
  "StatsRepository_Upsert u =
     go_wrap CodeInternal ''upsert stats''
       (sql_exec (\<lambda>s. Inr (s\<lparr>user_stats := sql_upsert us_UserID stats_conflict u (user_stats s)\<rparr>)))"

definition StatsRepository_FindByUserID :: "uuid \<Rightarrow> ('a query_db_scheme, UserStats) go" where
  "StatsRepository_FindByUserID userID =
     go_bind (go_wrap CodeInternal ''find stats''
        (sql_query (\<lambda>s. row_of us_UserID (user_stats s) userID))) (\<lambda>row.
     case row of
       None \<Rightarrow> go_throw (errors_New CodeNotFound ''stats not found'')
     | Some r \<Rightarrow> go_return r)"

definition QueryProcessed_IsProcessed :: "uuid \<Rightarrow> ('a query_db_scheme, bool) go" where
  "QueryProcessed_IsProcessed eventID =
     go_wrap CodeInternal ''check processed''
       (sql_query (\<lambda>s. query_processed_events s eventID \<noteq> None))"

definition QueryProcessed_MarkProcessed :: "uuid \<Rightarrow> ('a query_db_scheme, unit) go" where
  "QueryProcessed_MarkProcessed eventID =
     go_wrap CodeInternal ''mark processed''
       (sql_exec (\<lambda>s. Inr (s\<lparr>query_processed_events :=
          mark_processed (sql_NOW s) eventID (query_processed_events s)\<rparr>)))"

definition BalanceRepository_postgres :: "'a query_db_scheme BalanceRepository" where
  "BalanceRepository_postgres =
     \<lparr>BalanceUpsert = BalanceRepository_Upsert, BalanceFindByWalletID = BalanceRepository_FindByWalletID,
      BalanceFindByUserID = BalanceRepository_FindByUserID\<rparr>"

definition StatementRepository_postgres :: "'a query_db_scheme StatementRepository" where
  "StatementRepository_postgres =
     \<lparr>StatementAppend = StatementRepository_Append,
      StatementFindByWalletID = StatementRepository_FindByWalletID\<rparr>"

definition StatsRepository_postgres :: "'a query_db_scheme StatsRepository" where
  "StatsRepository_postgres =
     \<lparr>StatsUpsert = StatsRepository_Upsert, StatsFindByUserID = StatsRepository_FindByUserID\<rparr>"

definition QueryProcessed_postgres :: "'a query_db_scheme ProcessedEventRepository" where
  "QueryProcessed_postgres =
     \<lparr>IsProcessed = QueryProcessed_IsProcessed, MarkProcessed = QueryProcessed_MarkProcessed\<rparr>"

section \<open>The adapters keep the contracts\<close>

lemma conflict_keys [simp]:
  "bp_WalletID (balance_conflict old new) = bp_WalletID old" "us_UserID (stats_conflict u v) = us_UserID u"
  by (simp_all add: balance_conflict_def stats_conflict_def)

lemmas balance_defs = BalanceRepository_postgres_def BalanceRepository_Upsert_def BalanceRepository_FindByWalletID_def
lemmas stats_defs = StatsRepository_postgres_def StatsRepository_Upsert_def StatsRepository_FindByUserID_def
lemmas statement_defs = StatementRepository_postgres_def StatementRepository_Append_def
  StatementRepository_FindByWalletID_def statement_of_def
lemmas query_processed_defs = QueryProcessed_postgres_def QueryProcessed_IsProcessed_def QueryProcessed_MarkProcessed_def

interpretation balance_pg: keyed_table "BalanceFindByWalletID BalanceRepository_postgres"
  "BalanceUpsert BalanceRepository_postgres" bp_WalletID balance_conflict
  "\<lambda>s. row_of bp_WalletID (balance_projections s)"
  "\<lambda>s. (statement_entries s, user_stats s, query_processed_events s, query_db.more s)"
proof (unfold_locales, unfold balance_defs BalanceRepository.simps)
qed (auto simp: env_step_def Let_def row_of_upsert elim!: wrap_exec_effect
  dest!: sql_exec_ok find_row_ok dest: find_row_effect row_of_Some intro: find_row_succeeds)

interpretation stats_pg: keyed_table "StatsFindByUserID StatsRepository_postgres"
  "StatsUpsert StatsRepository_postgres" us_UserID stats_conflict
  "\<lambda>s. row_of us_UserID (user_stats s)"
  "\<lambda>s. (balance_projections s, statement_entries s, query_processed_events s, query_db.more s)"
proof (unfold_locales, unfold stats_defs StatsRepository.simps)
qed (auto simp: env_step_def Let_def row_of_upsert elim!: wrap_exec_effect
  dest!: sql_exec_ok find_row_ok dest: find_row_effect row_of_Some intro: find_row_succeeds)

interpretation statement_pg: statement_table StatementRepository_postgres statement_entries
  "\<lambda>s. (balance_projections s, user_stats s, query_processed_events s, query_db.more s)"
proof (unfold_locales, unfold statement_defs StatementRepository.simps)
qed (auto simp: env_step_def Let_def sql_page_def elim!: wrap_exec_effect
  dest!: sql_exec_ok sql_select_checked_ok dest: sql_select_checked_effect intro: sql_select_checked_succeeds split: if_splits)

interpretation query_processed_pg: processed_table QueryProcessed_postgres
  "\<lambda>s. processed_ids (query_processed_events s)"
  "\<lambda>s. (balance_projections s, statement_entries s, user_stats s, query_db.more s)"
proof (unfold_locales, unfold query_processed_defs ProcessedEventRepository.simps)
qed (auto simp: env_step_def Let_def processed_ids_iff simp del: not_None_eq elim!: wrap_exec_effect
  dest!: sql_exec_ok sql_query_ok dest: wrap_query_effect)

end
