(* ===== verification/QueryService.thy ===== *)
theory QueryService
  imports QueryProjections
begin

text \<open>
  The query service, \<open>services/query/internal/application/query_service.go\<close>: events of the topics
  are folded into the three read models, once per event identifier, and the read models are what
  the queries answer with.
\<close>

section \<open>Messages\<close>

text \<open>The anonymous structs the handlers decode, and what each key sets.\<close>

record walletCreatedMessage =
  pc_WalletID :: uuid
  pc_UserID :: uuid
  pc_Currency :: string

definition zero_walletCreatedMessage :: walletCreatedMessage where
  "zero_walletCreatedMessage = \<lparr>pc_WalletID = uuid_Nil, pc_UserID = uuid_Nil, pc_Currency = ''''\<rparr>"

definition walletCreatedMessage_field ::
  "lib \<Rightarrow> walletCreatedMessage \<Rightarrow> string \<Rightarrow> json \<Rightarrow> walletCreatedMessage jstep"
where
  "walletCreatedMessage_field L p k v =
     (if name_match k ''wallet_id'' then jf_uuid L (\<lambda>u p. p\<lparr>pc_WalletID := u\<rparr>) v p
      else if name_match k ''user_id'' then jf_uuid L (\<lambda>u p. p\<lparr>pc_UserID := u\<rparr>) v p
      else if name_match k ''currency'' then jf_string (\<lambda>t p. p\<lparr>pc_Currency := t\<rparr>) v p
      else JKeep)"

record fundsMovedMessage =
  fm_WalletID :: uuid
  fm_AmountCents :: i64
  fm_Description :: string
  fm_Version :: i64
  fm_EventID :: uuid
  fm_OccurredAt :: time

definition zero_fundsMovedMessage :: fundsMovedMessage where
  "zero_fundsMovedMessage =
     \<lparr>fm_WalletID = uuid_Nil, fm_AmountCents = 0, fm_Description = '''', fm_Version = 0,
      fm_EventID = uuid_Nil, fm_OccurredAt = zero_Time\<rparr>"

definition fundsMovedMessage_field ::
  "lib \<Rightarrow> fundsMovedMessage \<Rightarrow> string \<Rightarrow> json \<Rightarrow> fundsMovedMessage jstep"
where
  "fundsMovedMessage_field L p k v =
     (if name_match k ''wallet_id'' then jf_uuid L (\<lambda>u p. p\<lparr>fm_WalletID := u\<rparr>) v p
      else if name_match k ''amount_cents'' then jf_int64 (\<lambda>n p. p\<lparr>fm_AmountCents := n\<rparr>) v p
      else if name_match k ''description'' then jf_string (\<lambda>t p. p\<lparr>fm_Description := t\<rparr>) v p
      else if name_match k ''version'' then jf_int64 (\<lambda>n p. p\<lparr>fm_Version := n\<rparr>) v p
      else if name_match k ''event_id'' then jf_uuid L (\<lambda>u p. p\<lparr>fm_EventID := u\<rparr>) v p
      else if name_match k ''occurred_at'' then jf_time L (\<lambda>t p. p\<lparr>fm_OccurredAt := t\<rparr>) v p
      else JKeep)"

record transactionDoneMessage =
  td_UserID :: uuid
  td_AmountCents :: i64

definition zero_transactionDoneMessage :: transactionDoneMessage where
  "zero_transactionDoneMessage = \<lparr>td_UserID = uuid_Nil, td_AmountCents = 0\<rparr>"

definition transactionDoneMessage_field ::
  "lib \<Rightarrow> transactionDoneMessage \<Rightarrow> string \<Rightarrow> json \<Rightarrow> transactionDoneMessage jstep"
where
  "transactionDoneMessage_field L p k v =
     (if name_match k ''user_id'' then jf_uuid L (\<lambda>u p. p\<lparr>td_UserID := u\<rparr>) v p
      else if name_match k ''amount_cents'' then jf_int64 (\<lambda>n p. p\<lparr>td_AmountCents := n\<rparr>) v p
      else JKeep)"

section \<open>The service\<close>

definition QueryService_GetBalance ::
  "'a rt_scheme BalanceRepository \<Rightarrow> uuid \<Rightarrow> ('a rt_scheme, BalanceProjection) go"
where
  "QueryService_GetBalance balances walletID = BalanceFindByWalletID balances walletID"

definition QueryService_GetStatement ::
  "'a rt_scheme StatementRepository \<Rightarrow> uuid \<Rightarrow> i64 \<Rightarrow> i64 \<Rightarrow> ('a rt_scheme, StatementEntry list) go"
where
  "QueryService_GetStatement statement walletID limit offset = StatementFindByWalletID statement walletID limit offset"

definition QueryService_GetStats ::
  "'a rt_scheme StatsRepository \<Rightarrow> uuid \<Rightarrow> ('a rt_scheme, UserStats) go"
where
  "QueryService_GetStats stats userID = StatsFindByUserID stats userID"

definition QueryService_createBalance ::
  "'a rt_scheme BalanceRepository \<Rightarrow> walletCreatedMessage \<Rightarrow> ('a rt_scheme, unit) go"
where
  "QueryService_createBalance balances p =
     go_bind time_Now (\<lambda>now.
     BalanceUpsert balances
       \<lparr>bp_WalletID = pc_WalletID p, bp_UserID = pc_UserID p, bp_Currency = pc_Currency p,
        bp_BalanceCents = 0, bp_Version = 0, bp_UpdatedAt = now\<rparr>)"

definition QueryService_handleWalletCreated ::
  "'a rt_scheme BalanceRepository \<Rightarrow> json option \<Rightarrow> ('a rt_scheme, unit) go"
where
  "QueryService_handleWalletCreated balances data =
     go_bind (go_gets rt_lib) (\<lambda>L.
     go_bind (go_unmarshal (json_Unmarshal (walletCreatedMessage_field L) zero_walletCreatedMessage data))
       (QueryService_createBalance balances))"

text \<open>
  The handlers of deposits and withdrawals differ in the sign, \<open>update\<close>, and the type of the entry,
  \<open>typ\<close>: what they do with the decoded message.
\<close>

definition QueryService_move ::
  "'a rt_scheme BalanceRepository \<Rightarrow> 'a rt_scheme StatementRepository \<Rightarrow> (i64 \<Rightarrow> i64 \<Rightarrow> i64) \<Rightarrow> string
     \<Rightarrow> fundsMovedMessage \<Rightarrow> ('a rt_scheme, unit) go"
where
  "QueryService_move balances statement update typ p =
     go_bind (BalanceFindByWalletID balances (fm_WalletID p)) (\<lambda>proj.
     go_bind time_Now (\<lambda>now.
     go_bind (BalanceUpsert balances
       (proj\<lparr>bp_BalanceCents := update (bp_BalanceCents proj) (fm_AmountCents p),
             bp_Version := fm_Version p, bp_UpdatedAt := now\<rparr>)) (\<lambda>_.
     StatementAppend statement
       \<lparr>se_EventID = fm_EventID p, se_WalletID = fm_WalletID p, se_Type = typ,
        se_AmountCents = fm_AmountCents p, se_Description = fm_Description p,
        se_OccurredAt = fm_OccurredAt p\<rparr>)))"

definition QueryService_handleFundsDeposited ::
  "'a rt_scheme BalanceRepository \<Rightarrow> 'a rt_scheme StatementRepository \<Rightarrow> json option
     \<Rightarrow> ('a rt_scheme, unit) go"
where
  "QueryService_handleFundsDeposited balances statement data =
     go_bind (go_gets rt_lib) (\<lambda>L.
     go_bind (go_unmarshal (json_Unmarshal (fundsMovedMessage_field L) zero_fundsMovedMessage data))
       (QueryService_move balances statement (+) ''DEPOSIT''))"

definition QueryService_handleFundsWithdrawn ::
  "'a rt_scheme BalanceRepository \<Rightarrow> 'a rt_scheme StatementRepository \<Rightarrow> json option
     \<Rightarrow> ('a rt_scheme, unit) go"
where
  "QueryService_handleFundsWithdrawn balances statement data =
     go_bind (go_gets rt_lib) (\<lambda>L.
     go_bind (go_unmarshal (json_Unmarshal (fundsMovedMessage_field L) zero_fundsMovedMessage data))
       (QueryService_move balances statement (-) ''WITHDRAWAL''))"

definition zero_UserStats :: "uuid \<Rightarrow> UserStats" where
  "zero_UserStats userID =
     \<lparr>us_UserID = userID, us_TotalTransactions = 0, us_TotalDepositCents = 0, us_TotalWithdrawCents = 0,
      us_UpdatedAt = zero_Time\<rparr>"

text \<open>Any error of the lookup counts as no statistics yet.\<close>

definition QueryService_count ::
  "'a rt_scheme StatsRepository \<Rightarrow> transactionDoneMessage \<Rightarrow> ('a rt_scheme, unit) go"
where
  "QueryService_count stats p =
     go_bind (go_try (StatsFindByUserID stats (td_UserID p))) (\<lambda>found.
     let u = (case found of Inl err \<Rightarrow> zero_UserStats (td_UserID p) | Inr u \<Rightarrow> u)
     in go_bind time_Now (\<lambda>now.
        StatsUpsert stats
          (u\<lparr>us_TotalTransactions := us_TotalTransactions u + 1,
             us_TotalDepositCents := us_TotalDepositCents u + td_AmountCents p,
             us_UpdatedAt := now\<rparr>)))"

definition QueryService_handleTransactionCompleted ::
  "'a rt_scheme StatsRepository \<Rightarrow> json option \<Rightarrow> ('a rt_scheme, unit) go"
where
  "QueryService_handleTransactionCompleted stats data =
     go_bind (go_gets rt_lib) (\<lambda>L.
     go_bind (go_unmarshal (json_Unmarshal (transactionDoneMessage_field L) zero_transactionDoneMessage data))
       (QueryService_count stats))"

definition QueryService_HandleEvent ::
  "'a rt_scheme BalanceRepository \<Rightarrow> 'a rt_scheme StatementRepository \<Rightarrow> 'a rt_scheme StatsRepository
     \<Rightarrow> 'a rt_scheme ProcessedEventRepository \<Rightarrow> kafka_record \<Rightarrow> ('a rt_scheme, unit) go"
where
  "QueryService_HandleEvent balances statement stats processed record =
     (let eventType = headerValue (kr_Headers record) ''event_type'';
          rawEventID = headerValue (kr_Headers record) ''event_id''
      in go_bind (go_gets rt_lib) (\<lambda>L.
         case uuid_Parse L rawEventID of
           Inl _ \<Rightarrow> go_return ()
         | Inr eventID \<Rightarrow>
             go_bind (IsProcessed processed eventID) (\<lambda>already.
             if already then go_return ()
             else if eventType = ''WalletCreated'' then
               go_bind (QueryService_handleWalletCreated balances (kr_Value record)) (\<lambda>_.
               MarkProcessed processed eventID)
             else if eventType = ''FundsDeposited'' then
               go_bind (QueryService_handleFundsDeposited balances statement (kr_Value record)) (\<lambda>_.
               MarkProcessed processed eventID)
             else if eventType = ''FundsWithdrawn'' then
               go_bind (QueryService_handleFundsWithdrawn balances statement (kr_Value record)) (\<lambda>_.
               MarkProcessed processed eventID)
             else if eventType = ''TransactionCompleted'' then
               go_bind (QueryService_handleTransactionCompleted stats (kr_Value record)) (\<lambda>_.
               MarkProcessed processed eventID)
             else go_return ())))"

section \<open>The abstract read model\<close>

record read_model =
  rm_balances :: "uuid \<Rightarrow> BalanceProjection option"
  rm_entries :: "StatementEntry list"
  rm_stats :: "uuid \<Rightarrow> UserStats option"

datatype projection_event =
    ProjCreated walletCreatedMessage
  | ProjDeposited fundsMovedMessage
  | ProjWithdrawn fundsMovedMessage
  | ProjCompleted transactionDoneMessage

text \<open>The event a record carries: its type header and its value.\<close>

definition query_event :: "lib \<Rightarrow> kafka_record \<Rightarrow> projection_event \<Rightarrow> bool" where
  "query_event L r ev \<longleftrightarrow>
     (let t = headerValue (kr_Headers r) ''event_type'' in
      case ev of
        ProjCreated p \<Rightarrow> t = ''WalletCreated'' \<and>
          json_Unmarshal (walletCreatedMessage_field L) zero_walletCreatedMessage (kr_Value r) = (p, None)
      | ProjDeposited p \<Rightarrow> t = ''FundsDeposited'' \<and>
          json_Unmarshal (fundsMovedMessage_field L) zero_fundsMovedMessage (kr_Value r) = (p, None)
      | ProjWithdrawn p \<Rightarrow> t = ''FundsWithdrawn'' \<and>
          json_Unmarshal (fundsMovedMessage_field L) zero_fundsMovedMessage (kr_Value r) = (p, None)
      | ProjCompleted p \<Rightarrow> t = ''TransactionCompleted'' \<and>
          json_Unmarshal (transactionDoneMessage_field L) zero_transactionDoneMessage (kr_Value r) = (p, None))"

definition moved :: "time \<Rightarrow> (i64 \<Rightarrow> i64 \<Rightarrow> i64) \<Rightarrow> string \<Rightarrow> fundsMovedMessage \<Rightarrow> read_model \<Rightarrow> read_model option" where
  "moved now update typ p v =
     (case rm_balances v (fm_WalletID p) of
        None \<Rightarrow> None
      | Some b \<Rightarrow> Some (v\<lparr>
          rm_balances := (rm_balances v)(fm_WalletID p \<mapsto>
            b\<lparr>bp_BalanceCents := update (bp_BalanceCents b) (fm_AmountCents p),
              bp_Version := fm_Version p, bp_UpdatedAt := now\<rparr>),
          rm_entries := keep_entry
            \<lparr>se_EventID = fm_EventID p, se_WalletID = fm_WalletID p, se_Type = typ,
             se_AmountCents = fm_AmountCents p, se_Description = fm_Description p,
             se_OccurredAt = fm_OccurredAt p\<rparr> (rm_entries v)\<rparr>))"

text \<open>
  What an event does to the read model. A projection that is there keeps its user and currency; a
  movement of a wallet without a projection is refused. \<open>lost\<close> says the lookup of the statistics
  failed: then they start again from nothing.
\<close>

fun project :: "bool \<Rightarrow> time \<Rightarrow> projection_event \<Rightarrow> read_model \<Rightarrow> read_model option" where
  "project lost now (ProjCreated p) v =
     Some (v\<lparr>rm_balances := (rm_balances v)(pc_WalletID p \<mapsto>
       (case rm_balances v (pc_WalletID p) of
          None \<Rightarrow> \<lparr>bp_WalletID = pc_WalletID p, bp_UserID = pc_UserID p, bp_Currency = pc_Currency p,
                   bp_BalanceCents = 0, bp_Version = 0, bp_UpdatedAt = now\<rparr>
        | Some b \<Rightarrow> b\<lparr>bp_BalanceCents := 0, bp_Version := 0, bp_UpdatedAt := now\<rparr>))\<rparr>)"
| "project lost now (ProjDeposited p) v = moved now (+) ''DEPOSIT'' p v"
| "project lost now (ProjWithdrawn p) v = moved now (-) ''WITHDRAWAL'' p v"
| "project lost now (ProjCompleted p) v =
     (let u = (case rm_stats v (td_UserID p) of
                 None \<Rightarrow> zero_UserStats (td_UserID p)
               | Some u \<Rightarrow> if lost then zero_UserStats (td_UserID p) else u)
      in Some (v\<lparr>rm_stats := (rm_stats v)(td_UserID p \<mapsto>
           u\<lparr>us_TotalTransactions := us_TotalTransactions u + 1,
             us_TotalDepositCents := us_TotalDepositCents u + td_AmountCents p,
             us_UpdatedAt := now\<rparr>)\<rparr>))"

text \<open>
  How far handling an event can get: all of it; or, with an error returned, nothing, or the balance
  without the entry of the statement.
\<close>

definition projects :: "projection_event \<Rightarrow> read_model \<Rightarrow> goerr + unit \<Rightarrow> read_model \<Rightarrow> bool" where
  "projects ev v r v' \<longleftrightarrow>
     (\<exists>lost now. project lost now ev v = Some v')
     \<or> r \<noteq> Inr () \<and> (v' = v \<or> (\<exists>lost now v1. project lost now ev v = Some v1 \<and> v' = v1\<lparr>rm_entries := rm_entries v\<rparr>))"

definition query_outcome ::
  "uuid \<Rightarrow> projection_event \<Rightarrow> read_model \<Rightarrow> uuid set \<Rightarrow> goerr + unit \<Rightarrow> read_model \<Rightarrow> uuid set \<Rightarrow> bool"
where
  "query_outcome i ev v sn r v' sn' \<longleftrightarrow>
     (sn' = sn \<and> r \<noteq> Inr () \<and> (\<exists>q. projects ev v q v'))
     \<or> (sn' = insert i sn \<and> projects ev v (Inr ()) v')"

lemma projects_all: "project lost now ev v = Some v' \<Longrightarrow> projects ev v r v'"
  unfolding projects_def by blast

lemma projects_none: "r \<noteq> Inr () \<Longrightarrow> projects ev v r v"
  unfolding projects_def by blast

lemma projects_half:
  "project lost now ev v = Some v1 \<Longrightarrow> r \<noteq> Inr () \<Longrightarrow> projects ev v r (v1\<lparr>rm_entries := rm_entries v\<rparr>)"
  unfolding projects_def by blast

section \<open>Handling an event\<close>

locale query_stores =
  b: keyed_table "BalanceFindByWalletID br" "BalanceUpsert br" bp_WalletID balance_conflict bals brest +
  e: statement_table sr entries erest +
  u: keyed_table "StatsFindByUserID ur" "StatsUpsert ur" us_UserID stats_conflict stats urest +
  p: processed_table pe seen prest
  for br :: "'a rt_scheme BalanceRepository" and bals :: "'a rt_scheme \<Rightarrow> uuid \<Rightarrow> BalanceProjection option"
    and brest :: "'a rt_scheme \<Rightarrow> 'r"
    and sr :: "'a rt_scheme StatementRepository" and entries :: "'a rt_scheme \<Rightarrow> StatementEntry list"
    and erest :: "'a rt_scheme \<Rightarrow> 'q"
    and ur :: "'a rt_scheme StatsRepository" and stats :: "'a rt_scheme \<Rightarrow> uuid \<Rightarrow> UserStats option"
    and urest :: "'a rt_scheme \<Rightarrow> 't"
    and pe :: "'a rt_scheme ProcessedEventRepository" and seen :: "'a rt_scheme \<Rightarrow> uuid set"
    and prest :: "'a rt_scheme \<Rightarrow> 'w" +
  assumes balance_frame: "brest t = brest s \<Longrightarrow> entries t = entries s \<and> stats t = stats s \<and> seen t = seen s"
    and statement_frame: "erest t = erest s \<Longrightarrow> bals t = bals s \<and> stats t = stats s \<and> seen t = seen s"
    and stats_frame: "urest t = urest s \<Longrightarrow> bals t = bals s \<and> entries t = entries s \<and> seen t = seen s"
    and processed_frame: "prest t = prest s \<Longrightarrow> bals t = bals s \<and> entries t = entries s \<and> stats t = stats s"

context query_stores
begin

definition model :: "'a rt_scheme \<Rightarrow> read_model" where
  "model s = \<lparr>rm_balances = bals s, rm_entries = entries s, rm_stats = stats s\<rparr>"

lemma model_tick [simp]: "model (s\<lparr>rt_tick := k\<rparr>) = model s" "seen (s\<lparr>rt_tick := k\<rparr>) = seen s"
  by (simp_all add: model_def)

lemma tick_model: "only_tick s t \<Longrightarrow> env_step s t \<and> model t = model s \<and> seen t = seen s"
  by (auto elim!: only_tickE)

lemma balance_step:
  assumes "BalanceUpsert br p s = (r, t)"
  shows "env_step s t \<and> seen t = seen s \<and> (model t = model s \<and> r \<noteq> Inr ()
    \<or> model t = (model s)\<lparr>rm_balances := (bals s)(bp_WalletID p \<mapsto> merged balance_conflict (bals s (bp_WalletID p)) p)\<rparr>)"
proof -
  have eff: "env_step s t" "brest t = brest s"
    "bals t = bals s \<or> bals t = (bals s)(bp_WalletID p \<mapsto> merged balance_conflict (bals s (bp_WalletID p)) p)"
    using b.upsert_effect [OF assms] by blast+
  have "r = Inr () \<Longrightarrow> bals t = (bals s)(bp_WalletID p \<mapsto> merged balance_conflict (bals s (bp_WalletID p)) p)"
    using b.upsert_ok assms by simp
  then show ?thesis using eff(1,3) balance_frame [OF eff(2)] by (auto simp: model_def)
qed

lemma statement_step:
  assumes "StatementAppend sr x s = (r, t)"
  shows "env_step s t \<and> seen t = seen s \<and> (model t = model s \<and> r \<noteq> Inr ()
    \<or> model t = (model s)\<lparr>rm_entries := keep_entry x (entries s)\<rparr>)"
proof -
  have eff: "env_step s t" "erest t = erest s" "entries t = entries s \<or> entries t = keep_entry x (entries s)"
    using e.append_effect [OF assms] by blast+
  have "r = Inr () \<Longrightarrow> entries t = keep_entry x (entries s)" using e.append_ok assms by simp
  then show ?thesis using eff(1,3) statement_frame [OF eff(2)] by (auto simp: model_def)
qed

lemma stats_step:
  assumes "StatsUpsert ur x s = (r, t)"
  shows "env_step s t \<and> seen t = seen s \<and> (model t = model s \<and> r \<noteq> Inr ()
    \<or> model t = (model s)\<lparr>rm_stats := (stats s)(us_UserID x \<mapsto> merged stats_conflict (stats s (us_UserID x)) x)\<rparr>)"
proof -
  have eff: "env_step s t" "urest t = urest s"
    "stats t = stats s \<or> stats t = (stats s)(us_UserID x \<mapsto> merged stats_conflict (stats s (us_UserID x)) x)"
    using u.upsert_effect [OF assms] by blast+
  have "r = Inr () \<Longrightarrow> stats t = (stats s)(us_UserID x \<mapsto> merged stats_conflict (stats s (us_UserID x)) x)"
    using u.upsert_ok assms by simp
  then show ?thesis using eff(1,3) stats_frame [OF eff(2)] by (auto simp: model_def)
qed

lemma mark_step:
  assumes "MarkProcessed pe i s = (r, t)"
  shows "env_step s t \<and> model t = model s \<and> (seen t = seen s \<and> r \<noteq> Inr () \<or> seen t = insert i (seen s))"
proof -
  have eff: "env_step s t" "prest t = prest s" "seen t = seen s \<or> seen t = insert i (seen s)"
    using p.mark_effect [OF assms] by blast+
  have "r = Inr () \<Longrightarrow> seen t = insert i (seen s)" using p.mark_ok [of i s "()" t] assms by simp
  then show ?thesis using eff(1,3) processed_frame [OF eff(2)] by (auto simp: model_def)
qed

lemma created_projects:
  assumes run: "QueryService_createBalance br p s = (r, t)"
  shows "env_step s t \<and> seen t = seen s \<and> projects (ProjCreated p) (model s) r (model t)"
proof -
  let ?now = "rt_now s (rt_tick s)" and ?s1 = "s\<lparr>rt_tick := Suc (rt_tick s)\<rparr>"
  let ?b = "\<lparr>bp_WalletID = pc_WalletID p, bp_UserID = pc_UserID p, bp_Currency = pc_Currency p,
    bp_BalanceCents = 0, bp_Version = 0, bp_UpdatedAt = ?now\<rparr>"
  have "BalanceUpsert br ?b ?s1 = (r, t)"
    using run by (simp add: QueryService_createBalance_def time_Now_def go_simps)
  from balance_step [OF this] have st: "env_step ?s1 t" "seen t = seen s"
    "model t = model s \<and> r \<noteq> Inr () \<or> project False ?now (ProjCreated p) (model s) = Some (model t)"
    by (auto simp: model_def merged_def balance_conflict_def split: option.splits)
  then show ?thesis unfolding projects_def by (auto simp: env_step_def)
qed

lemma move_projects:
  assumes run: "QueryService_move br sr update typ p s = (r, t)"
    and ev: "\<And>lost now v. project lost now ev v = moved now update typ p v"
  shows "env_step s t \<and> seen t = seen s \<and> projects ev (model s) r (model t)"
proof -
  obtain q s1 where look: "BalanceFindByWalletID br (fm_WalletID p) s = (q, s1)" by fastforce
  note t1 = tick_model [OF b.lookup_effect [OF look]]
  show ?thesis
  proof (cases q)
    case (Inl err)
    then have "r = Inl err" "t = s1" using run look by (simp_all add: QueryService_move_def go_simps)
    then show ?thesis using t1 by (simp add: projects_def)
  next
    case (Inr proj)
    then have at: "bals s (fm_WalletID p) = Some proj" using b.lookup_ok look by blast
    then have key: "bp_WalletID proj = fm_WalletID p" by (rule b.tbl_key)
    let ?now = "rt_now s1 (rt_tick s1)" and ?s2 = "s1\<lparr>rt_tick := Suc (rt_tick s1)\<rparr>"
    let ?b = "proj\<lparr>bp_BalanceCents := update (bp_BalanceCents proj) (fm_AmountCents p),
              bp_Version := fm_Version p, bp_UpdatedAt := ?now\<rparr>"
    let ?x = "\<lparr>se_EventID = fm_EventID p, se_WalletID = fm_WalletID p, se_Type = typ,
        se_AmountCents = fm_AmountCents p, se_Description = fm_Description p,
        se_OccurredAt = fm_OccurredAt p\<rparr>"
    let ?v = "(model s)\<lparr>rm_balances := (bals s)(fm_WalletID p \<mapsto> ?b), rm_entries := keep_entry ?x (entries s)\<rparr>"
    have full: "project False ?now ev (model s) = Some ?v" by (simp add: ev moved_def model_def at)
    obtain q3 s3 where up: "BalanceUpsert br ?b ?s2 = (q3, s3)" by fastforce
    have same: "bals s1 = bals s" "entries s1 = entries s" using t1 by (simp_all add: model_def)
    from balance_step [OF up] have st: "env_step s1 s3" "seen s3 = seen s"
      "model s3 = model s \<and> q3 \<noteq> Inr () \<or> model s3 = (model s)\<lparr>rm_balances := (bals s)(fm_WalletID p \<mapsto> ?b)\<rparr>"
      using t1 key at same by (auto simp: env_step_def balance_conflict_def)
    have run': "(case q3 of Inl e \<Rightarrow> (Inl e, s3) | Inr _ \<Rightarrow> StatementAppend sr ?x s3) = (r, t)"
      using run look Inr up by (simp add: QueryService_move_def time_Now_def go_simps)
    show ?thesis
    proof (cases q3)
      case (Inl err)
      then have out: "r = Inl err" "t = s3" using run' by simp_all
      have "model t = model s \<or> model t = ?v\<lparr>rm_entries := rm_entries (model s)\<rparr>"
        using st(3) out by (auto simp: model_def)
      then have "projects ev (model s) r (model t)"
        using projects_none [of r] projects_half [OF full, of r] out(1) by auto
      then show ?thesis using st(1,2) t1 out(2) env_step_trans by blast
    next
      case (Inr u)
      then have "StatementAppend sr ?x s3 = (r, t)" using run' by simp
      from statement_step [OF this] have fin: "env_step s3 t" "seen t = seen s3"
        "model t = model s3 \<and> r \<noteq> Inr () \<or> model t = (model s3)\<lparr>rm_entries := keep_entry ?x (entries s3)\<rparr>"
        by blast+
      have m3: "model s3 = (model s)\<lparr>rm_balances := (bals s)(fm_WalletID p \<mapsto> ?b)\<rparr>" using st(3) Inr by simp
      then have "entries s3 = entries s" by (simp add: model_def)
      then have "model t = model s3 \<and> r \<noteq> Inr () \<or> model t = ?v" using fin(3) m3 by simp
      moreover have "model s3 = ?v\<lparr>rm_entries := rm_entries (model s)\<rparr>" using m3 by (simp add: model_def)
      ultimately have "projects ev (model s) r (model t)"
        using projects_half [OF full, of r] projects_all [OF full, of r] by metis
      moreover have "env_step s t" using t1 st(1) fin(1) env_step_trans by blast
      ultimately show ?thesis using fin(2) st(2) by simp
    qed
  qed
qed

lemma count_projects:
  assumes run: "QueryService_count ur p s = (r, t)"
  shows "env_step s t \<and> seen t = seen s \<and> projects (ProjCompleted p) (model s) r (model t)"
proof -
  obtain q s1 where look: "StatsFindByUserID ur (td_UserID p) s = (q, s1)" by fastforce
  note t1 = tick_model [OF u.lookup_effect [OF look]]
  let ?now = "rt_now s1 (rt_tick s1)" and ?s2 = "s1\<lparr>rt_tick := Suc (rt_tick s1)\<rparr>"
  define w where "w = (case q of Inl err \<Rightarrow> zero_UserStats (td_UserID p) | Inr u \<Rightarrow> u)"
  let ?w = "w\<lparr>us_TotalTransactions := us_TotalTransactions w + 1,
             us_TotalDepositCents := us_TotalDepositCents w + td_AmountCents p, us_UpdatedAt := ?now\<rparr>"
  have key: "us_UserID w = td_UserID p"
    using u.tbl_key [OF u.lookup_ok] look by (cases q) (auto simp: w_def zero_UserStats_def)
  have "StatsUpsert ur ?w ?s2 = (r, t)"
    using run look by (simp add: QueryService_count_def time_Now_def go_simps Let_def w_def)
  from stats_step [OF this] have st: "env_step s1 t" "seen t = seen s"
    "model t = model s \<and> r \<noteq> Inr () \<or>
     model t = (model s)\<lparr>rm_stats := (stats s)(td_UserID p \<mapsto> merged stats_conflict (stats s (td_UserID p)) ?w)\<rparr>"
    using t1 key by (auto simp: env_step_def model_def)
  have "\<exists>lost. project lost ?now (ProjCompleted p) (model s) =
      Some ((model s)\<lparr>rm_stats := (stats s)(td_UserID p \<mapsto> merged stats_conflict (stats s (td_UserID p)) ?w)\<rparr>)"
  proof (cases "stats s (td_UserID p)")
    case None
    then have "w = zero_UserStats (td_UserID p)" using u.lookup_ok look by (cases q) (auto simp: w_def)
    then show ?thesis using None by (simp add: model_def Let_def)
  next
    case (Some x)
    have kx: "us_UserID x = td_UserID p" using Some by (rule u.tbl_key)
    have "merged stats_conflict (stats s (td_UserID p)) ?w = ?w"
      using Some kx key by (simp add: stats_conflict_def)
    moreover have "w = (if q = Inr x then x else zero_UserStats (td_UserID p))"
      using u.lookup_ok look Some by (cases q) (auto simp: w_def)
    ultimately show ?thesis
      using Some by (intro exI [of _ "q \<noteq> Inr x"]) (simp add: model_def Let_def)
  qed
  then obtain lost where full: "project lost ?now (ProjCompleted p) (model s) =
      Some ((model s)\<lparr>rm_stats := (stats s)(td_UserID p \<mapsto> merged stats_conflict (stats s (td_UserID p)) ?w)\<rparr>)" ..
  have "projects (ProjCompleted p) (model s) r (model t)"
    using st(3) projects_none [of r] projects_all [OF full, of r] by metis
  moreover have "env_step s t" using t1 st(1) env_step_trans by blast
  ultimately show ?thesis using st(2) by blast
qed

lemma handle_query:
  assumes new: "i \<notin> seen s"
    and body: "\<And>s1 q s2. only_tick s s1 \<Longrightarrow> B s1 = (q, s2) \<Longrightarrow>
        env_step s1 s2 \<and> seen s2 = seen s1 \<and> projects ev (model s1) q (model s2)"
    and run: "go_bind (IsProcessed pe i) (\<lambda>already. if already then go_return ()
        else go_bind B (\<lambda>_. MarkProcessed pe i)) s = (r, t)"
  shows "env_step s t \<and> query_outcome i ev (model s) (seen s) r (model t) (seen t)"
  using run
proof (cases rule: p.processed_guard)
  case duplicate
  then show ?thesis using new by simp
next
  case (unknown e)
  then show ?thesis using tick_model [OF unknown(2)] projects_none [of "Inl e"]
    by (auto simp: query_outcome_def)
next
  case (fresh s1)
  note t1 = tick_model [OF fresh(2)]
  obtain q s2 where b: "B s1 = (q, s2)" by fastforce
  note st = body [OF fresh(2) b]
  then have st': "env_step s s2" "seen s2 = seen s" "projects ev (model s) q (model s2)"
    using t1 env_step_trans by auto
  show ?thesis
  proof (cases q)
    case (Inl err)
    then have "r = Inl err" "t = s2" using fresh(3) b by (simp_all add: go_simps)
    then show ?thesis using st' by (auto simp: query_outcome_def)
  next
    case (Inr u)
    then have "MarkProcessed pe i s2 = (r, t)" using fresh(3) b by (simp add: go_simps)
    from mark_step [OF this] have "env_step s2 t" "model t = model s2"
      "seen t = seen s2 \<and> r \<noteq> Inr () \<or> seen t = insert i (seen s2)" by blast+
    then show ?thesis using st' Inr env_step_trans by (auto simp: query_outcome_def)
  qed
qed

lemmas handlers = QueryService_handleWalletCreated_def QueryService_handleFundsDeposited_def
  QueryService_handleFundsWithdrawn_def QueryService_handleTransactionCompleted_def

lemma HandleEvent_parsed:
  assumes "uuid_Parse (rt_lib s) (headerValue (kr_Headers record) ''event_id'') = Inr i"
    and "headerValue (kr_Headers record) ''event_type'' = eventType"
  shows "QueryService_HandleEvent br sr ur pe record s =
    go_bind (IsProcessed pe i) (\<lambda>already.
      if already then go_return ()
      else if eventType = ''WalletCreated'' then
        go_bind (QueryService_handleWalletCreated br (kr_Value record)) (\<lambda>_. MarkProcessed pe i)
      else if eventType = ''FundsDeposited'' then
        go_bind (QueryService_handleFundsDeposited br sr (kr_Value record)) (\<lambda>_. MarkProcessed pe i)
      else if eventType = ''FundsWithdrawn'' then
        go_bind (QueryService_handleFundsWithdrawn br sr (kr_Value record)) (\<lambda>_. MarkProcessed pe i)
      else if eventType = ''TransactionCompleted'' then
        go_bind (QueryService_handleTransactionCompleted ur (kr_Value record)) (\<lambda>_. MarkProcessed pe i)
      else go_return ()) s"
  unfolding QueryService_HandleEvent_def Let_def go_bind_gets assms sum.case by (rule refl)

text \<open>What is done with an event once it is decoded, and that the dispatch gets there.\<close>

definition body :: "projection_event \<Rightarrow> ('a rt_scheme, unit) go" where
  "body ev =
     (case ev of
        ProjCreated p \<Rightarrow> QueryService_createBalance br p
      | ProjDeposited p \<Rightarrow> QueryService_move br sr (+) ''DEPOSIT'' p
      | ProjWithdrawn p \<Rightarrow> QueryService_move br sr (-) ''WITHDRAWAL'' p
      | ProjCompleted p \<Rightarrow> QueryService_count ur p)"

lemma handler_body:
  assumes "query_event (rt_lib s) record ev"
  shows "(case ev of
        ProjCreated p \<Rightarrow> QueryService_handleWalletCreated br (kr_Value record)
      | ProjDeposited p \<Rightarrow> QueryService_handleFundsDeposited br sr (kr_Value record)
      | ProjWithdrawn p \<Rightarrow> QueryService_handleFundsWithdrawn br sr (kr_Value record)
      | ProjCompleted p \<Rightarrow> QueryService_handleTransactionCompleted ur (kr_Value record)) s = body ev s"
  using assms by (cases ev) (simp_all add: body_def handlers go_bind_gets query_event_def Let_def)

lemma HandleEvent_dispatch:
  assumes id: "uuid_Parse (rt_lib s) (headerValue (kr_Headers record) ''event_id'') = Inr i"
    and ev: "query_event (rt_lib s) record ev"
  shows "QueryService_HandleEvent br sr ur pe record s =
    go_bind (IsProcessed pe i) (\<lambda>already. if already then go_return ()
      else go_bind (body ev) (\<lambda>_. MarkProcessed pe i)) s"
proof -
  obtain q s1 where look: "IsProcessed pe i s = (q, s1)" by fastforce
  have "rt_lib s1 = rt_lib s" using tick_model [OF p.is_effect [OF look]] env_step_lib by blast
  then have "query_event (rt_lib s1) record ev" using ev by simp
  note this [THEN handler_body]
  then show ?thesis
    using ev unfolding HandleEvent_parsed [OF id refl]
    by (cases ev; cases q) (simp_all add: go_bind_def look query_event_def Let_def)
qed

lemma body_projects:
  "body ev s = (r, t) \<Longrightarrow> env_step s t \<and> seen t = seen s \<and> projects ev (model s) r (model t)"
  by (cases ev) (auto simp: body_def dest: created_projects count_projects
    move_projects [where ev = "ProjDeposited _"] move_projects [where ev = "ProjWithdrawn _"])

lemma HandleEvent_spec:
  assumes "uuid_Parse (rt_lib s) (headerValue (kr_Headers record) ''event_id'') = Inr i"
    and "query_event (rt_lib s) record ev" and "i \<notin> seen s"
    and "QueryService_HandleEvent br sr ur pe record s = (r, t)"
  shows "env_step s t \<and> query_outcome i ev (model s) (seen s) r (model t) (seen t)"
  by (rule handle_query [OF assms(3) body_projects assms(4) [unfolded HandleEvent_dispatch [OF assms(1,2)]]])

lemma HandleEvent_duplicate:
  assumes "uuid_Parse (rt_lib s) (headerValue (kr_Headers record) ''event_id'') = Inr i"
    and "i \<in> seen s" and "QueryService_HandleEvent br sr ur pe record s = (r, t)"
  shows "model t = model s \<and> seen t = seen s"
  using assms(3) unfolding HandleEvent_parsed [OF assms(1) refl]
  by (rule p.processed_guard) (use tick_model assms(2) in auto)

lemma HandleEvent_ignored:
  assumes "uuid_Parse (rt_lib s) (headerValue (kr_Headers record) ''event_id'') = Inr i"
    and "headerValue (kr_Headers record) ''event_type''
      \<notin> {''WalletCreated'', ''FundsDeposited'', ''FundsWithdrawn'', ''TransactionCompleted''}"
    and "no_faults s"
  shows "\<exists>t. QueryService_HandleEvent br sr ur pe record s = (Inr (), t) \<and> only_tick s t"
proof -
  obtain b t where "IsProcessed pe i s = (Inr b, t)" using p.is_succeeds [OF assms(3)] by blast
  then show ?thesis
    using assms(2) p.is_effect unfolding HandleEvent_parsed [OF assms(1) refl]
    by (auto simp: go_bind_def go_return_def)
qed

text \<open>When nothing fails, an event that applies is applied and remembered.\<close>

lemma created_succeeds:
  assumes "no_faults s"
  shows "\<exists>t. QueryService_createBalance br p s = (Inr (), t)"
  using b.upsert_succeeds [of "s\<lparr>rt_tick := Suc (rt_tick s)\<rparr>"] assms
  by (simp add: QueryService_createBalance_def time_Now_def go_simps)

lemma move_succeeds:
  assumes nf: "no_faults s" and at: "bals s (fm_WalletID p) = Some x"
  shows "\<exists>t. QueryService_move br sr update typ p s = (Inr (), t)"
proof -
  obtain s1 where look: "BalanceFindByWalletID br (fm_WalletID p) s = (Inr x, s1)"
    using b.lookup_succeeds [OF nf at] by blast
  have nf1: "no_faults s1" using tick_model [OF b.lookup_effect [OF look]] nf env_step_no_faults by blast
  let ?s2 = "s1\<lparr>rt_tick := Suc (rt_tick s1)\<rparr>"
  let ?b = "x\<lparr>bp_BalanceCents := update (bp_BalanceCents x) (fm_AmountCents p),
              bp_Version := fm_Version p, bp_UpdatedAt := rt_now s1 (rt_tick s1)\<rparr>"
  obtain s3 where up: "BalanceUpsert br ?b ?s2 = (Inr (), s3)" using b.upsert_succeeds nf1 by fastforce
  have "no_faults s3" using b.upsert_effect [OF up] nf1 env_step_no_faults by fastforce
  then obtain t where "StatementAppend sr \<lparr>se_EventID = fm_EventID p, se_WalletID = fm_WalletID p, se_Type = typ,
        se_AmountCents = fm_AmountCents p, se_Description = fm_Description p,
        se_OccurredAt = fm_OccurredAt p\<rparr> s3 = (Inr (), t)"
    using e.append_succeeds by blast
  then show ?thesis using look up by (simp add: QueryService_move_def time_Now_def go_simps)
qed

lemma count_succeeds:
  assumes nf: "no_faults s"
  shows "\<exists>t. QueryService_count ur p s = (Inr (), t)"
proof -
  obtain q s1 where look: "StatsFindByUserID ur (td_UserID p) s = (q, s1)" by fastforce
  have "no_faults s1" using tick_model [OF u.lookup_effect [OF look]] nf env_step_no_faults by blast
  then show ?thesis using look u.upsert_succeeds [of "s1\<lparr>rt_tick := Suc (rt_tick s1)\<rparr>"]
    by (simp add: QueryService_count_def time_Now_def go_simps Let_def)
qed

lemma HandleEvent_succeeds:
  assumes id: "uuid_Parse (rt_lib s) (headerValue (kr_Headers record) ''event_id'') = Inr i"
    and ev: "query_event (rt_lib s) record ev" and new: "i \<notin> seen s" and nf: "no_faults s"
    and can: "project False 0 ev (model s) \<noteq> None"
  shows "\<exists>t. QueryService_HandleEvent br sr ur pe record s = (Inr (), t)"
  unfolding HandleEvent_dispatch [OF id ev]
proof (rule p.once_succeeds [OF nf new])
  fix s1 assume "only_tick s s1"
  then have s1: "no_faults s1" "bals s1 = bals s" using nf by (auto elim!: only_tickE)
  then obtain s2 where "body ev s1 = (Inr (), s2)"
    using can created_succeeds [of s1] move_succeeds [of s1] count_succeeds [of s1]
    by (cases ev) (fastforce simp: body_def moved_def model_def split: option.splits)+
  then show "\<exists>s2. body ev s1 = (Inr (), s2) \<and> no_faults s2"
    using body_projects s1(1) env_step_no_faults by blast
qed

end

interpretation query_pg: query_stores BalanceRepository_postgres
  "\<lambda>s. row_of bp_WalletID (balance_projections s)"
  "\<lambda>s. (statement_entries s, user_stats s, query_processed_events s, query_db.more s)"
  StatementRepository_postgres statement_entries
  "\<lambda>s. (balance_projections s, user_stats s, query_processed_events s, query_db.more s)"
  StatsRepository_postgres "\<lambda>s. row_of us_UserID (user_stats s)"
  "\<lambda>s. (balance_projections s, statement_entries s, query_processed_events s, query_db.more s)"
  QueryProcessed_postgres "\<lambda>s. processed_ids (query_processed_events s)"
  "\<lambda>s. (balance_projections s, statement_entries s, user_stats s, query_db.more s)"
  by unfold_locales simp_all

end
