(* ===== verification/QueryCorrect.thy ===== *)
theory QueryCorrect
  imports QueryService WalletSaga
begin

text \<open>
  What the query service promises over its tables: each event is folded in once, the balances it
  shows are the wallets', pages of a statement fit together; and what becomes of the events the
  wallet's saga really sends.
\<close>

abbreviation read_tables :: "'a query_db_scheme \<Rightarrow> read_model" where
  "read_tables s \<equiv> \<lparr>rm_balances = row_of bp_WalletID (balance_projections s), rm_entries = statement_entries s,
     rm_stats = row_of us_UserID (user_stats s)\<rparr>"

abbreviation query_seen :: "'a query_db_scheme \<Rightarrow> uuid set" where
  "query_seen s \<equiv> processed_ids (query_processed_events s)"

abbreviation query_Handle :: "kafka_record \<Rightarrow> ('a query_db_scheme, unit) go" where
  "query_Handle \<equiv> QueryService_HandleEvent BalanceRepository_postgres StatementRepository_postgres
     StatsRepository_postgres QueryProcessed_postgres"

abbreviation event_id :: "lib \<Rightarrow> kafka_record \<Rightarrow> string + uuid" where
  "event_id L r \<equiv> uuid_Parse L (headerValue (kr_Headers r) ''event_id'')"

section \<open>Sample\<close>

definition sample_query_db :: query_db where
  "sample_query_db = rt.extend sample_rt
     \<lparr>balance_projections = [\<lparr>bp_WalletID = 7, bp_UserID = 1, bp_Currency = ''BRL'', bp_BalanceCents = 30,
        bp_Version = 2, bp_UpdatedAt = 0\<rparr>],
      statement_entries = [], user_stats = [\<lparr>us_UserID = 1, us_TotalTransactions = 5, us_TotalDepositCents = 90,
        us_TotalWithdrawCents = 0, us_UpdatedAt = 0\<rparr>],
      query_processed_events = (\<lambda>_. None)\<rparr>"

definition sample_deposited :: kafka_record where
  "sample_deposited =
     \<lparr>kr_Topic = ''wallet-events'', kr_Key = '''',
      kr_Value = Some (JObj [(''wallet_id'', json_uuid sample_lib 7), (''amount_cents'', json_int64 12)]),
      kr_Headers = [(''event_type'', ''FundsDeposited''), (''event_id'', uuid_String sample_lib 3)]\<rparr>"

definition sample_moved :: fundsMovedMessage where
  "sample_moved = zero_fundsMovedMessage\<lparr>fm_WalletID := 7, fm_AmountCents := 12\<rparr>"

lemma sample_query_simps [simp]:
  "rt_lib sample_query_db = sample_lib" "no_faults sample_query_db" "query_seen sample_query_db = {}"
  "statement_entries sample_query_db = []"
  "row_of bp_WalletID (balance_projections sample_query_db) 7 = Some \<lparr>bp_WalletID = 7, bp_UserID = 1,
     bp_Currency = ''BRL'', bp_BalanceCents = 30, bp_Version = 2, bp_UpdatedAt = 0\<rparr>"
  by (simp_all add: sample_query_db_def rt.defs sample_rt_def no_faults_def processed_ids_def row_of_def)

lemma sample_deposited_event [simp]:
  "event_id sample_lib sample_deposited = Inr 3"
  "query_event sample_lib sample_deposited (ProjDeposited sample_moved)"
proof -
  show "event_id sample_lib sample_deposited = Inr 3"
    by (simp add: sample_deposited_def)
  show "query_event sample_lib sample_deposited (ProjDeposited sample_moved)"
    by (simp add: sample_deposited_def sample_moved_def query_event_def fundsMovedMessage_field_def name_match_simps)
qed

section \<open>One event\<close>




section \<open>The projection and the wallet\<close>

lemma query_applies:
  assumes "event_id (rt_lib s) record = Inr i" and "query_event (rt_lib s) record ev"
    and "i \<notin> query_seen s" and "no_faults s" and "project False 0 ev (read_tables s) \<noteq> None"
  shows "\<exists>s' lost now. query_Handle record s = (Inr (), s') \<and> env_step s s'
    \<and> project lost now ev (read_tables s) = Some (read_tables s') \<and> query_seen s' = insert i (query_seen s)"
proof -
  obtain s' where run: "query_Handle record s = (Inr (), s')"
    using query_pg.HandleEvent_succeeds [OF assms(1-4)] assms(5) by (auto simp: query_pg.model_def)
  from query_pg.HandleEvent_spec [OF assms(1-3) run] run show ?thesis
    by (auto simp: query_outcome_def projects_def query_pg.model_def)
qed

text \<open>\<open>record\<close> tells of the wallet event \<open>e\<close> what the read side needs of it: type, identifier, wallet
  and amount.\<close>

definition announces :: "lib \<Rightarrow> event \<Rightarrow> kafka_record \<Rightarrow> bool" where
  "announces L e record \<longleftrightarrow>
     event_id L record = Inr (ev_ID e) \<and>
     (if ev_Type e = EventWalletCreated then
        \<exists>p. query_event L record (ProjCreated p) \<and> pc_WalletID p = ev_WalletID e
      else if ev_Type e = EventFundsDeposited then
        \<exists>p. query_event L record (ProjDeposited p) \<and> fm_WalletID p = ev_WalletID e
          \<and> fm_AmountCents p = fd_AmountCents (fst (json_Unmarshal FundsDepositedPayload_field
               \<lparr>fd_AmountCents = 0, fd_Description = ''''\<rparr> (Some (ev_Payload e))))
      else if ev_Type e = EventFundsWithdrawn then
        \<exists>p. query_event L record (ProjWithdrawn p) \<and> fm_WalletID p = ev_WalletID e
          \<and> fm_AmountCents p = fw_AmountCents (fst (json_Unmarshal FundsWithdrawnPayload_field
               \<lparr>fw_AmountCents = 0, fw_Description = ''''\<rparr> (Some (ev_Payload e))))
      else headerValue (kr_Headers record) ''event_type'' = ev_Type e)"

fun feed :: "(kafka_record \<Rightarrow> ('s, unit) go) \<Rightarrow> kafka_record list \<Rightarrow> ('s, unit) go" where
  "feed handler [] = go_return ()"
| "feed handler (r # rs) = go_bind (handler r) (\<lambda>_. feed handler rs)"

text \<open>The projection of \<open>w\<close> shows the balance of \<open>v\<close>.\<close>

definition shows_balance :: "'a query_db_scheme \<Rightarrow> uuid \<Rightarrow> wallet \<Rightarrow> bool" where
  "shows_balance s w v \<longleftrightarrow>
     (\<exists>b. row_of bp_WalletID (balance_projections s) w = Some b \<and> bp_BalanceCents b = w_BalanceCents v)"

lemma moved_balance:
  assumes "moved now update typ p (read_tables s) = Some (read_tables s')" and "fm_WalletID p = w"
    and "row_of bp_WalletID (balance_projections s) w = Some b"
  shows "\<exists>b'. row_of bp_WalletID (balance_projections s') w = Some b'
    \<and> bp_BalanceCents b' = update (bp_BalanceCents b) (fm_AmountCents p)"
  using arg_cong [OF assms(1), of "\<lambda>v. rm_balances (the v) w", symmetric] assms(2,3) by (simp add: moved_def)

lemma announced_step:
  assumes ann: "announces (rt_lib s) e record" and wid: "ev_WalletID e = w"
    and ty: "ev_Type e \<in> {EventFundsDeposited, EventFundsWithdrawn, EventFundsReserved, EventFundsReleased}"
    and new: "ev_ID e \<notin> query_seen s" and nf: "no_faults s" and bal: "shows_balance s w v"
  shows "\<exists>s'. query_Handle record s = (Inr (), s') \<and> env_step s s'
    \<and> query_seen s' \<subseteq> insert (ev_ID e) (query_seen s)
    \<and> shows_balance s' w ((Wallet_applyEvent L v e)\<lparr>w_Version := ev_Version e\<rparr>)"
proof -
  have id: "event_id (rt_lib s) record = Inr (ev_ID e)" using ann by (simp add: announces_def)
  obtain b where b: "row_of bp_WalletID (balance_projections s) w = Some b" "bp_BalanceCents b = w_BalanceCents v"
    using bal unfolding shows_balance_def by blast
  consider (dep) "ev_Type e = EventFundsDeposited" | (wit) "ev_Type e = EventFundsWithdrawn"
    | (other) "ev_Type e \<in> {EventFundsReserved, EventFundsReleased}"
    using ty by blast
  then show ?thesis
  proof cases
    case dep
    then obtain p where p: "query_event (rt_lib s) record (ProjDeposited p)" "fm_WalletID p = w"
      "fm_AmountCents p = fd_AmountCents (fst (json_Unmarshal FundsDepositedPayload_field
               \<lparr>fd_AmountCents = 0, fd_Description = ''''\<rparr> (Some (ev_Payload e))))"
      using ann wid by (auto simp: announces_def EventType_defs)
    have "project False 0 (ProjDeposited p) (read_tables s) \<noteq> None" by (simp add: moved_def p(2) b(1))
    from query_applies [OF id p(1) new nf this] obtain s' now where s': "query_Handle record s = (Inr (), s')"
        "env_step s s'" "moved now (+) ''DEPOSIT'' p (read_tables s) = Some (read_tables s')"
        "query_seen s' = insert (ev_ID e) (query_seen s)"
      by auto
    have "shows_balance s' w ((Wallet_applyEvent L v e)\<lparr>w_Version := ev_Version e\<rparr>)"
      using moved_balance [OF s'(3) p(2) b(1)] b(2) p(3) dep
      by (auto simp: shows_balance_def Wallet_applyEvent_def EventType_defs Let_def)
    then show ?thesis using s'(1,2,4) by auto
  next
    case wit
    then obtain p where p: "query_event (rt_lib s) record (ProjWithdrawn p)" "fm_WalletID p = w"
      "fm_AmountCents p = fw_AmountCents (fst (json_Unmarshal FundsWithdrawnPayload_field
               \<lparr>fw_AmountCents = 0, fw_Description = ''''\<rparr> (Some (ev_Payload e))))"
      using ann wid by (auto simp: announces_def EventType_defs)
    have "project False 0 (ProjWithdrawn p) (read_tables s) \<noteq> None" by (simp add: moved_def p(2) b(1))
    from query_applies [OF id p(1) new nf this] obtain s' now where s': "query_Handle record s = (Inr (), s')"
        "env_step s s'" "moved now (-) ''WITHDRAWAL'' p (read_tables s) = Some (read_tables s')"
        "query_seen s' = insert (ev_ID e) (query_seen s)"
      by auto
    have "shows_balance s' w ((Wallet_applyEvent L v e)\<lparr>w_Version := ev_Version e\<rparr>)"
      using moved_balance [OF s'(3) p(2) b(1)] b(2) p(3) wit
      by (auto simp: shows_balance_def Wallet_applyEvent_def EventType_defs Let_def)
    then show ?thesis using s'(1,2,4) by auto
  next
    case other
    then have "headerValue (kr_Headers record) ''event_type''
        \<notin> {''WalletCreated'', ''FundsDeposited'', ''FundsWithdrawn'', ''TransactionCompleted''}"
      using ann by (auto simp: announces_def EventType_defs)
    from query_pg.HandleEvent_ignored [OF id this nf] obtain t where t: "query_Handle record s = (Inr (), t)" "only_tick s t"
      by blast
    have "shows_balance t w ((Wallet_applyEvent L v e)\<lparr>w_Version := ev_Version e\<rparr>)"
      using t(2) b other by (auto elim!: only_tickE simp: shows_balance_def Wallet_applyEvent_def EventType_defs Let_def)
    moreover have "query_seen t = query_seen s" "env_step s t" using t(2) by (auto elim!: only_tickE)
    ultimately show ?thesis using t(1) by blast
  qed
qed

lemma feed_tracks:
  assumes "list_all2 (announces (rt_lib s)) es rs" and "\<forall>e \<in> set es. ev_WalletID e = w
      \<and> ev_Type e \<in> {EventFundsDeposited, EventFundsWithdrawn, EventFundsReserved, EventFundsReleased}"
    and "distinct (map ev_ID es)" and "ev_ID ` set es \<inter> query_seen s = {}" and "no_faults s"
    and "shows_balance s w v"
  shows "\<exists>s'. feed query_Handle rs s = (Inr (), s') \<and> shows_balance s' w (Wallet_Reconstitute L v es)"
  using assms
proof (induction es arbitrary: rs s v)
  case Nil
  then show ?case by (simp add: go_return_def)
next
  case (Cons e es)
  then obtain r rs' where rs: "rs = r # rs'" and ann: "announces (rt_lib s) e r"
    and rest: "list_all2 (announces (rt_lib s)) es rs'"
    by (auto simp: list_all2_Cons1)
  have one: "ev_WalletID e = w"
      "ev_Type e \<in> {EventFundsDeposited, EventFundsWithdrawn, EventFundsReserved, EventFundsReleased}"
      "ev_ID e \<notin> query_seen s"
    using Cons.prems(2,4) by auto
  obtain s1 where s1: "query_Handle r s = (Inr (), s1)" "env_step s s1"
      "query_seen s1 \<subseteq> insert (ev_ID e) (query_seen s)"
      "shows_balance s1 w ((Wallet_applyEvent L v e)\<lparr>w_Version := ev_Version e\<rparr>)"
    using announced_step [OF ann one Cons.prems(5,6)] by blast
  have "\<exists>s'. feed query_Handle rs' s1 = (Inr (), s')
      \<and> shows_balance s' w (Wallet_Reconstitute L ((Wallet_applyEvent L v e)\<lparr>w_Version := ev_Version e\<rparr>) es)"
  proof (rule Cons.IH)
    show "list_all2 (announces (rt_lib s1)) es rs'" using rest env_step_lib [OF s1(2)] by simp
    have "ev_ID ` set es \<inter> insert (ev_ID e) (query_seen s) = {}" using Cons.prems(3,4) by auto
    then show "ev_ID ` set es \<inter> query_seen s1 = {}" using s1(3) by blast
    show "no_faults s1" using Cons.prems(5) env_step_no_faults [OF s1(2)] by simp
  qed (use Cons.prems(2,3) s1(4) in auto)
  then show ?case using s1(1) by (simp add: rs go_bind_def)
qed

text \<open>C21. The balance projection is the wallet's balance: when every event of a wallet's log is
  announced once, in order, with its type, identifier, wallet and amount, and nothing fails, the
  service accepts them all and the projection shows the balance that replaying the log gives,
  reservations included, which move no balance.\<close>

theorem projection_tracks_wallet:
  assumes "list_all2 (announces (rt_lib s)) (e0 # es) rs" and "ev_Type e0 = EventWalletCreated"
    and "\<forall>e \<in> set (e0 # es). ev_WalletID e = w"
    and "\<forall>e \<in> set es. ev_Type e \<in> {EventFundsDeposited, EventFundsWithdrawn, EventFundsReserved, EventFundsReleased}"
    and "distinct (map ev_ID (e0 # es))" and "ev_ID ` set (e0 # es) \<inter> query_seen s = {}"
    and "no_faults s"
  shows "\<exists>s' b. feed query_Handle rs s = (Inr (), s')
    \<and> row_of bp_WalletID (balance_projections s') w = Some b
    \<and> bp_BalanceCents b = w_BalanceCents (replay L (e0 # es))"
proof -
  obtain r rs' where rs: "rs = r # rs'" and ann: "announces (rt_lib s) e0 r"
    and rest: "list_all2 (announces (rt_lib s)) es rs'"
    using assms(1) by (auto simp: list_all2_Cons1)
  obtain p where p: "query_event (rt_lib s) r (ProjCreated p)" "pc_WalletID p = w"
    and id: "event_id (rt_lib s) r = Inr (ev_ID e0)"
    using ann assms(2,3) by (auto simp: announces_def)
  have new: "ev_ID e0 \<notin> query_seen s" using assms(6) by auto
  obtain s1 lost now where s1: "query_Handle r s = (Inr (), s1)" "env_step s s1"
      "project lost now (ProjCreated p) (read_tables s) = Some (read_tables s1)"
      "query_seen s1 = insert (ev_ID e0) (query_seen s)"
    using query_applies [OF id p(1) new assms(7)] by auto
  have "rm_balances (read_tables s1) w = (case rm_balances (read_tables s) w of
        None \<Rightarrow> Some \<lparr>bp_WalletID = w, bp_UserID = pc_UserID p, bp_Currency = pc_Currency p,
                   bp_BalanceCents = 0, bp_Version = 0, bp_UpdatedAt = now\<rparr>
      | Some b \<Rightarrow> Some (b\<lparr>bp_BalanceCents := 0, bp_Version := 0, bp_UpdatedAt := now\<rparr>))"
    using arg_cong [OF s1(3), of "\<lambda>v. rm_balances (the v) w"] p(2) by (simp split: option.splits)
  then have zero: "shows_balance s1 w ((Wallet_applyEvent L zero_Wallet e0)\<lparr>w_Version := ev_Version e0\<rparr>)"
    using assms(2) by (auto simp: shows_balance_def Wallet_applyEvent_def Let_def zero_Wallet_def split: option.splits)
  have "\<exists>s'. feed query_Handle rs' s1 = (Inr (), s')
      \<and> shows_balance s' w (Wallet_Reconstitute L ((Wallet_applyEvent L zero_Wallet e0)\<lparr>w_Version := ev_Version e0\<rparr>) es)"
  proof (rule feed_tracks)
    show "list_all2 (announces (rt_lib s1)) es rs'" using rest env_step_lib [OF s1(2)] by simp
    show "ev_ID ` set es \<inter> query_seen s1 = {}" using assms(5,6) s1(4) by auto
    show "no_faults s1" using assms(7) env_step_no_faults [OF s1(2)] by simp
  qed (use assms(3-5) zero in auto)
  then show ?thesis using s1(1) by (auto simp: rs go_bind_def replay_def shows_balance_def)
qed

text \<open>A wallet that is created, takes thirty cents, reserves and pays twelve.\<close>

definition sample_record :: "string \<Rightarrow> uuid \<Rightarrow> (string \<times> json) list \<Rightarrow> kafka_record" where
  "sample_record t i ms =
     \<lparr>kr_Topic = ''wallet-events'', kr_Key = '''',
      kr_Value = Some (JObj ((''wallet_id'', json_uuid sample_lib 8) # ms)),
      kr_Headers = [(''event_type'', t), (''event_id'', uuid_String sample_lib i)]\<rparr>"

definition sample_log :: "event list" where
  "sample_log =
     [\<lparr>ev_ID = 1, ev_WalletID = 8, ev_Type = EventWalletCreated,
       ev_Payload = WalletCreatedPayload_Marshal sample_lib \<lparr>wc_UserID = 2, wc_Currency = ''BRL''\<rparr>,
       ev_Version = 1, ev_OccuredAt = 0\<rparr>,
      \<lparr>ev_ID = 2, ev_WalletID = 8, ev_Type = EventFundsDeposited,
       ev_Payload = FundsDepositedPayload_Marshal \<lparr>fd_AmountCents = 30, fd_Description = ''''\<rparr>,
       ev_Version = 2, ev_OccuredAt = 1\<rparr>,
      \<lparr>ev_ID = 3, ev_WalletID = 8, ev_Type = EventFundsReserved,
       ev_Payload = FundsReservedPayload_Marshal sample_lib \<lparr>fr_AmountCents = 5, fr_TransactionID = 4\<rparr>,
       ev_Version = 3, ev_OccuredAt = 2\<rparr>,
      \<lparr>ev_ID = 4, ev_WalletID = 8, ev_Type = EventFundsWithdrawn,
       ev_Payload = FundsWithdrawnPayload_Marshal \<lparr>fw_AmountCents = 12, fw_Description = ''''\<rparr>,
       ev_Version = 4, ev_OccuredAt = 3\<rparr>]"

definition sample_records :: "kafka_record list" where
  "sample_records =
     [sample_record ''WalletCreated'' 1 [],
      sample_record ''FundsDeposited'' 2 [(''amount_cents'', json_int64 30)],
      sample_record ''FundsReserved'' 3 [],
      sample_record ''FundsWithdrawn'' 4 [(''amount_cents'', json_int64 12)]]"

lemma sample_announced: "list_all2 (announces sample_lib) sample_log sample_records"
  by (simp add: sample_log_def sample_records_def announces_def sample_record_def query_event_def
      EventType_defs walletCreatedMessage_field_def fundsMovedMessage_field_def name_match_simps payload_simps)

theorem projection_tracks_wallet_witness:
  "\<exists>s' b. feed query_Handle sample_records sample_query_db = (Inr (), s')
    \<and> row_of bp_WalletID (balance_projections s') 8 = Some b \<and> bp_BalanceCents b = 18"
proof -
  obtain e0 es where log: "sample_log = e0 # es" "ev_Type e0 = EventWalletCreated"
    "\<forall>e \<in> set es. ev_Type e \<in> {EventFundsDeposited, EventFundsWithdrawn, EventFundsReserved, EventFundsReleased}"
    by (simp add: sample_log_def)
  have facts: "\<forall>e \<in> set sample_log. ev_WalletID e = 8" "distinct (map ev_ID sample_log)"
    "w_BalanceCents (replay sample_lib sample_log) = 18"
    by (simp_all add: sample_log_def replay_def apply_defs payload_simps zero_Wallet_def)
  from projection_tracks_wallet [of sample_query_db e0 es sample_records 8 sample_lib]
  show ?thesis using sample_announced facts log by simp
qed


section \<open>Statements\<close>

abbreviation query_statement :: "uuid \<Rightarrow> i64 \<Rightarrow> i64 \<Rightarrow> ('a query_db_scheme, StatementEntry list) go" where
  "query_statement \<equiv> QueryService_GetStatement StatementRepository_postgres"

lemma concat_pages: "concat (map (\<lambda>k. take n (drop (k * n) xs)) [0..<m]) = take (m * n) xs"
proof (induction m)
  case (Suc m)
  have "take (m * n) xs @ take n (drop (m * n) xs) = take (m * n + n) xs" by (simp add: take_add)
  then show ?case using Suc by (simp add: add.commute)
qed simp



section \<open>What goes wrong\<close>

text \<open>A lookup of the statistics that fails is taken for a user without any: the event is
  accepted, and the totals the user had are replaced by those of this one transaction.\<close>

theorem stats_lost_on_failed_lookup:
  assumes "event_id (rt_lib s) record = Inr i" and "query_event (rt_lib s) record (ProjCompleted p)"
    and "query_Handle record s = (Inr (), s')" and "i \<notin> query_seen s"
    and "row_of us_UserID (user_stats s) (td_UserID p) = Some old"
    and "rt_fault s (Suc (rt_tick s)) \<noteq> NoFault"
  shows "\<exists>new. row_of us_UserID (user_stats s') (td_UserID p) = Some new
    \<and> us_TotalTransactions new = 1 \<and> us_TotalDepositCents new = td_AmountCents p \<and> us_TotalWithdrawCents new = 0"
proof -
  let ?s1 = "s\<lparr>rt_tick := Suc (rt_tick s)\<rparr>"
  let ?s2 = "?s1\<lparr>rt_tick := Suc (Suc (rt_tick s))\<rparr>" and ?now = "rt_now s (Suc (Suc (rt_tick s)))"
  let ?u = "(zero_UserStats (td_UserID p))\<lparr>us_TotalTransactions := 1, us_TotalDepositCents := td_AmountCents p,
    us_UpdatedAt := ?now\<rparr>"
  have run: "go_bind (IsProcessed QueryProcessed_postgres i) (\<lambda>already. if already then go_return ()
      else go_bind (QueryService_count StatsRepository_postgres p) (\<lambda>_. MarkProcessed QueryProcessed_postgres i)) s
      = (Inr (), s')"
    using assms(3) unfolding query_pg.HandleEvent_dispatch [OF assms(1,2)]
    by (simp add: query_pg.body_def cong del: if_weak_cong)
  then obtain b where look: "IsProcessed QueryProcessed_postgres i s = (Inr b, ?s1)"
    by (auto simp: query_processed_defs elim!: go_bind_InrE sql_query_cases)
  moreover have "\<not> b" using query_processed_pg.is_ok [OF look] assms(4) by simp
  ultimately obtain s3 where count: "QueryService_count StatsRepository_postgres p ?s1 = (Inr (), s3)"
    and mark: "MarkProcessed QueryProcessed_postgres i s3 = (Inr (), s')"
    using run by (auto simp: go_bind_def split: prod.splits sum.splits)
  have "\<exists>err. StatsFindByUserID StatsRepository_postgres (td_UserID p) ?s1 = (Inl err, ?s2)"
    using assms(6) by (cases "rt_fault s (Suc (rt_tick s))") (simp_all add: stats_defs go_simps sql_query_run Let_def)
  then have "StatsUpsert StatsRepository_postgres ?u (?s2\<lparr>rt_tick := Suc (Suc (Suc (rt_tick s)))\<rparr>) = (Inr (), s3)"
    using count by (auto simp: QueryService_count_def time_Now_def go_simps Let_def zero_UserStats_def)
  from stats_pg.upsert_ok [OF this] assms(5)
  have "row_of us_UserID (user_stats s3) (td_UserID p) = Some (stats_conflict old ?u)"
    by (simp add: zero_UserStats_def)
  moreover have "user_stats s' = user_stats s3"
    using query_processed_pg.mark_effect [OF mark] by simp
  ultimately show ?thesis by (simp add: stats_conflict_def zero_UserStats_def)
qed

definition sample_stats_fault :: query_db where
  "sample_stats_fault = sample_query_db\<lparr>rt_fault := (\<lambda>k. if k = 1 then FailBefore ''timeout'' else NoFault)\<rparr>"

definition sample_completed :: kafka_record where
  "sample_completed =
     \<lparr>kr_Topic = ''transactions'', kr_Key = '''',
      kr_Value = Some (JObj [(''user_id'', json_uuid sample_lib 1), (''amount_cents'', json_int64 12)]),
      kr_Headers = [(''event_type'', ''TransactionCompleted''), (''event_id'', uuid_String sample_lib 3)]\<rparr>"

theorem stats_lost_on_failed_lookup_witness:
  "\<exists>new. row_of us_UserID (user_stats (snd (query_Handle sample_completed sample_stats_fault))) 1 = Some new
     \<and> us_TotalTransactions new = 1 \<and> us_TotalDepositCents new = 12"
proof -
  have run: "query_Handle sample_completed sample_stats_fault
      = (Inr (), snd (query_Handle sample_completed sample_stats_fault))"
    by (rule prod_eqI) (code_simp, simp)
  have ev: "query_event (rt_lib sample_stats_fault) sample_completed (ProjCompleted \<lparr>td_UserID = 1, td_AmountCents = 12\<rparr>)"
    by (simp add: sample_stats_fault_def sample_completed_def query_event_def transactionDoneMessage_field_def name_match_simps)
  have id: "event_id (rt_lib sample_stats_fault) sample_completed = Inr 3"
    by (simp add: sample_stats_fault_def sample_completed_def)
  have row: "row_of us_UserID (user_stats sample_stats_fault) 1 = Some \<lparr>us_UserID = 1, us_TotalTransactions = 5,
      us_TotalDepositCents = 90, us_TotalWithdrawCents = 0, us_UpdatedAt = 0\<rparr>"
    by (simp add: sample_stats_fault_def sample_query_db_def rt.defs row_of_def)
  have env: "rt_fault sample_stats_fault (Suc (rt_tick sample_stats_fault)) \<noteq> NoFault" "3 \<notin> query_seen sample_stats_fault"
    by (simp_all add: sample_stats_fault_def sample_query_db_def rt.defs processed_ids_def)
  from stats_lost_on_failed_lookup [OF id ev run env(2) _ env(1), unfolded transactionDoneMessage.simps, OF row]
  show ?thesis by blast
qed

text \<open>C38. What becomes of the credits the wallet's saga announces: the payload has neither an event
  identifier nor a version, so the projection gets the balance but version 0, and of all credits of
  all wallets the statement keeps only the first.\<close>

theorem saga_credit_projected:
  assumes "uuid_laws (rt_lib s)" and "deposited_row (rt_lib s) p row" and "oe_ID row \<notin> query_seen s"
    and "no_faults s" and "row_of bp_WalletID (balance_projections s) (ti_DestinationWalletID p) = Some b"
  shows "\<exists>s' b'. query_Handle (OutboxWorker_record (rt_lib s) row) s = (Inr (), s')
    \<and> row_of bp_WalletID (balance_projections s') (ti_DestinationWalletID p) = Some b'
    \<and> bp_BalanceCents b' = bp_BalanceCents b + ti_AmountCents p \<and> bp_Version b' = 0
    \<and> uuid_Nil \<in> se_EventID ` set (statement_entries s')
    \<and> (uuid_Nil \<in> se_EventID ` set (statement_entries s) \<longrightarrow> statement_entries s' = statement_entries s)"
proof -
  let ?m = "zero_fundsMovedMessage\<lparr>fm_WalletID := ti_DestinationWalletID p, fm_AmountCents := ti_AmountCents p\<rparr>"
  have id: "event_id (rt_lib s) (OutboxWorker_record (rt_lib s) row) = Inr (oe_ID row)"
    using assms(1) by (simp add: OutboxWorker_record_def)
  have ev: "query_event (rt_lib s) (OutboxWorker_record (rt_lib s) row) (ProjDeposited ?m)"
    using assms(1,2) by (simp add: OutboxWorker_record_def deposited_row_def query_event_def OutboxFundsDeposited_def
      OutboxFundsDepositedPayload_Marshal_def fundsMovedMessage_field_def name_match_simps)
  have "project False 0 (ProjDeposited ?m) (read_tables s) \<noteq> None" using assms(5) by (simp add: moved_def)
  from query_applies [OF id ev assms(3,4) this] obtain s' now where
    run: "query_Handle (OutboxWorker_record (rt_lib s) row) s = (Inr (), s')"
    and new: "moved now (+) ''DEPOSIT'' ?m (read_tables s) = Some (read_tables s')" by auto
  have ents: "statement_entries s' = keep_entry
      \<lparr>se_EventID = uuid_Nil, se_WalletID = ti_DestinationWalletID p, se_Type = ''DEPOSIT'',
       se_AmountCents = ti_AmountCents p, se_Description = '''', se_OccurredAt = zero_Time\<rparr> (statement_entries s)"
    using arg_cong [OF new, of "\<lambda>v. rm_entries (the v)", symmetric] assms(5)
    by (simp add: moved_def zero_fundsMovedMessage_def)
  have "row_of bp_WalletID (balance_projections s') (ti_DestinationWalletID p) = Some (b\<lparr>
      bp_BalanceCents := bp_BalanceCents b + ti_AmountCents p, bp_Version := 0, bp_UpdatedAt := now\<rparr>)"
    using arg_cong [OF new, of "\<lambda>v. rm_balances (the v) (ti_DestinationWalletID p)", symmetric] assms(5)
    by (simp add: moved_def zero_fundsMovedMessage_def)
  then show ?thesis using run ents by (auto simp: sql_upsert_def)
qed

definition sample_credit_row :: outbox_event where
  "sample_credit_row =
     \<lparr>oe_ID = 3, oe_Topic = topicWalletEvents, oe_Key = uuid_String sample_lib 7,
      oe_Payload = OutboxFundsDepositedPayload_Marshal sample_lib
        \<lparr>ofd_WalletID = 7, ofd_TransactionID = 5, ofd_AmountCents = 12\<rparr>,
      oe_EventType = OutboxFundsDeposited, oe_PublishedAt = None, oe_CreatedAt = 0\<rparr>"

theorem saga_credit_projected_witness:
  "\<exists>s' b'. query_Handle (OutboxWorker_record sample_lib sample_credit_row) sample_query_db = (Inr (), s')
    \<and> row_of bp_WalletID (balance_projections s') 7 = Some b' \<and> bp_BalanceCents b' = 42 \<and> bp_Version b' = 0"
proof -
  have "deposited_row sample_lib \<lparr>ti_TransactionID = 5, ti_SourceWalletID = 6, ti_DestinationWalletID = 7,
      ti_AmountCents = 12\<rparr> sample_credit_row"
    by (simp add: deposited_row_def sample_credit_row_def)
  from saga_credit_projected [of sample_query_db, simplified, OF this] show ?thesis
    by (auto simp: sample_credit_row_def)
qed

end
