(* ===== verification/FraudService.thy ===== *)
theory FraudService
  imports TransactionService
begin

text \<open>
  The fraud service, \<open>services/fraud\<close>: the profiles of \<open>internal/domain/risk.go\<close>, their repository in
  Redis (\<open>adapters/outbound/redis/profile_repo.go\<close>), the three checks of
  \<open>application/fraud_service.go\<close>, the gRPC server \<open>adapters/inbound/grpc/server.go\<close> and the consumer that
  keeps the profiles, \<open>adapters/inbound/kafka/profile_updater.go\<close>. The Redis client is an
  argument: \<open>rget\<close> and \<open>rset\<close>, with the laws of the two commands.
\<close>

section \<open>Data (domain/risk.go)\<close>

definition DecisionApproved :: string where "DecisionApproved = ''APPROVED''"
definition DecisionRejected :: string where "DecisionRejected = ''REJECTED''"
definition DecisionReview :: string where "DecisionReview = ''REVIEW''"

record EvaluationRequest =
  eq_TransactionID :: uuid
  eq_UserID :: uuid
  eq_WalletID :: uuid
  eq_AmountCents :: i64
  eq_OccurredAt :: time

record EvaluationResult =
  er_TransactionID :: uuid
  er_Decision :: string
  er_Reason :: string

record UserProfile =
  up_UserID :: uuid
  up_DailyTotalCents :: i64
  up_TxCountLastMinute :: i64
  up_UpdatedAt :: time

definition zero_UserProfile :: "uuid \<Rightarrow> UserProfile" where
  "zero_UserProfile userID =
     \<lparr>up_UserID = userID, up_DailyTotalCents = 0, up_TxCountLastMinute = 0, up_UpdatedAt = zero_Time\<rparr>"

text \<open>The struct has no tags: its JSON keys are the names of its fields.\<close>

definition UserProfile_Marshal :: "lib \<Rightarrow> UserProfile \<Rightarrow> goerr + json" where
  "UserProfile_Marshal L p =
     (case json_time L (up_UpdatedAt p) of
        Inl e \<Rightarrow> Inl e
      | Inr t \<Rightarrow> Inr (JObj [(''UserID'', json_uuid L (up_UserID p)),
          (''DailyTotalCents'', json_int64 (up_DailyTotalCents p)),
          (''TxCountLastMinute'', json_int64 (up_TxCountLastMinute p)), (''UpdatedAt'', t)]))"

definition UserProfile_field :: "lib \<Rightarrow> UserProfile \<Rightarrow> string \<Rightarrow> json \<Rightarrow> UserProfile jstep" where
  "UserProfile_field L p k v =
     (if name_match k ''UserID'' then jf_uuid L (\<lambda>u p. p\<lparr>up_UserID := u\<rparr>) v p
      else if name_match k ''DailyTotalCents'' then jf_int64 (\<lambda>n p. p\<lparr>up_DailyTotalCents := n\<rparr>) v p
      else if name_match k ''TxCountLastMinute'' then jf_int64 (\<lambda>n p. p\<lparr>up_TxCountLastMinute := n\<rparr>) v p
      else if name_match k ''UpdatedAt'' then jf_time L (\<lambda>t p. p\<lparr>up_UpdatedAt := t\<rparr>) v p
      else JKeep)"

section \<open>The repository (profile_repo.go)\<close>

text \<open>
  \<open>Get(...).Bytes()\<close> answers with the value of the key, with nothing for \<open>redis.Nil\<close>, or with another
  error; a value that is not JSON is an inner \<open>None\<close>. \<open>Set\<close> takes the time to live.
\<close>

type_synonym 's redis_get = "string \<Rightarrow> ('s, json option option) go"
type_synonym 's redis_set = "string \<Rightarrow> json \<Rightarrow> int \<Rightarrow> ('s, unit) go"

definition profileTTL :: int where "profileTTL = 25 * 60 * 60 * 10 ^ 9"

definition profileKey :: "lib \<Rightarrow> uuid \<Rightarrow> string" where
  "profileKey L userID = ''fraud:profile:'' @ uuid_String L userID"

definition ProfileRepository_GetProfile :: "'a rt_scheme redis_get \<Rightarrow> uuid \<Rightarrow> ('a rt_scheme, UserProfile) go" where
  "ProfileRepository_GetProfile rget userID =
     go_bind (go_gets rt_lib) (\<lambda>L.
     go_bind (go_wrap CodeInternal ''get profile'' (rget (profileKey L userID))) (\<lambda>data.
     case data of
       None \<Rightarrow> go_throw (errors_New CodeNotFound ''profile not found'')
     | Some d \<Rightarrow> go_wrap CodeInternal ''unmarshal profile''
         (go_unmarshal (json_Unmarshal (UserProfile_field L) (zero_UserProfile uuid_Nil) d))))"

definition ProfileRepository_UpdateProfile :: "'a rt_scheme redis_set \<Rightarrow> UserProfile \<Rightarrow> ('a rt_scheme, unit) go" where
  "ProfileRepository_UpdateProfile rset profile =
     go_bind (go_gets rt_lib) (\<lambda>L.
     case UserProfile_Marshal L profile of
       Inl e \<Rightarrow> go_throw (errors_Wrap CodeInternal ''marshal profile'' e)
     | Inr data \<Rightarrow> go_wrap CodeInternal ''set profile'' (rset (profileKey L (up_UserID profile)) data profileTTL))"

section \<open>The checks (fraud_service.go)\<close>

definition dailyLimitCents :: int where "dailyLimitCents = 10000000"
definition velocityMaxPerMin :: int where "velocityMaxPerMin = 10"
definition largeTransactionCents :: int where "largeTransactionCents = 1000000"

text \<open>Each check returns a result when it decides, the Go pair \<open>(result, true)\<close>.\<close>

definition FraudService_checkDailyLimit :: "EvaluationRequest \<Rightarrow> UserProfile \<Rightarrow> EvaluationResult option" where
  "FraudService_checkDailyLimit req profile =
     (if dailyLimitCents < sint (up_DailyTotalCents profile + eq_AmountCents req)
      then Some \<lparr>er_TransactionID = eq_TransactionID req, er_Decision = DecisionRejected,
        er_Reason = ''daily limit exceeded: '' @ show_int (sint (up_DailyTotalCents profile)) @ '' + ''
          @ show_int (sint (eq_AmountCents req)) @ '' > '' @ show_int dailyLimitCents\<rparr>
      else None)"

definition FraudService_checkVelocity :: "EvaluationRequest \<Rightarrow> UserProfile \<Rightarrow> EvaluationResult option" where
  "FraudService_checkVelocity req profile =
     (if velocityMaxPerMin \<le> sint (up_TxCountLastMinute profile)
      then Some \<lparr>er_TransactionID = eq_TransactionID req, er_Decision = DecisionRejected,
        er_Reason = ''velocity limit exceeded: '' @ show_int (sint (up_TxCountLastMinute profile))
          @ '' txns in last minute''\<rparr>
      else None)"

definition FraudService_checkLargeTransaction :: "EvaluationRequest \<Rightarrow> EvaluationResult option" where
  "FraudService_checkLargeTransaction req =
     (if largeTransactionCents \<le> sint (eq_AmountCents req)
      then Some \<lparr>er_TransactionID = eq_TransactionID req, er_Decision = DecisionReview,
        er_Reason = ''large transaction: '' @ show_int (sint (eq_AmountCents req)) @ '' cents requires review''\<rparr>
      else None)"

definition FraudService_decide :: "EvaluationRequest \<Rightarrow> UserProfile \<Rightarrow> EvaluationResult" where
  "FraudService_decide req profile =
     (case FraudService_checkDailyLimit req profile of
        Some result \<Rightarrow> result
      | None \<Rightarrow> (case FraudService_checkVelocity req profile of
          Some result \<Rightarrow> result
        | None \<Rightarrow> (case FraudService_checkLargeTransaction req of
            Some result \<Rightarrow> result
          | None \<Rightarrow> \<lparr>er_TransactionID = eq_TransactionID req, er_Decision = DecisionApproved, er_Reason = ''''\<rparr>)))"

text \<open>Any error of the repository counts as no profile yet.\<close>

definition FraudService_Evaluate ::
  "'a rt_scheme redis_get \<Rightarrow> EvaluationRequest \<Rightarrow> ('a rt_scheme, EvaluationResult) go"
where
  "FraudService_Evaluate rget req =
     go_bind (go_try (ProfileRepository_GetProfile rget (eq_UserID req))) (\<lambda>res.
     let profile = (case res of Inl err \<Rightarrow> zero_UserProfile (eq_UserID req) | Inr p \<Rightarrow> p)
     in go_return (FraudService_decide req profile))"

section \<open>The gRPC server (server.go)\<close>

definition toProtoDecision :: "string \<Rightarrow> Decision" where
  "toProtoDecision d =
     (if d = DecisionApproved then DECISION_APPROVED
      else if d = DecisionRejected then DECISION_REJECTED
      else if d = DecisionReview then DECISION_REVIEW
      else DECISION_UNSPECIFIED)"

definition FraudServer_Evaluate ::
  "(grpc_code \<Rightarrow> string \<Rightarrow> string) \<Rightarrow> 'a rt_scheme redis_get \<Rightarrow> EvaluateRequest
     \<Rightarrow> ('a rt_scheme, EvaluateResponse) go"
where
  "FraudServer_Evaluate status_text rget req =
     go_bind (go_gets rt_lib) (\<lambda>L.
     case uuid_Parse L (erq_TransactionId req) of
       Inl err \<Rightarrow> go_throw (StatusError InvalidArgument (''invalid transaction_id: '' @ err))
     | Inr txID \<Rightarrow> (case uuid_Parse L (erq_UserId req) of
         Inl err \<Rightarrow> go_throw (StatusError InvalidArgument (''invalid user_id: '' @ err))
       | Inr userID \<Rightarrow> (case uuid_Parse L (erq_WalletId req) of
           Inl err \<Rightarrow> go_throw (StatusError InvalidArgument (''invalid wallet_id: '' @ err))
         | Inr walletID \<Rightarrow>
             go_bind time_Now (\<lambda>now.
             go_bind (go_try (FraudService_Evaluate rget
               \<lparr>eq_TransactionID = txID, eq_UserID = userID, eq_WalletID = walletID,
                eq_AmountCents = erq_AmountCents req,
                eq_OccurredAt = (case erq_OccurredAt req of None \<Rightarrow> now | Some t \<Rightarrow> t)\<rparr>)) (\<lambda>res.
             case res of
               Inl err \<Rightarrow> go_throw (StatusError Internal (''evaluate: '' @ error_Error status_text err))
             | Inr result \<Rightarrow> go_return
                 \<lparr>ers_TransactionId = uuid_String L (er_TransactionID result),
                  ers_Decision = toProtoDecision (er_Decision result), ers_Reason = er_Reason result\<rparr>)))))"

section \<open>The profile updater (profile_updater.go)\<close>

record profileUpdatePayload =
  pu_TransactionID :: uuid
  pu_SourceWalletID :: uuid
  pu_DestinationWalletID :: uuid
  pu_AmountCents :: i64
  pu_UserID :: uuid

definition zero_profileUpdatePayload :: profileUpdatePayload where
  "zero_profileUpdatePayload =
     \<lparr>pu_TransactionID = uuid_Nil, pu_SourceWalletID = uuid_Nil, pu_DestinationWalletID = uuid_Nil,
      pu_AmountCents = 0, pu_UserID = uuid_Nil\<rparr>"

definition profileUpdatePayload_field ::
  "lib \<Rightarrow> profileUpdatePayload \<Rightarrow> string \<Rightarrow> json \<Rightarrow> profileUpdatePayload jstep"
where
  "profileUpdatePayload_field L p k v =
     (if name_match k ''transaction_id'' then jf_uuid L (\<lambda>u p. p\<lparr>pu_TransactionID := u\<rparr>) v p
      else if name_match k ''source_wallet_id'' then jf_uuid L (\<lambda>u p. p\<lparr>pu_SourceWalletID := u\<rparr>) v p
      else if name_match k ''destination_wallet_id'' then jf_uuid L (\<lambda>u p. p\<lparr>pu_DestinationWalletID := u\<rparr>) v p
      else if name_match k ''amount_cents'' then jf_int64 (\<lambda>n p. p\<lparr>pu_AmountCents := n\<rparr>) v p
      else if name_match k ''user_id'' then jf_uuid L (\<lambda>u p. p\<lparr>pu_UserID := u\<rparr>) v p
      else JKeep)"

text \<open>What the handler does with a payload; errors are logged.\<close>

definition ProfileUpdater_update ::
  "'a rt_scheme redis_get \<Rightarrow> 'a rt_scheme redis_set \<Rightarrow> profileUpdatePayload \<Rightarrow> ('a rt_scheme, unit) go"
where
  "ProfileUpdater_update rget rset payload =
     (if pu_UserID payload = uuid_Nil then go_return ()
      else
        go_bind (go_try (ProfileRepository_GetProfile rget (pu_UserID payload))) (\<lambda>res.
        let profile = (case res of Inl err \<Rightarrow> zero_UserProfile (pu_UserID payload) | Inr p \<Rightarrow> p)
        in go_bind time_Now (\<lambda>now.
           go_bind (go_try (ProfileRepository_UpdateProfile rset
             (profile\<lparr>up_DailyTotalCents := up_DailyTotalCents profile + pu_AmountCents payload,
                      up_TxCountLastMinute := up_TxCountLastMinute profile + 1,
                      up_UpdatedAt := now\<rparr>))) (\<lambda>_. go_return ()))))"

definition ProfileUpdater_handle ::
  "'a rt_scheme redis_get \<Rightarrow> 'a rt_scheme redis_set \<Rightarrow> kafka_record \<Rightarrow> ('a rt_scheme, unit) go"
where
  "ProfileUpdater_handle rget rset r =
     (if headerValue (kr_Headers r) ''event_type'' \<noteq> ''TransactionCompleted'' then go_return ()
      else
        go_bind (go_gets rt_lib) (\<lambda>L.
        case json_Unmarshal (profileUpdatePayload_field L) zero_profileUpdatePayload (kr_Value r) of
          (_, Some err) \<Rightarrow> go_return ()
        | (payload, None) \<Rightarrow> ProfileUpdater_update rget rset payload))"

fun ProfileUpdater_eachRecord ::
  "'a rt_scheme redis_get \<Rightarrow> 'a rt_scheme redis_set \<Rightarrow> kafka_record list \<Rightarrow> ('a rt_scheme, unit) go"
where
  "ProfileUpdater_eachRecord rget rset [] = go_return ()"
| "ProfileUpdater_eachRecord rget rset (r # rs) =
     go_bind (ProfileUpdater_handle rget rset r) (\<lambda>_. ProfileUpdater_eachRecord rget rset rs)"

text \<open>\<open>Run\<close>: each batch that is polled before the context ends is handled and committed.\<close>

fun ProfileUpdater_Run ::
  "'a rt_scheme redis_get \<Rightarrow> 'a rt_scheme redis_set \<Rightarrow> ('a rt_scheme, unit) go \<Rightarrow> kafka_record list list
     \<Rightarrow> ('a rt_scheme, unit) go"
where
  "ProfileUpdater_Run rget rset commit [] = go_return ()"
| "ProfileUpdater_Run rget rset commit (batch # polls) =
     go_bind (ProfileUpdater_eachRecord rget rset batch) (\<lambda>_.
     go_bind (go_try commit) (\<lambda>_.
     ProfileUpdater_Run rget rset commit polls))"

end
