(* ===== verification/FraudCorrect.thy ===== *)
theory FraudCorrect
  imports FraudService WalletDomain
begin

text \<open>
  What the fraud service decides and what its profiles hold: the decision as arithmetic on integers,
  where it leaves the machine's, how profiles accumulate, and what of them the transaction service
  ever sees.
\<close>

section \<open>Redis\<close>

text \<open>
  \<open>K\<close> reads the server's keys out of the world: a value and when it expires. \<open>GET\<close> answers with the
  value of a key that has not expired; \<open>SET\<close> with a time to live stores both. A command may fail;
  then \<open>SET\<close> was or was not done.
\<close>

type_synonym keyspace = "string \<Rightarrow> (json option \<times> time) option"

definition live :: "time \<Rightarrow> (json option \<times> time) option \<Rightarrow> json option option" where
  "live now e = (case e of None \<Rightarrow> None | Some (v, expires) \<Rightarrow> if now < expires then Some v else None)"

definition redis_get_law :: "('a \<Rightarrow> keyspace) \<Rightarrow> 'a rt_scheme redis_get \<Rightarrow> bool" where
  "redis_get_law K rget \<longleftrightarrow>
     (\<forall>k s r s'. rget k s = (r, s') \<longrightarrow> env_step s s' \<and> rt.more s' = rt.more s
        \<and> ((\<exists>e. r = Inl e) \<or> r = Inr (live (rt_now s (rt_tick s)) (K (rt.more s) k))))"

definition redis_set_law :: "('a \<Rightarrow> keyspace) \<Rightarrow> 'a rt_scheme redis_set \<Rightarrow> bool" where
  "redis_set_law K rset \<longleftrightarrow>
     (\<forall>k v ttl s r s'. rset k v ttl s = (r, s') \<longrightarrow> env_step s s'
        \<and> (K (rt.more s') = K (rt.more s) \<and> r \<noteq> Inr ()
           \<or> K (rt.more s') = (K (rt.more s))(k \<mapsto> (Some v, rt_now s (rt_tick s) + ttl))))"

text \<open>The profile under a user's key, with its expiry, and the one that is in force.\<close>

definition decoded_entry :: "lib \<Rightarrow> (json option \<times> time) option \<Rightarrow> (UserProfile \<times> time) option" where
  "decoded_entry L entry =
     (case entry of
        None \<Rightarrow> None
      | Some (d, expires) \<Rightarrow>
          (case json_Unmarshal (UserProfile_field L) (zero_UserProfile uuid_Nil) d of
             (p, None) \<Rightarrow> Some (p, expires)
           | (p, Some e) \<Rightarrow> None))"

definition saved_profile :: "('a \<Rightarrow> keyspace) \<Rightarrow> 'a rt_scheme \<Rightarrow> uuid \<Rightarrow> (UserProfile \<times> time) option" where
  "saved_profile K s u = decoded_entry (rt_lib s) (K (rt.more s) (profileKey (rt_lib s) u))"

lemma profileKey_inj: "uuid_laws L \<Longrightarrow> profileKey L u = profileKey L v \<longleftrightarrow> u = v"
  by (metis profileKey_def same_append_eq sum.inject(2) uuid_lawsD)

lemma UserProfile_roundtrip:
  assumes "uuid_laws L" "time_laws L" "UserProfile_Marshal L p = Inr d"
  shows "json_Unmarshal (UserProfile_field L) z (Some d) = (p, None)"
proof -
  obtain t where t: "json_time L (up_UpdatedAt p) = Inr t"
    and d: "d = JObj [(''UserID'', json_uuid L (up_UserID p)),
          (''DailyTotalCents'', json_int64 (up_DailyTotalCents p)),
          (''TxCountLastMinute'', json_int64 (up_TxCountLastMinute p)), (''UpdatedAt'', t)]"
    using assms(3) by (auto simp: UserProfile_Marshal_def split: sum.splits)
  show ?thesis using assms(1)
    by (simp add: d jf_time_encoded [OF assms(2) t] UserProfile_field_def name_match_simps)
qed

lemma GetProfile_run:
  assumes law: "redis_get_law K rget" and run: "ProfileRepository_GetProfile rget u s = (r, s')"
  shows "env_step s s' \<and> rt.more s' = rt.more s
    \<and> (\<forall>p. r = Inr p \<longrightarrow> (\<exists>expires. saved_profile K s u = Some (p, expires) \<and> rt_now s (rt_tick s) < expires))"
proof -
  obtain q s1 where get: "rget (profileKey (rt_lib s) u) s = (q, s1)" by fastforce
  have eff: "env_step s s1" "rt.more s1 = rt.more s"
    "(\<exists>e. q = Inl e) \<or> q = Inr (live (rt_now s (rt_tick s)) (K (rt.more s) (profileKey (rt_lib s) u)))"
    using law get unfolding redis_get_law_def by blast+
  have s': "s' = s1" using run get
    by (auto simp: ProfileRepository_GetProfile_def go_simps go_unmarshal_def split: sum.splits option.splits prod.splits)
  have "\<exists>expires. saved_profile K s u = Some (p, expires) \<and> rt_now s (rt_tick s) < expires" if "r = Inr p" for p
    using run get eff(3) that
    by (auto simp: ProfileRepository_GetProfile_def go_simps go_unmarshal_def saved_profile_def decoded_entry_def
        live_def split: sum.splits option.splits prod.splits if_splits)
  then show ?thesis using eff(1,2) s' by simp
qed

text \<open>The profile a decision or an update starts from: nothing, or the saved one while it is live.\<close>

definition base_profile :: "('a \<Rightarrow> keyspace) \<Rightarrow> 'a rt_scheme \<Rightarrow> uuid \<Rightarrow> UserProfile \<Rightarrow> bool" where
  "base_profile K s u p \<longleftrightarrow>
     p = zero_UserProfile u
     \<or> (\<exists>expires. saved_profile K s u = Some (p, expires) \<and> rt_now s (rt_tick s) < expires)"

lemma profile_read:
  assumes "redis_get_law K rget" and "ProfileRepository_GetProfile rget u s = (r, s')"
  shows "env_step s s' \<and> rt.more s' = rt.more s
    \<and> base_profile K s u (case r of Inl err \<Rightarrow> zero_UserProfile u | Inr p \<Rightarrow> p)"
  using GetProfile_run [OF assms] by (auto simp: base_profile_def split: sum.splits)

section \<open>Decisions\<close>

definition fraud_spec :: "int \<Rightarrow> int \<Rightarrow> int \<Rightarrow> string" where
  "fraud_spec spent n amount =
     (if 10000000 < spent + amount \<or> 10 \<le> n then DecisionRejected
      else if 1000000 \<le> amount then DecisionReview
      else DecisionApproved)"

lemmas fraud_checks = FraudService_decide_def FraudService_checkDailyLimit_def FraudService_checkVelocity_def
  FraudService_checkLargeTransaction_def dailyLimitCents_def velocityMaxPerMin_def largeTransactionCents_def

lemma decide_spec:
  assumes "in_i64 (sint (up_DailyTotalCents p) + sint (eq_AmountCents req))"
  shows "er_Decision (FraudService_decide req p) =
    fraud_spec (sint (up_DailyTotalCents p)) (sint (up_TxCountLastMinute p)) (sint (eq_AmountCents req))"
  using sint_add_i64 [OF assms] by (simp add: fraud_checks fraud_spec_def)

lemma decide_id [simp]: "er_TransactionID (FraudService_decide req p) = eq_TransactionID req"
  by (simp add: fraud_checks)

lemma Evaluate_run:
  assumes "redis_get_law K rget" and "FraudService_Evaluate rget req s = (r, s')"
  shows "env_step s s' \<and> rt.more s' = rt.more s
    \<and> (\<exists>p. base_profile K s (eq_UserID req) p \<and> r = Inr (FraudService_decide req p))"
proof -
  obtain q s1 where get: "ProfileRepository_GetProfile rget (eq_UserID req) s = (q, s1)" by fastforce
  have "s' = s1" "r = Inr (FraudService_decide req (case q of Inl err \<Rightarrow> zero_UserProfile (eq_UserID req) | Inr p \<Rightarrow> p))"
    using assms(2) get by (simp_all add: FraudService_Evaluate_def go_simps Let_def)
  then show ?thesis using profile_read [OF assms(1) get] by blast
qed


text \<open>A Redis server that is never down, in memory.\<close>

definition sample_get :: "keyspace rt_scheme redis_get" where
  "sample_get k s = (Inr (live (rt_now s (rt_tick s)) (rt.more s k)), s\<lparr>rt_tick := Suc (rt_tick s)\<rparr>)"

definition sample_set :: "keyspace rt_scheme redis_set" where
  "sample_set k v ttl s =
     (Inr (), rt.more_update (\<lambda>m. m(k \<mapsto> (Some v, rt_now s (rt_tick s) + ttl))) (s\<lparr>rt_tick := Suc (rt_tick s)\<rparr>))"

definition sample_redis :: "keyspace rt_scheme" where
  "sample_redis = rt.extend sample_rt (\<lambda>_. None)"

lemma sample_redis_laws: "redis_get_law id sample_get" "redis_set_law id sample_set"
  by (auto simp: redis_get_law_def redis_set_law_def sample_get_def sample_set_def env_step_def)

lemma sample_redis_simps [simp]:
  "rt_lib sample_redis = sample_lib" "rt.more sample_redis = (\<lambda>_. None)" "rt_tick sample_redis = 0"
  by (simp_all add: sample_redis_def rt.defs sample_rt_def)

definition sample_evaluation :: "uuid \<Rightarrow> int \<Rightarrow> EvaluationRequest" where
  "sample_evaluation u amount =
     \<lparr>eq_TransactionID = 3, eq_UserID = u, eq_WalletID = 4, eq_AmountCents = word_of_int amount, eq_OccurredAt = 0\<rparr>"


text \<open>The daily limit wraps around: when the day's total and the amount together reach 2^63 the
  check lets the transaction through, and it is at most put up for review.\<close>

theorem daily_limit_wraps:
  assumes "2 ^ 63 \<le> sint (up_DailyTotalCents p) + sint (eq_AmountCents req)"
  shows "FraudService_checkDailyLimit req p = None
    \<and> (sint (up_TxCountLastMinute p) < 10 \<longrightarrow> er_Decision (FraudService_decide req p) \<noteq> DecisionRejected)"
proof -
  have "sint (up_DailyTotalCents p) < 2 ^ 63" "sint (eq_AmountCents req) < 2 ^ 63"
    using sint_in_i64 by (simp_all add: in_i64_def)
  then have "sint (up_DailyTotalCents p + eq_AmountCents req) < 0"
    using sint_add_wrap_i64 [OF assms] by simp
  then show ?thesis
    by (simp add: fraud_checks DecisionRejected_def DecisionReview_def DecisionApproved_def)
qed

theorem daily_limit_wraps_witness:
  "er_Decision (FraudService_decide (sample_evaluation 1 (2 ^ 63 - 1))
     ((zero_UserProfile 1)\<lparr>up_DailyTotalCents := 9000000\<rparr>)) \<noteq> DecisionRejected"
  using daily_limit_wraps [of "(zero_UserProfile 1)\<lparr>up_DailyTotalCents := 9000000\<rparr>" "sample_evaluation 1 (2 ^ 63 - 1)"]
  by (simp add: sample_evaluation_def zero_UserProfile_def sint_word_of_int_i64 in_i64_def)


section \<open>Keeping the profiles\<close>

definition counted :: "time \<Rightarrow> i64 \<Rightarrow> UserProfile \<Rightarrow> UserProfile" where
  "counted now amount p =
     p\<lparr>up_DailyTotalCents := up_DailyTotalCents p + amount,
       up_TxCountLastMinute := up_TxCountLastMinute p + 1, up_UpdatedAt := now\<rparr>"

lemma saved_after_set:
  assumes laws: "uuid_laws (rt_lib s)" "time_laws (rt_lib s)" and lib: "rt_lib s' = rt_lib s"
    and enc: "UserProfile_Marshal (rt_lib s) p = Inr d"
    and K: "K (rt.more s') = (K (rt.more s))(profileKey (rt_lib s) (up_UserID p) \<mapsto> (Some d, expires))"
  shows "saved_profile K s' = (saved_profile K s)(up_UserID p \<mapsto> (p, expires))"
proof
  fix v
  show "saved_profile K s' v = ((saved_profile K s)(up_UserID p \<mapsto> (p, expires))) v"
    using UserProfile_roundtrip [OF laws enc] profileKey_inj [OF laws(1)]
    by (cases "v = up_UserID p") (simp_all add: saved_profile_def lib K decoded_entry_def)
qed

lemma UpdateProfile_run:
  assumes law: "redis_set_law K rset" and laws: "uuid_laws (rt_lib s)" "time_laws (rt_lib s)"
    and run: "ProfileRepository_UpdateProfile rset p s = (r, s')"
  shows "env_step s s'
    \<and> (saved_profile K s' = saved_profile K s \<and> r \<noteq> Inr ()
       \<or> saved_profile K s' = (saved_profile K s)(up_UserID p \<mapsto> (p, rt_now s (rt_tick s) + profileTTL)))"
proof (cases "UserProfile_Marshal (rt_lib s) p")
  case (Inl e)
  then show ?thesis using run by (auto simp: ProfileRepository_UpdateProfile_def go_simps)
next
  case (Inr d)
  obtain q where set: "rset (profileKey (rt_lib s) (up_UserID p)) d profileTTL s = (q, s')"
    and r: "q = Inr () \<longleftrightarrow> r = Inr ()"
    using run Inr by (auto simp: ProfileRepository_UpdateProfile_def go_simps split: prod.splits sum.splits)
  have eff: "env_step s s'" "K (rt.more s') = K (rt.more s) \<and> q \<noteq> Inr ()
      \<or> K (rt.more s') = (K (rt.more s))(profileKey (rt_lib s) (up_UserID p) \<mapsto> (Some d, rt_now s (rt_tick s) + profileTTL))"
    using law set unfolding redis_set_law_def by blast+
  have L: "rt_lib s' = rt_lib s" using eff(1) by (rule env_step_lib)
  have "K (rt.more s') = K (rt.more s) \<Longrightarrow> saved_profile K s' = saved_profile K s"
    by (rule ext) (simp add: saved_profile_def L)
  then show ?thesis using eff r saved_after_set [OF laws L Inr, of K] by metis
qed

lemma update_run:
  assumes get: "redis_get_law K rget" and set: "redis_set_law K rset"
    and laws: "uuid_laws (rt_lib s)" "time_laws (rt_lib s)"
    and run: "ProfileUpdater_update rget rset payload s = (r, s')" and u: "pu_UserID payload \<noteq> uuid_Nil"
    and sane: "\<forall>p e. saved_profile K s (pu_UserID payload) = Some (p, e) \<longrightarrow> up_UserID p = pu_UserID payload"
  shows "r = Inr () \<and> env_step s s' \<and> (saved_profile K s' = saved_profile K s
    \<or> (\<exists>base now k. base_profile K s (pu_UserID payload) base \<and> rt_tick s \<le> k \<and> saved_profile K s' =
         (saved_profile K s)(pu_UserID payload \<mapsto> (counted now (pu_AmountCents payload) base, rt_now s k + profileTTL))))"
proof -
  let ?u = "pu_UserID payload"
  obtain q s1 where look: "ProfileRepository_GetProfile rget ?u s = (q, s1)" by fastforce
  define base where "base = (case q of Inl err \<Rightarrow> zero_UserProfile ?u | Inr p \<Rightarrow> p)"
  have s1: "env_step s s1" "rt.more s1 = rt.more s" "base_profile K s ?u base"
    using profile_read [OF get look] by (auto simp: base_def)
  have id: "up_UserID base = ?u" using s1(3) sane by (auto simp: base_profile_def zero_UserProfile_def)
  let ?now = "rt_now s1 (rt_tick s1)" and ?s2 = "s1\<lparr>rt_tick := Suc (rt_tick s1)\<rparr>"
  obtain q2 s3 where up: "ProfileRepository_UpdateProfile rset (counted ?now (pu_AmountCents payload) base) ?s2 = (q2, s3)"
    by fastforce
  have out: "r = Inr ()" "s' = s3"
    using run look up u by (simp_all add: ProfileUpdater_update_def time_Now_def go_simps Let_def base_def counted_def)
  have L: "rt_lib ?s2 = rt_lib s" using env_step_lib [OF s1(1)] by simp
  have same: "saved_profile K ?s2 = saved_profile K s"
    using env_step_lib [OF s1(1)] s1(2) by (intro ext) (simp add: saved_profile_def)
  have up': "env_step ?s2 s3" "saved_profile K s3 = saved_profile K s
      \<or> saved_profile K s3 = (saved_profile K s)(?u \<mapsto>
          (counted ?now (pu_AmountCents payload) base, rt_now ?s2 (rt_tick ?s2) + profileTTL))"
    using UpdateProfile_run [OF set _ _ up, unfolded L, OF laws] id unfolding same by (auto simp: counted_def)
  have "env_step s s3" using s1(1) up'(1) by (auto simp: env_step_def)
  moreover have "rt_now ?s2 = rt_now s" "rt_tick s \<le> rt_tick ?s2" using s1(1) by (auto simp: env_step_def)
  ultimately show ?thesis using up'(2) s1(3) out by metis
qed


definition sample_spent :: kafka_record where
  "sample_spent =
     \<lparr>kr_Topic = ''transactions'', kr_Key = '''',
      kr_Value = Some (JObj [(''user_id'', json_uuid sample_lib 1), (''amount_cents'', json_int64 12)]),
      kr_Headers = [(''event_type'', ''TransactionCompleted''), (''event_id'', uuid_String sample_lib 3)]\<rparr>"



section \<open>Ten a day\<close>

definition reliable :: "'a rt_scheme redis_get \<Rightarrow> 'a rt_scheme redis_set \<Rightarrow> bool" where
  "reliable rget rset \<longleftrightarrow> (\<forall>k s. \<exists>v s'. rget k s = (Inr v, s'))
     \<and> (\<forall>k v ttl s. \<exists>s'. rset k v ttl s = (Inr (), s'))"

text \<open>The whole run takes less than the 25 hours a profile lives.\<close>

definition within_ttl :: "time \<Rightarrow> 'a rt_scheme \<Rightarrow> bool" where
  "within_ttl t0 s \<longleftrightarrow> (\<forall>k. t0 \<le> rt_now s k \<and> rt_now s k < t0 + profileTTL \<and> year_in_range (rt_now s k))"

definition completes_for :: "lib \<Rightarrow> uuid \<Rightarrow> kafka_record \<Rightarrow> bool" where
  "completes_for L u r \<longleftrightarrow> headerValue (kr_Headers r) ''event_type'' = ''TransactionCompleted''
     \<and> (\<exists>p. json_Unmarshal (profileUpdatePayload_field L) zero_profileUpdatePayload (kr_Value r) = (p, None)
          \<and> pu_UserID p = u)"

definition counts :: "('a \<Rightarrow> keyspace) \<Rightarrow> time \<Rightarrow> uuid \<Rightarrow> nat \<Rightarrow> 'a rt_scheme \<Rightarrow> bool" where
  "counts K t0 u n s \<longleftrightarrow> n = 0 \<and> saved_profile K s u = None
     \<or> (\<exists>p e. saved_profile K s u = Some (p, e) \<and> t0 + profileTTL \<le> e
          \<and> up_TxCountLastMinute p = of_nat n \<and> up_UserID p = u)"

lemma read_counts:
  assumes get: "redis_get_law K rget" and ok: "reliable rget rset" and win: "within_ttl t0 s"
    and cnt: "counts K t0 u n s" and run: "ProfileRepository_GetProfile rget u s = (q, s1)"
    and base: "base = (case q of Inl err \<Rightarrow> zero_UserProfile u | Inr p \<Rightarrow> p)"
  shows "up_TxCountLastMinute base = of_nat n \<and> up_UserID base = u"
proof (cases q)
  case (Inr p)
  then obtain e where "saved_profile K s u = Some (p, e)" using GetProfile_run [OF get run] by auto
  then show ?thesis using cnt base Inr by (auto simp: counts_def)
next
  case (Inl err)
  obtain v s1' where v: "rget (profileKey (rt_lib s) u) s = (Inr v, s1')" using ok unfolding reliable_def by blast
  then have v': "v = live (rt_now s (rt_tick s)) (K (rt.more s) (profileKey (rt_lib s) u))"
    using get unfolding redis_get_law_def by fastforce
  have "saved_profile K s u = None"
  proof (rule ccontr)
    assume "saved_profile K s u \<noteq> None"
    then obtain p e where p: "saved_profile K s u = Some (p, e)" "t0 + profileTTL \<le> e"
      using cnt by (auto simp: counts_def)
    have "rt_now s (rt_tick s) < e" using win p(2) unfolding within_ttl_def by (meson less_le_trans)
    then show False
      using run Inl v p(1)
      by (auto simp: v' ProfileRepository_GetProfile_def go_simps go_unmarshal_def saved_profile_def
        decoded_entry_def live_def split: option.splits prod.splits)
  qed
  then show ?thesis using cnt base Inl by (auto simp: counts_def zero_UserProfile_def)
qed

lemma counts_step:
  assumes get: "redis_get_law K rget" and set: "redis_set_law K rset" and ok: "reliable rget rset"
    and laws: "uuid_laws (rt_lib s)" "time_laws (rt_lib s)" and win: "within_ttl t0 s"
    and u: "u \<noteq> uuid_Nil" and rec: "completes_for (rt_lib s) u rec" and cnt: "counts K t0 u n s"
    and run: "ProfileUpdater_handle rget rset rec s = (r, s')"
  shows "env_step s s' \<and> counts K t0 u (Suc n) s' \<and> r = Inr ()"
proof -
  obtain p where p: "json_Unmarshal (profileUpdatePayload_field (rt_lib s)) zero_profileUpdatePayload (kr_Value rec) = (p, None)"
    and pu: "pu_UserID p = u" and ty: "headerValue (kr_Headers rec) ''event_type'' = ''TransactionCompleted''"
    using rec unfolding completes_for_def by blast
  obtain q s1 where look: "ProfileRepository_GetProfile rget u s = (q, s1)" by fastforce
  define base where "base = (case q of Inl err \<Rightarrow> zero_UserProfile u | Inr p \<Rightarrow> p)"
  note b = read_counts [OF get ok win cnt look base_def]
  have s1: "env_step s s1" "rt.more s1 = rt.more s" using profile_read [OF get look] by auto
  let ?now = "rt_now s1 (rt_tick s1)" and ?s2 = "s1\<lparr>rt_tick := Suc (rt_tick s1)\<rparr>"
  let ?p = "counted ?now (pu_AmountCents p) base"
  have L: "rt_lib ?s2 = rt_lib s" and now: "rt_now ?s2 = rt_now s" using s1(1) by (simp_all add: env_step_def)
  obtain d where d: "UserProfile_Marshal (rt_lib ?s2) ?p = Inr d"
    using win now by (auto simp: UserProfile_Marshal_def json_time_def counted_def within_ttl_def split: if_splits)
  obtain s3 where "rset (profileKey (rt_lib ?s2) (up_UserID ?p)) d profileTTL ?s2 = (Inr (), s3)"
    using ok unfolding reliable_def by blast
  then have up: "ProfileRepository_UpdateProfile rset ?p ?s2 = (Inr (), s3)"
    using d by (simp add: ProfileRepository_UpdateProfile_def go_bind_gets)
  have out: "r = Inr ()" "s' = s3"
    using run look [folded pu] up u [folded pu] p ty
    by (simp_all add: ProfileUpdater_handle_def ProfileUpdater_update_def time_Now_def go_simps Let_def
        base_def [folded pu] counted_def)
  have "env_step ?s2 s3 \<and> saved_profile K s3 = (saved_profile K ?s2)(up_UserID ?p \<mapsto> (?p, rt_now ?s2 (rt_tick ?s2) + profileTTL))"
    using UpdateProfile_run [OF set _ _ up, unfolded L, OF laws] by simp
  moreover have "t0 + profileTTL \<le> rt_now ?s2 (rt_tick ?s2) + profileTTL"
    using win now unfolding within_ttl_def by simp
  ultimately have "counts K t0 u (Suc n) s3" "env_step ?s2 s3"
    using b by (auto simp: counts_def counted_def)
  moreover have "env_step s ?s2" using s1(1) by (auto simp: env_step_def)
  ultimately show ?thesis using out env_step_trans by blast
qed

lemma counts_run:
  assumes "redis_get_law K rget" and "redis_set_law K rset" and "reliable rget rset"
    and "uuid_laws (rt_lib s)" and "time_laws (rt_lib s)" and "within_ttl t0 s" and "u \<noteq> uuid_Nil"
    and "\<forall>r \<in> set recs. completes_for (rt_lib s) u r" and "counts K t0 u n s"
    and "ProfileUpdater_eachRecord rget rset recs s = (r, s')"
  shows "env_step s s' \<and> counts K t0 u (n + length recs) s'"
  using assms(4-6,8-10)
proof (induction recs arbitrary: s n)
  case Nil
  then show ?case by (simp add: go_return_def)
next
  case (Cons x xs)
  obtain q s1 where h: "ProfileUpdater_handle rget rset x s = (q, s1)" by fastforce
  have st: "env_step s s1" "counts K t0 u (Suc n) s1" "q = Inr ()"
    using counts_step [OF assms(1-3) Cons.prems(1-3) assms(7) _ Cons.prems(5) h] Cons.prems(4) by simp_all
  then have "ProfileUpdater_eachRecord rget rset xs s1 = (r, s')" using Cons.prems(6) h by (simp add: go_bind_def)
  from Cons.IH [OF _ _ _ _ st(2) this] st(1) Cons.prems(1-4) have "env_step s1 s' \<and> counts K t0 u (Suc n + length xs) s'"
    by (simp add: env_step_def within_ttl_def)
  then show ?case using st(1) env_step_trans by auto
qed

text \<open>The count of the last minute never goes down: ten completed transactions of a user, spread over up to
  25 hours, and every transaction of that user is rejected, whatever its amount and however long after
  the tenth, as long as the profile lives.\<close>

theorem velocity_counts_the_day:
  assumes "redis_get_law K rget" and "redis_set_law K rset" and "reliable rget rset"
    and "uuid_laws (rt_lib s)" and "time_laws (rt_lib s)" and "within_ttl t0 s" and "eq_UserID req \<noteq> uuid_Nil"
    and "\<forall>r \<in> set recs. completes_for (rt_lib s) (eq_UserID req) r" and "saved_profile K s (eq_UserID req) = None"
    and "10 \<le> length recs" and "int (length recs) < 2 ^ 63"
    and "ProfileUpdater_eachRecord rget rset recs s = (r, s1)"
    and "FraudService_Evaluate rget req s1 = (q, s2)"
  shows "\<exists>result. q = Inr result \<and> er_Decision result = DecisionRejected"
proof -
  have "counts K t0 (eq_UserID req) 0 s" using assms(9) by (simp add: counts_def)
  from counts_run [OF assms(1-8) this assms(12)]
  have run: "env_step s s1" "counts K t0 (eq_UserID req) (length recs) s1" by simp_all
  obtain v s1' where look: "ProfileRepository_GetProfile rget (eq_UserID req) s1 = (v, s1')" by fastforce
  define base where "base = (case v of Inl err \<Rightarrow> zero_UserProfile (eq_UserID req) | Inr p \<Rightarrow> p)"
  have "within_ttl t0 s1" using assms(6) run(1) by (simp add: env_step_def within_ttl_def)
  from read_counts [OF assms(1,3) this run(2) look base_def] assms(10,11)
  have "10 \<le> sint (up_TxCountLastMinute base)" by (simp add: sint_of_nat_i64)
  then have "er_Decision (FraudService_decide req base) = DecisionRejected" by (simp add: fraud_checks)
  moreover have "q = Inr (FraudService_decide req base)"
    using assms(13) look by (simp add: FraudService_Evaluate_def go_simps Let_def base_def)
  ultimately show ?thesis by blast
qed

text \<open>Two hours and twenty minutes between any two readings, all in one day.\<close>

definition sample_redis_day :: "keyspace rt_scheme" where
  "sample_redis_day = sample_redis\<lparr>rt_now := (\<lambda>k. min (int k) 9 * (140 * 60 * 10 ^ 9))\<rparr>"

theorem velocity_counts_the_day_witness:
  "let s1 = snd (ProfileUpdater_eachRecord sample_get sample_set (replicate 10 sample_spent) sample_redis_day) in
   \<exists>result. fst (FraudService_Evaluate sample_get (sample_evaluation 1 1) s1) = Inr result
     \<and> er_Decision result = DecisionRejected"
proof -
  have rel: "reliable sample_get sample_set" by (simp add: reliable_def sample_get_def sample_set_def)
  have env: "rt_lib sample_redis_day = sample_lib" "within_ttl 0 sample_redis_day"
    by (simp_all add: sample_redis_day_def within_ttl_def profileTTL_def year_in_range_def min_def)
  have rec: "\<forall>r \<in> set (replicate 10 sample_spent). completes_for sample_lib 1 r"
    by (simp add: completes_for_def sample_spent_def profileUpdatePayload_field_def name_match_simps)
  have none: "saved_profile id sample_redis_day 1 = None"
    by (simp add: saved_profile_def sample_redis_day_def decoded_entry_def)
  show ?thesis
    unfolding Let_def
    using velocity_counts_the_day [OF sample_redis_laws rel _ _ env(2) _ _ _ _ _ surjective_pairing surjective_pairing,
        of "sample_evaluation 1 1" "replicate 10 sample_spent"] env(1) rec none
    by (simp add: sample_evaluation_def)
qed


section \<open>What the transaction service sees of it\<close>

text \<open>The fraud service at work: records are consumed, requests are answered.\<close>

inductive fraud_step ::
  "(grpc_code \<Rightarrow> string \<Rightarrow> string) \<Rightarrow> 'a rt_scheme redis_get \<Rightarrow> 'a rt_scheme redis_set
     \<Rightarrow> 'a rt_scheme \<Rightarrow> 'a rt_scheme \<Rightarrow> bool"
  for st rget rset
where
  consumed: "ProfileUpdater_handle rget rset record s = (r, s') \<Longrightarrow> fraud_step st rget rset s s'"
| evaluated: "FraudServer_Evaluate st rget req s = (q, s') \<Longrightarrow> fraud_step st rget rset s s'"

lemma server_run:
  assumes get: "redis_get_law K rget" and run: "FraudServer_Evaluate st rget req s = (r, s')"
  shows "env_step s s' \<and> rt.more s' = rt.more s"
proof -
  have eval: "env_step t t' \<and> rt.more t' = rt.more t" if "FraudService_Evaluate rget e t = (q, t')" for e q t t'
    using Evaluate_run [OF get that] by blast
  have step: "env_step s t' \<and> rt.more t' = rt.more s"
    if "FraudService_Evaluate rget e (s\<lparr>rt_tick := Suc (rt_tick s)\<rparr>) = (q, t')" for e q t'
    using eval [OF that] by (auto simp: env_step_def)
  show ?thesis
    using run by (auto simp: FraudServer_Evaluate_def go_simps time_Now_def dest: step split: sum.splits prod.splits)
qed

text \<open>A profile is only ever written under the identifier it was read for, which is not nil, or under
  the identifier the saved document itself names.\<close>

definition sane_keys :: "('a \<Rightarrow> keyspace) \<Rightarrow> 'a rt_scheme \<Rightarrow> bool" where
  "sane_keys K s \<longleftrightarrow> (\<forall>u p e. saved_profile K s u = Some (p, e) \<longrightarrow> up_UserID p = u)"

definition fraud_inv :: "('a \<Rightarrow> keyspace) \<Rightarrow> 'a rt_scheme \<Rightarrow> bool" where
  "fraud_inv K s \<longleftrightarrow> sane_keys K s \<and> saved_profile K s uuid_Nil = None"

lemma fraud_step_inv:
  assumes get: "redis_get_law K rget" and set: "redis_set_law K rset"
    and laws: "uuid_laws (rt_lib s)" "time_laws (rt_lib s)"
    and step: "fraud_step st rget rset s s'" and inv: "fraud_inv K s"
  shows "env_step s s' \<and> fraud_inv K s'"
  using step
proof cases
  case (consumed rc r)
  let ?J = "json_Unmarshal (profileUpdatePayload_field (rt_lib s)) zero_profileUpdatePayload (kr_Value rc)"
  show ?thesis
  proof (cases "headerValue (kr_Headers rc) ''event_type'' = ''TransactionCompleted'' \<and> snd ?J = None
      \<and> pu_UserID (fst ?J) \<noteq> uuid_Nil")
    case True
    then have run: "ProfileUpdater_update rget rset (fst ?J) s = (r, s')"
      using consumed by (simp add: ProfileUpdater_handle_def go_bind_gets split: prod.splits option.splits)
    have "\<forall>p e. saved_profile K s (pu_UserID (fst ?J)) = Some (p, e) \<longrightarrow> up_UserID p = pu_UserID (fst ?J)"
      using inv unfolding fraud_inv_def sane_keys_def by blast
    from update_run [OF get set laws run _ this] True
    have up: "env_step s s'" "saved_profile K s' = saved_profile K s
      \<or> (\<exists>base now k. base_profile K s (pu_UserID (fst ?J)) base \<and> saved_profile K s' =
           (saved_profile K s)(pu_UserID (fst ?J) \<mapsto> (counted now (pu_AmountCents (fst ?J)) base, rt_now s k + profileTTL)))"
      by blast+
    have id: "up_UserID (counted now a base) = pu_UserID (fst ?J)"
      if "base_profile K s (pu_UserID (fst ?J)) base" for base now a
      using that inv by (auto simp: base_profile_def fraud_inv_def sane_keys_def zero_UserProfile_def counted_def)
    have "fraud_inv K s'" using up(2)
    proof
      assume "saved_profile K s' = saved_profile K s"
      then show ?thesis using inv by (simp add: fraud_inv_def sane_keys_def)
    next
      assume "\<exists>base now k. base_profile K s (pu_UserID (fst ?J)) base \<and> saved_profile K s' =
           (saved_profile K s)(pu_UserID (fst ?J) \<mapsto> (counted now (pu_AmountCents (fst ?J)) base, rt_now s k + profileTTL))"
      then obtain p e where "saved_profile K s' = (saved_profile K s)(pu_UserID (fst ?J) \<mapsto> (p, e))"
        and "up_UserID p = pu_UserID (fst ?J)" using id by metis
      then show ?thesis using inv True by (simp add: fraud_inv_def sane_keys_def)
    qed
    then show ?thesis using up(1) by blast
  next
    case False
    then have "s' = s" using consumed
      by (auto simp: ProfileUpdater_handle_def ProfileUpdater_update_def go_bind_gets go_return_def
        split: prod.splits option.splits if_splits)
    then show ?thesis using inv by simp
  qed
next
  case (evaluated req q)
  from server_run [OF get this] have "env_step s s'" "rt.more s' = rt.more s" by blast+
  moreover have "saved_profile K s' = saved_profile K s"
    using calculation by (intro ext) (simp add: saved_profile_def env_step_def)
  ultimately show ?thesis using inv by (simp add: fraud_inv_def sane_keys_def)
qed

text \<open>C36. The history of a user plays no part in a transfer: the transaction service asks about the nil
  user, and the updater skips it, so after any sequence of records and requests the check of a new
  transfer is a function of its amount: rejected above 10 million cents, otherwise let through, up
  for review or not.\<close>

theorem transfers_checked_by_amount_only:
  assumes "redis_get_law K rget" and "redis_set_law K rset"
    and "uuid_laws (rt_lib s)" and "time_laws (rt_lib s)" and "fraud_inv K s"
    and "(fraud_step st rget rset)\<^sup>*\<^sup>* s s1"
    and "TransactionService_fraudCheck (Some (FraudClient_Evaluate (FraudServer_Evaluate st rget))) t s1 = (r, s2)"
  shows "r = (if 10000000 < sint (tx_AmountCents t)
      then Inl (errors_New CodePermissionDenied ''transaction rejected by fraud check'') else Inr ())"
proof -
  have "env_step s s1 \<and> fraud_inv K s1"
    using assms(6)
  proof (induction rule: rtranclp_induct)
    case (step x y)
    then have "uuid_laws (rt_lib x)" "time_laws (rt_lib x)" using assms(3,4) by (simp_all add: env_step_def)
    from fraud_step_inv [OF assms(1,2) this step(2)] step(3) show ?case using env_step_trans by blast
  qed (use assms(5) in simp)
  then have L: "uuid_laws (rt_lib s1)" and nil: "saved_profile K s1 uuid_Nil = None"
    using assms(3) by (simp_all add: env_step_def fraud_inv_def)
  let ?req = "\<lambda>now. \<lparr>eq_TransactionID = tx_ID t, eq_UserID = uuid_Nil, eq_WalletID = tx_SourceWalletID t,
    eq_AmountCents = tx_AmountCents t, eq_OccurredAt = now\<rparr>"
  let ?now = "rt_now s1 (rt_tick s1)" and ?s = "s1\<lparr>rt_tick := Suc (rt_tick s1)\<rparr>"
  obtain q s3 where ev: "FraudService_Evaluate rget (?req ?now) ?s = (q, s3)" by fastforce
  have "saved_profile K ?s uuid_Nil = None" using nil by (simp add: saved_profile_def)
  then have q: "q = Inr (FraudService_decide (?req ?now) (zero_UserProfile uuid_Nil))"
    using Evaluate_run [OF assms(1) ev] by (auto simp: base_profile_def)
  have dec: "er_Decision (FraudService_decide (?req ?now) (zero_UserProfile uuid_Nil))
      = fraud_spec 0 0 (sint (tx_AmountCents t))"
    by (subst decide_spec) (simp_all add: zero_UserProfile_def)
  have "fst (FraudClient_Evaluate (FraudServer_Evaluate st rget) (tx_ID t) uuid_Nil (tx_SourceWalletID t)
      (tx_AmountCents t) s1) = Inr (fraud_spec 0 0 (sint (tx_AmountCents t)))"
    using L ev q dec
    by (simp add: FraudClient_Evaluate_def FraudServer_Evaluate_def go_simps time_Now_def toProtoDecision_def
        fraud_spec_def DecisionApproved_def DecisionRejected_def DecisionReview_def)
  then show ?thesis using assms(7)
    by (auto simp: TransactionService_fraudCheck_def go_simps fraud_spec_def DecisionApproved_def
        DecisionRejected_def DecisionReview_def split: prod.splits sum.splits if_splits)
qed

theorem transfers_checked_by_amount_only_witness:
  "fst (TransactionService_fraudCheck
     (Some (FraudClient_Evaluate (FraudServer_Evaluate (\<lambda>_ m. m) sample_get)))
     (sample_transfer\<lparr>tx_AmountCents := 9999999\<rparr>) sample_redis) = Inr ()"
proof -
  have inv: "fraud_inv id sample_redis"
    by (simp add: fraud_inv_def sane_keys_def saved_profile_def decoded_entry_def)
  from transfers_checked_by_amount_only [OF sample_redis_laws _ _ inv rtranclp.rtrancl_refl surjective_pairing]
  show ?thesis by simp
qed

end
