(* ===== verification/Notification.thy ===== *)
theory Notification
  imports Outbox
begin

text \<open>
  The notification service, \<open>services/notification\<close>: an event of the bus becomes one notification,
  handed to a sender. Here are \<open>internal/domain/notification.go\<close>,
  \<open>application/notification_service.go\<close>, the repository of processed events
  \<open>adapters/outbound/postgres/processed_repo.go\<close> and the sender that writes to the log,
  \<open>adapters/outbound/logger/sender.go\<close>.
\<close>

section \<open>Data and ports (domain/notification.go)\<close>

record Notification =
  no_ID :: uuid
  no_UserID :: uuid
  no_EventType :: string
  no_Payload :: "string \<Rightarrow> string option"
  no_SentAt :: time

type_synonym 's NotificationSender = "Notification \<Rightarrow> ('s, unit) go"

text \<open>A sender adds to what was sent, or fails; told nil, it was sent.\<close>

locale notification_sender =
  fixes send :: "'a rt_scheme NotificationSender"
    and sent :: "'a rt_scheme \<Rightarrow> Notification list"
    and rest :: "'a rt_scheme \<Rightarrow> 'r"
  assumes sent_tick [simp]: "sent (s\<lparr>rt_tick := k\<rparr>) = sent s"
    and rest_tick [simp]: "rest (s\<lparr>rt_tick := k\<rparr>) = rest s"
    and send_effect: "send n s = (r, s') \<Longrightarrow> env_step s s' \<and> rest s' = rest s
          \<and> (sent s' = sent s \<or> sent s' = sent s @ [n])"
    and send_ok: "send n s = (Inr u, s') \<Longrightarrow> sent s' = sent s @ [n]"

section \<open>The service (notification_service.go)\<close>

text \<open>
  \<open>var payload map[string]any\<close>: any object, a repeated key keeps its last value, \<open>null\<close> is the nil
  map. \<open>flattenPayload\<close> keeps strings and writes every other value as JSON again; that text, which
  depends on Go's float64 for numbers, is the parameter \<open>text\<close>.
\<close>

definition flattenPayload :: "(json \<Rightarrow> string) \<Rightarrow> (string \<times> json) list \<Rightarrow> string \<Rightarrow> string option" where
  "flattenPayload text m k =
     map_option (\<lambda>v. case v of JStr val \<Rightarrow> val | _ \<Rightarrow> text v) (map_of (rev m) k)"

definition unmarshal_map :: "json option \<Rightarrow> goerr + (string \<times> json) list" where
  "unmarshal_map data =
     (case data of
        None \<Rightarrow> Inl json_syntax_error
      | Some (JObj m) \<Rightarrow> Inr m
      | Some JNull \<Rightarrow> Inr []
      | Some _ \<Rightarrow> Inl json_type_error)"

text \<open>What is done once the event is known to be new.\<close>

definition NotificationService_notify ::
  "(json \<Rightarrow> string) \<Rightarrow> 'a rt_scheme NotificationSender \<Rightarrow> string \<Rightarrow> json option \<Rightarrow> ('a rt_scheme, unit) go"
where
  "NotificationService_notify text sender eventType data =
     (case unmarshal_map data of
        Inl err \<Rightarrow> go_throw err
      | Inr payload \<Rightarrow>
          go_bind uuid_New (\<lambda>i.
          go_bind time_Now (\<lambda>now.
          sender \<lparr>no_ID = i, no_UserID = uuid_Nil, no_EventType = eventType,
                  no_Payload = flattenPayload text payload, no_SentAt = now\<rparr>)))"

definition NotificationService_Handle ::
  "(json \<Rightarrow> string) \<Rightarrow> 'a rt_scheme ProcessedEventRepository \<Rightarrow> 'a rt_scheme NotificationSender
     \<Rightarrow> kafka_record \<Rightarrow> ('a rt_scheme, unit) go"
where
  "NotificationService_Handle text processed sender record =
     (let eventType = headerValue (kr_Headers record) ''event_type'';
          rawEventID = headerValue (kr_Headers record) ''event_id''
      in go_bind (go_gets rt_lib) (\<lambda>L.
         case uuid_Parse L rawEventID of
           Inl _ \<Rightarrow> go_return ()
         | Inr eventID \<Rightarrow>
             go_bind (IsProcessed processed eventID) (\<lambda>already.
             if already then go_return ()
             else
               go_bind (NotificationService_notify text sender eventType (kr_Value record)) (\<lambda>_.
               MarkProcessed processed eventID))))"

section \<open>Adapters\<close>

text \<open>The log is the list of the notifications that were written to it.\<close>

record notification_db = rt +
  notification_processed_events :: "uuid \<Rightarrow> time option"
  notification_log :: "Notification list"

definition NotificationProcessed_IsProcessed :: "uuid \<Rightarrow> ('a notification_db_scheme, bool) go" where
  "NotificationProcessed_IsProcessed eventID =
     go_wrap CodeInternal ''check processed event''
       (sql_query (\<lambda>s. notification_processed_events s eventID \<noteq> None))"

definition NotificationProcessed_MarkProcessed :: "uuid \<Rightarrow> ('a notification_db_scheme, unit) go" where
  "NotificationProcessed_MarkProcessed eventID =
     go_wrap CodeInternal ''mark processed''
       (sql_exec (\<lambda>s. Inr (s\<lparr>notification_processed_events :=
          mark_processed (sql_NOW s) eventID (notification_processed_events s)\<rparr>)))"

definition NotificationProcessed_postgres :: "'a notification_db_scheme ProcessedEventRepository" where
  "NotificationProcessed_postgres =
     \<lparr>IsProcessed = NotificationProcessed_IsProcessed, MarkProcessed = NotificationProcessed_MarkProcessed\<rparr>"

definition LogSender_Send :: "'a notification_db_scheme NotificationSender" where
  "LogSender_Send n s = (Inr (), s\<lparr>notification_log := notification_log s @ [n]\<rparr>)"

lemmas notification_processed_defs = NotificationProcessed_postgres_def
  NotificationProcessed_IsProcessed_def NotificationProcessed_MarkProcessed_def

interpretation notification_processed_pg: processed_table NotificationProcessed_postgres
  "\<lambda>s. processed_ids (notification_processed_events s)" "\<lambda>s. (notification_log s, notification_db.more s)"
proof (unfold_locales, unfold notification_processed_defs ProcessedEventRepository.simps)
qed (auto simp: env_step_def Let_def processed_ids_iff simp del: not_None_eq elim!: wrap_exec_effect
  dest!: sql_exec_ok sql_query_ok dest: wrap_query_effect)

interpretation log_sender: notification_sender LogSender_Send notification_log
  "\<lambda>s. (notification_processed_events s, notification_db.more s)"
  by unfold_locales (auto simp: LogSender_Send_def env_step_def)

section \<open>One notification per event\<close>

text \<open>The notification of an event, but for its identifier and time.\<close>

definition notifies :: "(json \<Rightarrow> string) \<Rightarrow> kafka_record \<Rightarrow> Notification \<Rightarrow> bool" where
  "notifies text record n \<longleftrightarrow>
     (\<exists>m. unmarshal_map (kr_Value record) = Inr m \<and> no_Payload n = flattenPayload text m)
     \<and> no_EventType n = headerValue (kr_Headers record) ''event_type'' \<and> no_UserID n = uuid_Nil"

locale notification_stores =
  p: processed_table pe seen prest +
  m: notification_sender send sent mrest
  for pe :: "'a rt_scheme ProcessedEventRepository" and seen :: "'a rt_scheme \<Rightarrow> uuid set"
    and prest :: "'a rt_scheme \<Rightarrow> 't"
    and send :: "'a rt_scheme NotificationSender" and sent :: "'a rt_scheme \<Rightarrow> Notification list"
    and mrest :: "'a rt_scheme \<Rightarrow> 'w" +
  assumes processed_frame: "prest t = prest s \<Longrightarrow> sent t = sent s"
    and sender_frame: "mrest t = mrest s \<Longrightarrow> seen t = seen s"

context notification_stores
begin

lemma notify_effect:
  assumes run: "NotificationService_notify text send (headerValue (kr_Headers rc) ''event_type'') (kr_Value rc) s = (r, t)"
  shows "seen t = seen s \<and> (sent t = sent s \<and> r \<noteq> Inr () \<or> (\<exists>n. notifies text rc n \<and> sent t = sent s @ [n]))"
proof (cases "unmarshal_map (kr_Value rc)")
  case (Inl e)
  then show ?thesis using run by (auto simp: NotificationService_notify_def go_throw_def)
next
  case (Inr m)
  let ?n = "\<lparr>no_ID = rt_uuid s (rt_tick s), no_UserID = uuid_Nil,
    no_EventType = headerValue (kr_Headers rc) ''event_type'', no_Payload = flattenPayload text m,
    no_SentAt = rt_now s (Suc (rt_tick s))\<rparr>"
  have "send ?n (s\<lparr>rt_tick := Suc (Suc (rt_tick s))\<rparr>) = (r, t)"
    using run Inr by (simp add: NotificationService_notify_def uuid_New_def time_Now_def go_simps)
  from m.send_effect [OF this] m.send_ok [of ?n "s\<lparr>rt_tick := Suc (Suc (rt_tick s))\<rparr>" "()" t] this
  have "mrest t = mrest s" "sent t = sent s \<and> r \<noteq> Inr () \<or> sent t = sent s @ [?n]" by auto
  moreover have "notifies text rc ?n" using Inr by (simp add: notifies_def)
  ultimately show ?thesis using sender_frame by blast
qed

lemma handle_effect:
  assumes id: "uuid_Parse (rt_lib s) (headerValue (kr_Headers rc) ''event_id'') = Inr i"
    and run: "NotificationService_Handle text pe send rc s = (r, t)"
  shows "if i \<in> seen s then sent t = sent s \<and> seen t = seen s
    else (sent t = sent s \<and> seen t = seen s \<and> r \<noteq> Inr ()
      \<or> (\<exists>n. notifies text rc n \<and> sent t = sent s @ [n]
           \<and> (seen t = seen s \<and> r \<noteq> Inr () \<or> seen t = insert i (seen s))))"
proof -
  have "go_bind (IsProcessed pe i) (\<lambda>already. if already then go_return ()
      else go_bind (NotificationService_notify text send (headerValue (kr_Headers rc) ''event_type'') (kr_Value rc))
        (\<lambda>_. MarkProcessed pe i)) s = (r, t)"
    using run unfolding NotificationService_Handle_def Let_def go_bind_gets id sum.case .
  then show ?thesis
  proof (cases rule: p.processed_guard)
    case duplicate
    then show ?thesis by (auto elim!: only_tickE)
  next
    case (unknown e)
    then show ?thesis by (auto elim!: only_tickE)
  next
    case (fresh s1)
    obtain q s2 where n: "NotificationService_notify text send (headerValue (kr_Headers rc) ''event_type'') (kr_Value rc) s1
        = (q, s2)" by fastforce
    have s1: "sent s1 = sent s" "seen s1 = seen s" using fresh(2) by (auto elim!: only_tickE)
    note eff = notify_effect [OF n]
    show ?thesis
    proof (cases q)
      case (Inl e)
      then have "r = Inl e" "t = s2" using fresh(3) n by (simp_all add: go_simps)
      then show ?thesis using eff s1 fresh(1) by auto
    next
      case (Inr u)
      then have mark: "MarkProcessed pe i s2 = (r, t)" using fresh(3) n by (simp add: go_simps)
      have "prest t = prest s2" "seen t = seen s2 \<or> seen t = insert i (seen s2)"
        using p.mark_effect [OF mark] by blast+
      moreover have "r = Inr () \<Longrightarrow> seen t = insert i (seen s2)" using p.mark_ok [of i s2 "()" t] mark by simp
      ultimately show ?thesis using eff Inr s1 fresh(1) processed_frame [of t s2] by auto
    qed
  qed
qed

end

interpretation notification_pg: notification_stores NotificationProcessed_postgres
  "\<lambda>s. processed_ids (notification_processed_events s)" "\<lambda>s. (notification_log s, notification_db.more s)"
  LogSender_Send notification_log "\<lambda>s. (notification_processed_events s, notification_db.more s)"
  by unfold_locales simp_all


definition sample_notification_db :: notification_db where
  "sample_notification_db = rt.extend sample_rt
     \<lparr>notification_processed_events = (\<lambda>_. None), notification_log = []\<rparr>"

definition sample_failed :: kafka_record where
  "sample_failed =
     \<lparr>kr_Topic = ''transactions'', kr_Key = '''', kr_Value = Some (JObj [(''reason'', JStr ''limit'')]),
      kr_Headers = [(''event_type'', ''TransactionFailed''), (''event_id'', uuid_String sample_lib 3)]\<rparr>"


end
