(* ===== verification/Identity.thy ===== *)
theory Identity
  imports Sql
begin

text \<open>
  The identity service's data and stores, \<open>services/identity/internal/domain\<close> and the PostgreSQL
  adapters \<open>adapters/outbound/postgres/user_repo.go\<close> and \<open>token_repo.go\<close> over the tables of its
  migration: users with a unique e-mail, refresh tokens that belong to a user.
\<close>

section \<open>Domain\<close>

record User =
  us_ID :: uuid
  us_Email :: string
  us_PasswordHash :: string
  us_FullName :: string
  us_CreatedAt :: time

definition NewUser :: "string \<Rightarrow> string \<Rightarrow> string \<Rightarrow> ('a rt_scheme, User) go" where
  "NewUser email passwordHash fullName =
     go_bind uuid_New (\<lambda>i.
     go_bind time_Now (\<lambda>now.
     go_return \<lparr>us_ID = i, us_Email = email, us_PasswordHash = passwordHash, us_FullName = fullName,
                us_CreatedAt = now\<rparr>))"

record RefreshToken =
  rk_ID :: uuid
  rk_UserID :: uuid
  rk_Token :: string
  rk_ExpiresAt :: time
  rk_CreatedAt :: time

definition NewRefreshToken :: "uuid \<Rightarrow> string \<Rightarrow> int \<Rightarrow> ('a rt_scheme, RefreshToken) go" where
  "NewRefreshToken userID token ttl =
     go_bind uuid_New (\<lambda>i.
     go_bind time_Now (\<lambda>now.
     go_bind time_Now (\<lambda>now2.
     go_return \<lparr>rk_ID = i, rk_UserID = userID, rk_Token = token, rk_ExpiresAt = now + ttl,
                rk_CreatedAt = now2\<rparr>)))"

definition RefreshToken_IsExpired :: "RefreshToken \<Rightarrow> ('a rt_scheme, bool) go" where
  "RefreshToken_IsExpired r = go_bind time_Now (\<lambda>now. go_return (rk_ExpiresAt r < now))"

record 's UserRepository =
  UserSave :: "User \<Rightarrow> ('s, unit) go"
  UserFindByEmail :: "string \<Rightarrow> ('s, User) go"
  UserFindByID :: "uuid \<Rightarrow> ('s, User) go"

record 's TokenRepository =
  TokenSave :: "RefreshToken \<Rightarrow> ('s, unit) go"
  TokenFindByToken :: "string \<Rightarrow> ('s, RefreshToken) go"
  TokenDelete :: "string \<Rightarrow> ('s, unit) go"

section \<open>Contracts\<close>

definition user_clash :: "User \<Rightarrow> User \<Rightarrow> bool" where
  "user_clash u v \<longleftrightarrow> us_ID u = us_ID v \<or> us_Email u = us_Email v"

definition token_clash :: "RefreshToken \<Rightarrow> RefreshToken \<Rightarrow> bool" where
  "token_clash u v \<longleftrightarrow> rk_ID u = rk_ID v \<or> rk_Token u = rk_Token v"

locale user_table =
  fixes ur :: "'a rt_scheme UserRepository"
    and users :: "'a rt_scheme \<Rightarrow> User list"
    and rest :: "'a rt_scheme \<Rightarrow> 'r"
  assumes users_tick [simp]: "users (s\<lparr>rt_tick := k\<rparr>) = users s"
    and rest_tick [simp]: "rest (s\<lparr>rt_tick := k\<rparr>) = rest s"
    and save_effect: "UserSave ur u s = (r, s') \<Longrightarrow> env_step s s' \<and> rest s' = rest s
          \<and> (users s' = users s \<or> (\<forall>v \<in> set (users s). \<not> user_clash v u) \<and> users s' = users s @ [u])"
    and save_ok: "UserSave ur u s = (Inr x, s') \<Longrightarrow>
          (\<forall>v \<in> set (users s). \<not> user_clash v u) \<and> users s' = users s @ [u]"
    and save_succeeds: "no_faults s \<Longrightarrow> \<forall>v \<in> set (users s). \<not> user_clash v u \<Longrightarrow> \<exists>s'. UserSave ur u s = (Inr (), s')"
    and email_effect: "UserFindByEmail ur e s = (q, s') \<Longrightarrow> only_tick s s'"
    and email_ok: "UserFindByEmail ur e s = (Inr u, s') \<Longrightarrow> find (\<lambda>u. us_Email u = e) (users s) = Some u"
    and email_succeeds: "no_faults s \<Longrightarrow> find (\<lambda>u. us_Email u = e) (users s) = Some u \<Longrightarrow>
          \<exists>s'. UserFindByEmail ur e s = (Inr u, s')"
    and id_effect: "UserFindByID ur i s = (q, s') \<Longrightarrow> only_tick s s'"
    and id_ok: "UserFindByID ur i s = (Inr u, s') \<Longrightarrow> find (\<lambda>u. us_ID u = i) (users s) = Some u"
    and id_succeeds: "no_faults s \<Longrightarrow> find (\<lambda>u. us_ID u = i) (users s) = Some u \<Longrightarrow>
          \<exists>s'. UserFindByID ur i s = (Inr u, s')"

locale token_table =
  fixes tr :: "'a rt_scheme TokenRepository"
    and tokens :: "'a rt_scheme \<Rightarrow> RefreshToken list"
    and owners :: "'a rt_scheme \<Rightarrow> uuid set" \<comment> \<open>whom a token may belong to\<close>
    and rest :: "'a rt_scheme \<Rightarrow> 'r"
  assumes tokens_tick [simp]: "tokens (s\<lparr>rt_tick := k\<rparr>) = tokens s"
    and rest_tick [simp]: "rest (s\<lparr>rt_tick := k\<rparr>) = rest s"
    and save_effect: "TokenSave tr t s = (r, s') \<Longrightarrow> env_step s s' \<and> rest s' = rest s
          \<and> (tokens s' = tokens s \<or> (\<forall>v \<in> set (tokens s). \<not> token_clash v t) \<and> tokens s' = tokens s @ [t])"
    and save_ok: "TokenSave tr t s = (Inr y, s') \<Longrightarrow>
          (\<forall>v \<in> set (tokens s). \<not> token_clash v t) \<and> rk_UserID t \<in> owners s \<and> tokens s' = tokens s @ [t]"
    and save_succeeds: "no_faults s \<Longrightarrow> \<forall>v \<in> set (tokens s). \<not> token_clash v t \<Longrightarrow> rk_UserID t \<in> owners s \<Longrightarrow>
          \<exists>s'. TokenSave tr t s = (Inr (), s')"
    and find_effect: "TokenFindByToken tr x s = (q, s') \<Longrightarrow> only_tick s s'"
    and find_ok: "TokenFindByToken tr x s = (Inr t, s') \<Longrightarrow> find (\<lambda>t. rk_Token t = x) (tokens s) = Some t"
    and find_succeeds: "no_faults s \<Longrightarrow> find (\<lambda>t. rk_Token t = x) (tokens s) = Some t \<Longrightarrow>
          \<exists>s'. TokenFindByToken tr x s = (Inr t, s')"
    and delete_effect: "TokenDelete tr x s = (r, s') \<Longrightarrow> env_step s s' \<and> rest s' = rest s
          \<and> (tokens s' = tokens s \<or> tokens s' = filter (\<lambda>t. rk_Token t \<noteq> x) (tokens s))"
    and delete_ok: "TokenDelete tr x s = (Inr y, s') \<Longrightarrow> tokens s' = filter (\<lambda>t. rk_Token t \<noteq> x) (tokens s)"
    and delete_succeeds: "no_faults s \<Longrightarrow> \<exists>s'. TokenDelete tr x s = (Inr (), s')"

section \<open>Tables and adapters\<close>

text \<open>The row structs have the fields of the domain structs in the same order.\<close>

type_synonym userRow = User
type_synonym tokenRow = RefreshToken

definition userRow_toDomain :: "userRow \<Rightarrow> User" where
  "userRow_toDomain r =
     \<lparr>us_ID = us_ID r, us_Email = us_Email r, us_PasswordHash = us_PasswordHash r, us_FullName = us_FullName r,
      us_CreatedAt = us_CreatedAt r\<rparr>"

definition tokenRow_toDomain :: "tokenRow \<Rightarrow> RefreshToken" where
  "tokenRow_toDomain r =
     \<lparr>rk_ID = rk_ID r, rk_UserID = rk_UserID r, rk_Token = rk_Token r, rk_ExpiresAt = rk_ExpiresAt r,
      rk_CreatedAt = rk_CreatedAt r\<rparr>"

lemma toDomain_id [simp]: "userRow_toDomain r = r" "tokenRow_toDomain t = t"
  by (simp_all add: userRow_toDomain_def tokenRow_toDomain_def)

record identity_db = rt +
  users :: "userRow list"
  refresh_tokens :: "tokenRow list"

definition insert_user :: "userRow \<Rightarrow> userRow list \<Rightarrow> goerr + userRow list" where
  "insert_user r rows =
     (if list_ex (\<lambda>u. us_ID u = us_ID r) rows then Inl (duplicate_key ''users_pkey'')
      else if list_ex (\<lambda>u. us_Email u = us_Email r) rows then Inl (duplicate_key ''users_email_key'')
      else Inr (rows @ [r]))"

text \<open>Primary key, unique token, and the reference to the user.\<close>

definition insert_token :: "userRow list \<Rightarrow> tokenRow \<Rightarrow> tokenRow list \<Rightarrow> goerr + tokenRow list" where
  "insert_token owners r rows =
     (if list_ex (\<lambda>u. rk_ID u = rk_ID r) rows then Inl (duplicate_key ''refresh_tokens_pkey'')
      else if list_ex (\<lambda>u. rk_Token u = rk_Token r) rows then Inl (duplicate_key ''refresh_tokens_token_key'')
      else if \<not> list_ex (\<lambda>u. us_ID u = rk_UserID r) owners
      then Inl (PlainError ''pq: insert violates foreign key constraint refresh_tokens_user_id_fkey'')
      else Inr (rows @ [r]))"

definition UserRepository_Save :: "User \<Rightarrow> ('a identity_db_scheme, unit) go" where
  "UserRepository_Save user =
     go_wrap CodeInternal ''save user''
       (sql_exec (\<lambda>s. case insert_user user (users s) of
          Inl e \<Rightarrow> Inl e
        | Inr rows \<Rightarrow> Inr (s\<lparr>users := rows\<rparr>)))"

definition UserRepository_FindByEmail :: "string \<Rightarrow> ('a identity_db_scheme, User) go" where
  "UserRepository_FindByEmail email =
     go_bind (go_wrap CodeInternal ''find user by email''
        (sql_query (\<lambda>s. find (\<lambda>u. us_Email u = email) (users s)))) (\<lambda>row.
     case row of
       None \<Rightarrow> go_throw (errors_New CodeNotFound ''user not found'')
     | Some r \<Rightarrow> go_return (userRow_toDomain r))"

definition UserRepository_FindByID :: "uuid \<Rightarrow> ('a identity_db_scheme, User) go" where
  "UserRepository_FindByID i =
     go_bind (go_wrap CodeInternal ''find user by id''
        (sql_query (\<lambda>s. find (\<lambda>u. us_ID u = i) (users s)))) (\<lambda>row.
     case row of
       None \<Rightarrow> go_throw (errors_New CodeNotFound ''user not found'')
     | Some r \<Rightarrow> go_return (userRow_toDomain r))"

definition TokenRepository_Save :: "RefreshToken \<Rightarrow> ('a identity_db_scheme, unit) go" where
  "TokenRepository_Save t =
     go_wrap CodeInternal ''save refresh token''
       (sql_exec (\<lambda>s. case insert_token (users s) t (refresh_tokens s) of
          Inl e \<Rightarrow> Inl e
        | Inr rows \<Rightarrow> Inr (s\<lparr>refresh_tokens := rows\<rparr>)))"

definition TokenRepository_FindByToken :: "string \<Rightarrow> ('a identity_db_scheme, RefreshToken) go" where
  "TokenRepository_FindByToken token =
     go_bind (go_wrap CodeInternal ''find refresh token''
        (sql_query (\<lambda>s. find (\<lambda>t. rk_Token t = token) (refresh_tokens s)))) (\<lambda>row.
     case row of
       None \<Rightarrow> go_throw (errors_New CodeNotFound ''token not found'')
     | Some r \<Rightarrow> go_return (tokenRow_toDomain r))"

definition TokenRepository_Delete :: "string \<Rightarrow> ('a identity_db_scheme, unit) go" where
  "TokenRepository_Delete token =
     go_wrap CodeInternal ''delete refresh token''
       (sql_exec (\<lambda>s. Inr (s\<lparr>refresh_tokens := filter (\<lambda>t. rk_Token t \<noteq> token) (refresh_tokens s)\<rparr>)))"

definition UserRepository_postgres :: "'a identity_db_scheme UserRepository" where
  "UserRepository_postgres =
     \<lparr>UserSave = UserRepository_Save, UserFindByEmail = UserRepository_FindByEmail,
      UserFindByID = UserRepository_FindByID\<rparr>"

definition TokenRepository_postgres :: "'a identity_db_scheme TokenRepository" where
  "TokenRepository_postgres =
     \<lparr>TokenSave = TokenRepository_Save, TokenFindByToken = TokenRepository_FindByToken,
      TokenDelete = TokenRepository_Delete\<rparr>"

lemmas user_repo_defs = UserRepository_postgres_def UserRepository_Save_def UserRepository_FindByEmail_def
  UserRepository_FindByID_def
lemmas token_repo_defs = TokenRepository_postgres_def TokenRepository_Save_def TokenRepository_FindByToken_def
  TokenRepository_Delete_def

lemma insert_user_cases:
  "insert_user u rows = Inr rows' \<longleftrightarrow> (\<forall>v \<in> set rows. \<not> user_clash v u) \<and> rows' = rows @ [u]"
  by (auto simp: insert_user_def user_clash_def list_ex_iff)

lemma insert_token_cases:
  "insert_token us t rows = Inr rows' \<longleftrightarrow>
     (\<forall>v \<in> set rows. \<not> token_clash v t) \<and> rk_UserID t \<in> us_ID ` set us \<and> rows' = rows @ [t]"
  by (auto simp: insert_token_def token_clash_def list_ex_iff intro: rev_image_eqI)

lemma insert_user_ok [simp]: "\<forall>v \<in> set rows. \<not> user_clash v u \<Longrightarrow> insert_user u rows = Inr (rows @ [u])"
  by (simp add: insert_user_cases)

lemma insert_token_ok [simp]:
  "\<forall>v \<in> set rows. \<not> token_clash v t \<Longrightarrow> rk_UserID t \<in> us_ID ` set us \<Longrightarrow>
     insert_token us t rows = Inr (rows @ [t])"
  by (simp add: insert_token_cases)

interpretation user_pg: user_table UserRepository_postgres users "\<lambda>s. (refresh_tokens s, identity_db.more s)"
proof (unfold_locales, unfold user_repo_defs UserRepository.simps)
qed (auto simp: env_step_def Let_def insert_user_cases elim!: wrap_exec_effect
  dest!: sql_exec_ok find_row_ok dest: find_row_effect intro: find_row_succeeds split: sum.splits)

interpretation token_pg: token_table TokenRepository_postgres refresh_tokens "\<lambda>s. us_ID ` set (users s)"
  "\<lambda>s. (users s, identity_db.more s)"
proof (unfold_locales, unfold token_repo_defs TokenRepository.simps)
qed (auto simp: env_step_def Let_def insert_token_cases elim!: wrap_exec_effect
  dest!: sql_exec_ok find_row_ok dest: find_row_effect intro: find_row_succeeds split: sum.splits)

end
