(* ===== verification/AuthService.thy ===== *)
theory AuthService
  imports Identity
begin

text \<open>
  The identity service, \<open>services/identity/internal/application/auth_service.go\<close>, and its two gRPC
  fronts \<open>adapters/inbound/grpc/server.go\<close>, which is registered, and \<open>handler.go\<close>. The libraries it
  stands on (bcrypt, JWT, the random source) are the fields of the record \<open>auth_lib\<close>.
\<close>

section \<open>What the service calls\<close>

datatype jwt_alg = HS256 | HS384 | HS512 | OtherAlg string

text \<open>\<open>jwt.RegisteredClaims\<close>, as far as it is set or read; dates are in seconds.\<close>

record claims =
  cl_Subject :: string
  cl_ExpiresAt :: "int option"
  cl_IssuedAt :: "int option"
  cl_Issuer :: string

text \<open>
  bcrypt's \<open>GenerateFromPassword\<close> at the default cost and \<open>CompareHashAndPassword\<close>, \<open>rand.Read\<close> of so
  many bytes, \<open>SignedString\<close>, and \<open>ParseWithClaims\<close>, given whether an expiry date is required
  (\<open>WithExpirationRequired\<close>), the time, the text and the key function; it answers with the claims and
  with \<open>token.Valid\<close>.
\<close>

record 's auth_lib =
  bcrypt_Generate :: "string \<Rightarrow> ('s, string) go"
  bcrypt_Compare :: "string \<Rightarrow> string \<Rightarrow> goerr option"
  rand_Read :: "nat \<Rightarrow> ('s, 8 word list) go"
  jwt_Sign :: "jwt_alg \<Rightarrow> claims \<Rightarrow> string \<Rightarrow> goerr + string"
  jwt_Parse :: "bool \<Rightarrow> time \<Rightarrow> string \<Rightarrow> (jwt_alg \<Rightarrow> goerr + string) \<Rightarrow> goerr + claims \<times> bool"

record Config =
  cfg_JWTSecret :: string
  cfg_AccessTokenTTL :: int
  cfg_RefreshTokenTTL :: int

text \<open>\<open>jwt.NewNumericDate\<close> drops the fraction of the second.\<close>

definition NewNumericDate :: "time \<Rightarrow> int" where "NewNumericDate t = t div 10 ^ 9"

definition hex_digit :: "nat \<Rightarrow> char" where
  "hex_digit n = (if n < 10 then char_of (48 + n) else char_of (87 + n))"

definition hex_EncodeToString :: "8 word list \<Rightarrow> string" where
  "hex_EncodeToString bs = concat (map (\<lambda>b. [hex_digit (unat b div 16), hex_digit (unat b mod 16)]) bs)"

text \<open>A method of a nil pointer: the goroutine panics, and the interceptor makes an error of it.\<close>

definition panic_nil :: goerr where
  "panic_nil = PlainError ''panic: runtime error: invalid memory address or nil pointer dereference''"

section \<open>Tokens\<close>

definition generateSecureToken :: "'s auth_lib \<Rightarrow> ('s, string) go" where
  "generateSecureToken A = go_bind (rand_Read A 32) (\<lambda>b. go_return (hex_EncodeToString b))"

definition AuthService_signAccessToken ::
  "'a rt_scheme auth_lib \<Rightarrow> Config \<Rightarrow> uuid \<Rightarrow> ('a rt_scheme, string \<times> time) go"
where
  "AuthService_signAccessToken A cfg userID =
     go_bind (go_gets rt_lib) (\<lambda>L.
     go_bind time_Now (\<lambda>now.
     let expiresAt = now + cfg_AccessTokenTTL cfg
     in go_bind time_Now (\<lambda>now2.
        case jwt_Sign A HS256
            \<lparr>cl_Subject = uuid_String L userID, cl_ExpiresAt = Some (NewNumericDate expiresAt),
             cl_IssuedAt = Some (NewNumericDate now2), cl_Issuer = ''fintech-identity''\<rparr> (cfg_JWTSecret cfg) of
          Inl err \<Rightarrow> go_throw (errors_Wrap CodeInternal ''sign token'' err)
        | Inr tok \<Rightarrow> go_return (tok, expiresAt))))"

definition alg_name :: "jwt_alg \<Rightarrow> string" where
  "alg_name a = (case a of HS256 \<Rightarrow> ''HS256'' | HS384 \<Rightarrow> ''HS384'' | HS512 \<Rightarrow> ''HS512'' | OtherAlg n \<Rightarrow> n)"

text \<open>The key function: only the HMAC methods get the secret.\<close>

definition AuthService_keyfunc :: "Config \<Rightarrow> jwt_alg \<Rightarrow> goerr + string" where
  "AuthService_keyfunc cfg alg =
     (case alg of
        OtherAlg n \<Rightarrow> Inl (PlainError (''unexpected signing method: '' @ alg_name alg))
      | _ \<Rightarrow> Inr (cfg_JWTSecret cfg))"

text \<open>\<open>return nil, err\<close> for a token that is not valid: with a nil error that is \<open>None\<close>.\<close>

definition AuthService_parseToken :: "'a rt_scheme auth_lib \<Rightarrow> Config \<Rightarrow> string \<Rightarrow> ('a rt_scheme, claims option) go" where
  "AuthService_parseToken A cfg raw =
     go_bind time_Now (\<lambda>now.
     case jwt_Parse A False now raw (AuthService_keyfunc cfg) of
       Inl err \<Rightarrow> go_throw err
     | Inr (claims, valid) \<Rightarrow> go_return (if valid then Some claims else None))"

section \<open>Operations\<close>

record RegisterResult =
  rg_UserID :: uuid
  rg_CreatedAt :: time

record LoginResult =
  lg_AccessToken :: string
  lg_RefreshToken :: string
  lg_ExpiresAt :: time

record RefreshResult =
  rf_AccessToken :: string
  rf_ExpiresAt :: time

record ValidateResult =
  vd_UserID :: uuid
  vd_Email :: string

definition AuthService_Register ::
  "'a rt_scheme auth_lib \<Rightarrow> 'a rt_scheme UserRepository \<Rightarrow> string \<Rightarrow> string \<Rightarrow> string \<Rightarrow> ('a rt_scheme, RegisterResult) go"
where
  "AuthService_Register A userRepo email password fullName =
     go_bind (go_try (UserFindByEmail userRepo email)) (\<lambda>existing.
     case existing of
       Inr _ \<Rightarrow> go_throw (errors_New CodeAlreadyExists ''email already registered'')
     | Inl _ \<Rightarrow>
         go_bind (go_wrap CodeInternal ''hash password'' (bcrypt_Generate A password)) (\<lambda>hash.
         go_bind (NewUser email hash fullName) (\<lambda>user.
         go_bind (UserSave userRepo user) (\<lambda>_.
         go_return \<lparr>rg_UserID = us_ID user, rg_CreatedAt = us_CreatedAt user\<rparr>))))"

definition AuthService_issueTokens ::
  "'a rt_scheme auth_lib \<Rightarrow> Config \<Rightarrow> 'a rt_scheme TokenRepository \<Rightarrow> uuid \<Rightarrow> ('a rt_scheme, LoginResult) go"
where
  "AuthService_issueTokens A cfg tokenRepo userID =
     go_bind (AuthService_signAccessToken A cfg userID) (\<lambda>(accessToken, expiresAt).
     go_bind (go_wrap CodeInternal ''generate refresh token'' (generateSecureToken A)) (\<lambda>rawRefresh.
     go_bind (NewRefreshToken userID rawRefresh (cfg_RefreshTokenTTL cfg)) (\<lambda>refresh.
     go_bind (TokenSave tokenRepo refresh) (\<lambda>_.
     go_return \<lparr>lg_AccessToken = accessToken, lg_RefreshToken = rawRefresh, lg_ExpiresAt = expiresAt\<rparr>))))"

definition AuthService_Login ::
  "'a rt_scheme auth_lib \<Rightarrow> Config \<Rightarrow> 'a rt_scheme UserRepository \<Rightarrow> 'a rt_scheme TokenRepository
     \<Rightarrow> string \<Rightarrow> string \<Rightarrow> ('a rt_scheme, LoginResult) go"
where
  "AuthService_Login A cfg userRepo tokenRepo email password =
     go_bind (go_try (UserFindByEmail userRepo email)) (\<lambda>found.
     case found of
       Inl _ \<Rightarrow> go_throw (errors_New CodeUnauthenticated ''invalid credentials'')
     | Inr user \<Rightarrow>
         (case bcrypt_Compare A (us_PasswordHash user) password of
            Some _ \<Rightarrow> go_throw (errors_New CodeUnauthenticated ''invalid credentials'')
          | None \<Rightarrow> AuthService_issueTokens A cfg tokenRepo (us_ID user)))"

definition AuthService_Refresh ::
  "'a rt_scheme auth_lib \<Rightarrow> Config \<Rightarrow> 'a rt_scheme TokenRepository \<Rightarrow> string \<Rightarrow> ('a rt_scheme, RefreshResult) go"
where
  "AuthService_Refresh A cfg tokenRepo rawToken =
     go_bind (go_try (TokenFindByToken tokenRepo rawToken)) (\<lambda>found.
     case found of
       Inl _ \<Rightarrow> go_throw (errors_New CodeUnauthenticated ''invalid refresh token'')
     | Inr stored \<Rightarrow>
         go_bind (RefreshToken_IsExpired stored) (\<lambda>expired.
         if expired then
           go_bind (go_try (TokenDelete tokenRepo rawToken)) (\<lambda>_.
           go_throw (errors_New CodeUnauthenticated ''refresh token expired''))
         else
           go_bind (AuthService_signAccessToken A cfg (rk_UserID stored)) (\<lambda>(accessToken, expiresAt).
           go_return \<lparr>rf_AccessToken = accessToken, rf_ExpiresAt = expiresAt\<rparr>)))"

definition AuthService_ValidateToken ::
  "'a rt_scheme auth_lib \<Rightarrow> Config \<Rightarrow> 'a rt_scheme UserRepository \<Rightarrow> string \<Rightarrow> ('a rt_scheme, ValidateResult) go"
where
  "AuthService_ValidateToken A cfg userRepo rawToken =
     go_bind (go_try (AuthService_parseToken A cfg rawToken)) (\<lambda>parsed.
     case parsed of
       Inl _ \<Rightarrow> go_throw (errors_New CodeUnauthenticated ''invalid token'')
     | Inr None \<Rightarrow> go_throw panic_nil
     | Inr (Some claims) \<Rightarrow>
         go_bind (go_gets rt_lib) (\<lambda>L.
         case uuid_Parse L (cl_Subject claims) of
           Inl _ \<Rightarrow> go_throw (errors_New CodeUnauthenticated ''invalid token subject'')
         | Inr userID \<Rightarrow>
             go_bind (go_try (UserFindByID userRepo userID)) (\<lambda>found.
             case found of
               Inl _ \<Rightarrow> go_throw (errors_New CodeUnauthenticated ''user not found'')
             | Inr user \<Rightarrow> go_return \<lparr>vd_UserID = userID, vd_Email = us_Email user\<rparr>)))"

definition AuthService_Logout :: "'a rt_scheme TokenRepository \<Rightarrow> string \<Rightarrow> ('a rt_scheme, unit) go" where
  "AuthService_Logout tokenRepo rawToken = TokenDelete tokenRepo rawToken"

section \<open>The gRPC server (server.go)\<close>

text \<open>The messages carry identifiers as text; a time is a protobuf timestamp, the same instant.\<close>

record RegisterResponse =
  rr_UserId :: string
  rr_CreatedAt :: time

record LoginResponse =
  lr_AccessToken :: string
  lr_RefreshToken :: string
  lr_ExpiresAt :: time

record RefreshTokenResponse =
  fr_AccessToken :: string
  fr_ExpiresAt :: time

record ValidateTokenResponse =
  vr_UserId :: string
  vr_Email :: string
  vr_Valid :: bool

text \<open>\<open>if err != nil { return nil, f(err) }\<close>\<close>

definition go_map_error :: "(goerr \<Rightarrow> goerr) \<Rightarrow> ('s, 'a) go \<Rightarrow> ('s, 'a) go" where
  "go_map_error f m s = (case m s of (Inl e, s') \<Rightarrow> (Inl (f e), s') | (Inr x, s') \<Rightarrow> (Inr x, s'))"

definition IdentityServer_Register ::
  "(grpc_code \<Rightarrow> string \<Rightarrow> string) \<Rightarrow> 'a rt_scheme auth_lib \<Rightarrow> 'a rt_scheme UserRepository
     \<Rightarrow> string \<Rightarrow> string \<Rightarrow> string \<Rightarrow> ('a rt_scheme, RegisterResponse) go"
where
  "IdentityServer_Register st A userRepo email password fullName =
     (if email = '''' \<or> password = ''''
      then go_throw (StatusError InvalidArgument ''email and password required'')
      else
        go_bind (go_map_error (\<lambda>err. StatusError Internal (error_Error st err))
          (AuthService_Register A userRepo email password fullName)) (\<lambda>result.
        go_bind (go_gets rt_lib) (\<lambda>L.
        go_return \<lparr>rr_UserId = uuid_String L (rg_UserID result), rr_CreatedAt = rg_CreatedAt result\<rparr>)))"

definition IdentityServer_Login ::
  "'a rt_scheme auth_lib \<Rightarrow> Config \<Rightarrow> 'a rt_scheme UserRepository \<Rightarrow> 'a rt_scheme TokenRepository
     \<Rightarrow> string \<Rightarrow> string \<Rightarrow> ('a rt_scheme, LoginResponse) go"
where
  "IdentityServer_Login A cfg userRepo tokenRepo email password =
     (if email = '''' \<or> password = ''''
      then go_throw (StatusError InvalidArgument ''email and password required'')
      else
        go_bind (go_map_error (\<lambda>_. StatusError Unauthenticated ''invalid credentials'')
          (AuthService_Login A cfg userRepo tokenRepo email password)) (\<lambda>result.
        go_return \<lparr>lr_AccessToken = lg_AccessToken result, lr_RefreshToken = lg_RefreshToken result,
                   lr_ExpiresAt = lg_ExpiresAt result\<rparr>))"

definition IdentityServer_RefreshToken ::
  "'a rt_scheme auth_lib \<Rightarrow> Config \<Rightarrow> 'a rt_scheme TokenRepository \<Rightarrow> string \<Rightarrow> ('a rt_scheme, RefreshTokenResponse) go"
where
  "IdentityServer_RefreshToken A cfg tokenRepo token =
     (if token = '''' then go_throw (StatusError InvalidArgument ''refresh token required'')
      else
        go_bind (go_map_error (\<lambda>_. StatusError Unauthenticated ''invalid refresh token'')
          (AuthService_Refresh A cfg tokenRepo token)) (\<lambda>result.
        go_return \<lparr>fr_AccessToken = rf_AccessToken result, fr_ExpiresAt = rf_ExpiresAt result\<rparr>))"

text \<open>A panic is not an error the server sees: it goes on to the interceptor.\<close>

definition IdentityServer_ValidateToken ::
  "'a rt_scheme auth_lib \<Rightarrow> Config \<Rightarrow> 'a rt_scheme UserRepository \<Rightarrow> string \<Rightarrow> ('a rt_scheme, ValidateTokenResponse) go"
where
  "IdentityServer_ValidateToken A cfg userRepo token =
     go_bind (go_try (AuthService_ValidateToken A cfg userRepo token)) (\<lambda>res.
     case res of
       Inl err \<Rightarrow> if err = panic_nil then go_throw err
         else go_return \<lparr>vr_UserId = '''', vr_Email = '''', vr_Valid = False\<rparr>
     | Inr result \<Rightarrow>
         go_bind (go_gets rt_lib) (\<lambda>L.
         go_return \<lparr>vr_UserId = uuid_String L (vd_UserID result), vr_Email = vd_Email result, vr_Valid = True\<rparr>))"

definition IdentityServer_Logout ::
  "(grpc_code \<Rightarrow> string \<Rightarrow> string) \<Rightarrow> 'a rt_scheme TokenRepository \<Rightarrow> string \<Rightarrow> ('a rt_scheme, bool) go"
where
  "IdentityServer_Logout st tokenRepo token =
     go_bind (go_map_error (\<lambda>err. StatusError Internal (error_Error st err)) (AuthService_Logout tokenRepo token))
       (\<lambda>_. go_return True)"

section \<open>The other front (handler.go)\<close>

definition to_grpc_error :: "(grpc_code \<Rightarrow> string \<Rightarrow> string) \<Rightarrow> goerr \<Rightarrow> goerr" where
  "to_grpc_error st err = the (ToGRPC st (Some err))"

definition Handler_Register ::
  "(grpc_code \<Rightarrow> string \<Rightarrow> string) \<Rightarrow> 'a rt_scheme auth_lib \<Rightarrow> 'a rt_scheme UserRepository
     \<Rightarrow> string \<Rightarrow> string \<Rightarrow> string \<Rightarrow> ('a rt_scheme, RegisterResponse) go"
where
  "Handler_Register st A userRepo email password fullName =
     (if email = '''' \<or> password = ''''
      then go_throw (to_grpc_error st (errors_New CodeInvalidArgument ''email and password required''))
      else
        go_bind (go_map_error (to_grpc_error st) (AuthService_Register A userRepo email password fullName)) (\<lambda>result.
        go_bind (go_gets rt_lib) (\<lambda>L.
        go_return \<lparr>rr_UserId = uuid_String L (rg_UserID result), rr_CreatedAt = rg_CreatedAt result\<rparr>)))"

definition Handler_Login ::
  "(grpc_code \<Rightarrow> string \<Rightarrow> string) \<Rightarrow> 'a rt_scheme auth_lib \<Rightarrow> Config \<Rightarrow> 'a rt_scheme UserRepository
     \<Rightarrow> 'a rt_scheme TokenRepository \<Rightarrow> string \<Rightarrow> string \<Rightarrow> ('a rt_scheme, LoginResponse) go"
where
  "Handler_Login st A cfg userRepo tokenRepo email password =
     (if email = '''' \<or> password = ''''
      then go_throw (to_grpc_error st (errors_New CodeInvalidArgument ''email and password required''))
      else
        go_bind (go_map_error (to_grpc_error st) (AuthService_Login A cfg userRepo tokenRepo email password)) (\<lambda>result.
        go_return \<lparr>lr_AccessToken = lg_AccessToken result, lr_RefreshToken = lg_RefreshToken result,
                   lr_ExpiresAt = lg_ExpiresAt result\<rparr>))"

definition Handler_RefreshToken ::
  "(grpc_code \<Rightarrow> string \<Rightarrow> string) \<Rightarrow> 'a rt_scheme auth_lib \<Rightarrow> Config \<Rightarrow> 'a rt_scheme TokenRepository
     \<Rightarrow> string \<Rightarrow> ('a rt_scheme, RefreshTokenResponse) go"
where
  "Handler_RefreshToken st A cfg tokenRepo token =
     (if token = '''' then go_throw (to_grpc_error st (errors_New CodeInvalidArgument ''refresh token required''))
      else
        go_bind (go_map_error (to_grpc_error st) (AuthService_Refresh A cfg tokenRepo token)) (\<lambda>result.
        go_return \<lparr>fr_AccessToken = rf_AccessToken result, fr_ExpiresAt = rf_ExpiresAt result\<rparr>))"

definition Handler_ValidateToken ::
  "'a rt_scheme auth_lib \<Rightarrow> Config \<Rightarrow> 'a rt_scheme UserRepository \<Rightarrow> string \<Rightarrow> ('a rt_scheme, ValidateTokenResponse) go"
where
  "Handler_ValidateToken = IdentityServer_ValidateToken"

definition Handler_Logout ::
  "(grpc_code \<Rightarrow> string \<Rightarrow> string) \<Rightarrow> 'a rt_scheme TokenRepository \<Rightarrow> string \<Rightarrow> ('a rt_scheme, unit) go"
where
  "Handler_Logout st tokenRepo token = go_map_error (to_grpc_error st) (AuthService_Logout tokenRepo token)"

end
