(* ===== verification/AuthCorrect.thy ===== *)
theory AuthCorrect
  imports AuthService
begin

text \<open>
  What the identity service promises, for any stores that keep the contracts of \<open>Identity\<close>, and then
  for the PostgreSQL adapters: registrations keep e-mails distinct, an access token stands for its
  user until it expires, a registered user signs in, a refresh token works while it is stored and not
  expired. The libraries enter by their documented behaviour, the laws of the first section.
\<close>

section \<open>Laws of the libraries\<close>

definition claims_ok :: "lib \<Rightarrow> claims \<Rightarrow> bool" where
  "claims_ok L c \<longleftrightarrow> cl_Subject c \<in> range (uuid_String L)
     \<and> (\<forall>d. cl_ExpiresAt c = Some d \<or> cl_IssuedAt c = Some d \<longrightarrow> year_in_range (d * 10 ^ 9))"

definition live_at :: "time \<Rightarrow> claims \<Rightarrow> bool" where
  "live_at now c \<longleftrightarrow> (case cl_ExpiresAt c of None \<Rightarrow> True | Some e \<Rightarrow> now < e * 10 ^ 9)"

text \<open>
  Signing a token with HMAC does not fail; parsing it with the key that signed it gives its claims
  back, until the expiry date; and a token that parses is valid, for a method the key function has a
  key for, not expired, and with an expiry date where one is required.
\<close>

definition jwt_laws :: "lib \<Rightarrow> 's auth_lib \<Rightarrow> bool" where
  "jwt_laws L A \<longleftrightarrow>
     (\<forall>c key. \<exists>tok. jwt_Sign A HS256 c key = Inr tok)
     \<and> (\<forall>c key tok kf now must_expire.
          jwt_Sign A HS256 c key = Inr tok \<longrightarrow> claims_ok L c \<longrightarrow> kf HS256 = Inr key \<longrightarrow> live_at now c
          \<longrightarrow> cl_ExpiresAt c \<noteq> None \<longrightarrow> jwt_Parse A must_expire now tok kf = Inr (c, True))
     \<and> (\<forall>c key tok kf now must_expire.
          jwt_Sign A HS256 c key = Inr tok \<longrightarrow> claims_ok L c \<longrightarrow> kf HS256 \<noteq> Inr key \<or> \<not> live_at now c
          \<longrightarrow> (\<exists>e. jwt_Parse A must_expire now tok kf = Inl e))
     \<and> (\<forall>now raw kf must_expire c v. jwt_Parse A must_expire now raw kf = Inr (c, v) \<longrightarrow>
          v \<and> (\<exists>alg key. kf alg = Inr key) \<and> live_at now c \<and> (must_expire \<longrightarrow> cl_ExpiresAt c \<noteq> None))"

lemma jwt_signs: "jwt_laws L A \<Longrightarrow> \<exists>tok. jwt_Sign A HS256 c key = Inr tok"
  by (simp add: jwt_laws_def)

lemma jwt_accepts:
  "jwt_laws L A \<Longrightarrow> jwt_Sign A HS256 c key = Inr tok \<Longrightarrow> claims_ok L c \<Longrightarrow> kf HS256 = Inr key \<Longrightarrow> live_at now c
     \<Longrightarrow> cl_ExpiresAt c \<noteq> None \<Longrightarrow> jwt_Parse A must_expire now tok kf = Inr (c, True)"
  unfolding jwt_laws_def by blast

lemma jwt_rejects:
  "jwt_laws L A \<Longrightarrow> jwt_Sign A HS256 c key = Inr tok \<Longrightarrow> claims_ok L c \<Longrightarrow> kf HS256 \<noteq> Inr key \<or> \<not> live_at now c
     \<Longrightarrow> \<exists>e. jwt_Parse A must_expire now tok kf = Inl e"
  unfolding jwt_laws_def by blast

lemma jwt_sound:
  "jwt_laws L A \<Longrightarrow> jwt_Parse A must_expire now raw kf = Inr (c, v) \<Longrightarrow>
     v \<and> live_at now c \<and> (must_expire \<longrightarrow> cl_ExpiresAt c \<noteq> None)"
  unfolding jwt_laws_def by blast

text \<open>
  A hash compares with the password it was made of; passwords up to 72 bytes can be hashed. Neither
  bcrypt nor the random source touches the stores.
\<close>

definition bcrypt_laws :: "'a rt_scheme auth_lib \<Rightarrow> bool" where
  "bcrypt_laws A \<longleftrightarrow>
     (\<forall>pw s r s'. bcrypt_Generate A pw s = (r, s') \<longrightarrow>
        only_tick s s' \<and> (\<forall>h. r = Inr h \<longrightarrow> bcrypt_Compare A h pw = None))
     \<and> (\<forall>pw s. length pw \<le> 72 \<longrightarrow> (\<exists>h s'. bcrypt_Generate A pw s = (Inr h, s')))"

lemma bcrypt_effect: "bcrypt_laws A \<Longrightarrow> bcrypt_Generate A pw s = (r, s') \<Longrightarrow> only_tick s s'"
  and bcrypt_compares: "bcrypt_laws A \<Longrightarrow> bcrypt_Generate A pw s = (Inr h, s') \<Longrightarrow> bcrypt_Compare A h pw = None"
  and bcrypt_hashes: "bcrypt_laws A \<Longrightarrow> length pw \<le> 72 \<Longrightarrow> \<exists>h s'. bcrypt_Generate A pw s = (Inr h, s')"
  unfolding bcrypt_laws_def by blast+

definition rand_laws :: "'a rt_scheme auth_lib \<Rightarrow> bool" where
  "rand_laws A \<longleftrightarrow> (\<forall>n s r s'. rand_Read A n s = (r, s') \<longrightarrow> only_tick s s' \<and> (\<forall>b. r = Inr b \<longrightarrow> length b = n))"

text \<open>The source draws bytes whose text is none of \<open>old\<close>.\<close>

definition rand_fresh :: "'a rt_scheme auth_lib \<Rightarrow> string set \<Rightarrow> bool" where
  "rand_fresh A old \<longleftrightarrow> (\<forall>s. \<exists>b s'. rand_Read A 32 s = (Inr b, s') \<and> hex_EncodeToString b \<notin> old)"

lemma rand_effect: "rand_laws A \<Longrightarrow> rand_Read A n s = (r, s') \<Longrightarrow> only_tick s s'"
  unfolding rand_laws_def by blast

section \<open>Tokens\<close>

text \<open>A refresh token is the hexadecimal text of its bytes, which determines them.\<close>

lemma hex_digit_inj: "m < 16 \<Longrightarrow> n < 16 \<Longrightarrow> hex_digit m = hex_digit n \<Longrightarrow> m = n"
  unfolding hex_digit_def
  by (auto split: if_splits dest!: arg_cong [of "char_of _ :: char" _ of_char] simp: take_bit_eq_mod)

lemma hex_length: "length (hex_EncodeToString bs) = 2 * length bs"
  by (induction bs) (simp_all add: hex_EncodeToString_def)

lemma hex_byte_inj:
  fixes a b :: "8 word"
  assumes "unat a div 16 = unat b div 16" "unat a mod 16 = unat b mod 16"
  shows "a = b"
proof -
  have "unat a = unat b" using assms div_mult_mod_eq by metis
  then show ?thesis by (simp add: word_unat_eq_iff)
qed

lemma hex_inj: "hex_EncodeToString as = hex_EncodeToString bs \<Longrightarrow> as = bs"
proof (induction as arbitrary: bs)
  case Nil
  then show ?case using hex_length [of bs] by (simp add: hex_EncodeToString_def)
next
  case (Cons a as)
  then obtain b bs' where bs: "bs = b # bs'" by (cases bs) (simp_all add: hex_EncodeToString_def)
  have small: "unat x div 16 < 16" for x :: "8 word"
  proof -
    have "unat x < 2 ^ LENGTH(8)" by (rule unsigned_less)
    then show ?thesis by simp
  qed
  from Cons.prems bs have "hex_digit (unat a div 16) = hex_digit (unat b div 16)"
    "hex_digit (unat a mod 16) = hex_digit (unat b mod 16)" "hex_EncodeToString as = hex_EncodeToString bs'"
    by (simp_all add: hex_EncodeToString_def)
  then show ?case using Cons.IH [of bs'] bs small by (simp add: hex_digit_inj hex_byte_inj)
qed

text \<open>\<open>tok\<close> is an access token for the user \<open>u\<close>, good until \<open>expiresAt\<close>.\<close>

definition access_token :: "lib \<Rightarrow> 's auth_lib \<Rightarrow> Config \<Rightarrow> uuid \<Rightarrow> time \<Rightarrow> time \<Rightarrow> string \<Rightarrow> bool" where
  "access_token L A cfg u issued expiresAt tok \<longleftrightarrow>
     jwt_Sign A HS256
       \<lparr>cl_Subject = uuid_String L u, cl_ExpiresAt = Some (NewNumericDate expiresAt),
        cl_IssuedAt = Some (NewNumericDate issued), cl_Issuer = ''fintech-identity''\<rparr> (cfg_JWTSecret cfg) = Inr tok"

lemma sign_effect:
  assumes "AuthService_signAccessToken A cfg u s = (r, t)"
  shows "only_tick s t
    \<and> (\<forall>tok e. r = Inr (tok, e) \<longrightarrow> e = rt_now s (rt_tick s) + cfg_AccessTokenTTL cfg
         \<and> access_token (rt_lib s) A cfg u (rt_now s (Suc (rt_tick s))) e tok)
    \<and> (\<forall>err. r = Inl err \<longrightarrow> (\<exists>m. err = errors_Wrap CodeInternal ''sign token'' m))"
  using assms
  by (auto simp: AuthService_signAccessToken_def go_simps time_Now_def Let_def access_token_def
      split: sum.splits)

lemma sign_succeeds:
  assumes "jwt_laws L A"
  shows "\<exists>tok t. AuthService_signAccessToken A cfg u s = (Inr (tok, rt_now s (rt_tick s) + cfg_AccessTokenTTL cfg), t)"
proof -
  obtain tok where "jwt_Sign A HS256
       \<lparr>cl_Subject = uuid_String (rt_lib s) u,
        cl_ExpiresAt = Some (NewNumericDate (rt_now s (rt_tick s) + cfg_AccessTokenTTL cfg)),
        cl_IssuedAt = Some (NewNumericDate (rt_now s (Suc (rt_tick s)))), cl_Issuer = ''fintech-identity''\<rparr>
       (cfg_JWTSecret cfg) = Inr tok"
    using jwt_signs [OF assms] by blast
  then show ?thesis by (auto simp: AuthService_signAccessToken_def go_simps time_Now_def Let_def)
qed


section \<open>The operations over any stores\<close>

definition clock_ok :: "'a rt_scheme \<Rightarrow> bool" where
  "clock_ok s \<longleftrightarrow> (\<forall>k. year_in_range (rt_now s k))"

lemma year_in_range_seconds: "year_in_range d \<Longrightarrow> year_in_range (NewNumericDate d * 10 ^ 9)"
  unfolding year_in_range_def NewNumericDate_def by simp linarith

lemma access_token_claims:
  assumes "access_token L A cfg u issued e tok"
  obtains c where "jwt_Sign A HS256 c (cfg_JWTSecret cfg) = Inr tok" "cl_Subject c = uuid_String L u"
    "cl_ExpiresAt c = Some (NewNumericDate e)" "cl_IssuedAt c = Some (NewNumericDate issued)"
  using assms unfolding access_token_def by (auto intro: that)

lemma keyfunc_HS256 [simp]: "AuthService_keyfunc cfg HS256 = Inr (cfg_JWTSecret cfg)"
  by (simp add: AuthService_keyfunc_def)

lemma access_token_parses:
  assumes "jwt_laws L A" "access_token L A cfg u issued e tok" "year_in_range issued" "year_in_range e"
    and "kf HS256 = Inr (cfg_JWTSecret cfg)"
  shows "if now < NewNumericDate e * 10 ^ 9
    then \<exists>c. jwt_Parse A must_expire now tok kf = Inr (c, True) \<and> cl_Subject c = uuid_String L u
    else \<exists>err. jwt_Parse A must_expire now tok kf = Inl err"
proof -
  obtain c where sign: "jwt_Sign A HS256 c (cfg_JWTSecret cfg) = Inr tok" and c: "cl_Subject c = uuid_String L u"
    "cl_ExpiresAt c = Some (NewNumericDate e)" "cl_IssuedAt c = Some (NewNumericDate issued)"
    using assms(2) by (rule access_token_claims)
  have ok: "claims_ok L c"
    using c assms(3,4) year_in_range_seconds [of e] year_in_range_seconds [of issued] by (auto simp: claims_ok_def)
  have live: "live_at now c \<longleftrightarrow> now < NewNumericDate e * 10 ^ 9" using c by (simp add: live_at_def)
  show ?thesis
    using jwt_accepts [OF assms(1) sign ok, of kf now must_expire] jwt_rejects [OF assms(1) sign ok, of kf now must_expire]
      live c assms(5) by auto
qed

text \<open>The user a registration makes.\<close>

definition new_user :: "'s auth_lib \<Rightarrow> string \<Rightarrow> string \<Rightarrow> string \<Rightarrow> User \<Rightarrow> bool" where
  "new_user A email password fullName u \<longleftrightarrow>
     us_Email u = email \<and> us_FullName u = fullName \<and> bcrypt_Compare A (us_PasswordHash u) password = None"

text \<open>The session a sign-in opens: a signed access token and a stored refresh token.\<close>

definition session_opened ::
  "'a rt_scheme auth_lib \<Rightarrow> Config \<Rightarrow> uuid \<Rightarrow> LoginResult \<Rightarrow> 'a rt_scheme \<Rightarrow> RefreshToken list \<Rightarrow> RefreshToken list \<Rightarrow> bool"
where
  "session_opened A cfg i lg s old new \<longleftrightarrow>
     (\<exists>j k. lg_ExpiresAt lg = rt_now s j + cfg_AccessTokenTTL cfg
        \<and> access_token (rt_lib s) A cfg i (rt_now s k) (lg_ExpiresAt lg) (lg_AccessToken lg))
     \<and> (\<exists>rk k. rk_UserID rk = i \<and> rk_Token rk = lg_RefreshToken lg \<and> rk_ExpiresAt rk = rt_now s k + cfg_RefreshTokenTTL cfg
          \<and> (\<forall>v \<in> set old. \<not> token_clash v rk) \<and> new = old @ [rk])"

locale identity_stores =
  u: user_table ur users urest + t: token_table tr tokens owners trest
  for ur :: "'a rt_scheme UserRepository" and users :: "'a rt_scheme \<Rightarrow> User list" and urest :: "'a rt_scheme \<Rightarrow> 'r"
    and tr :: "'a rt_scheme TokenRepository" and tokens :: "'a rt_scheme \<Rightarrow> RefreshToken list"
    and owners :: "'a rt_scheme \<Rightarrow> uuid set" and trest :: "'a rt_scheme \<Rightarrow> 'q" +
  assumes owners_users: "owners s = us_ID ` set (users s)"
    and users_frame: "trest s' = trest s \<Longrightarrow> users s' = users s"
    and tokens_frame: "urest s' = urest s \<Longrightarrow> tokens s' = tokens s"
begin

lemma tick_frame: "only_tick s s' \<Longrightarrow> users s' = users s \<and> tokens s' = tokens s \<and> env_step s s'"
  by (auto elim!: only_tickE)

lemma register_effect:
  assumes bcrypt: "bcrypt_laws A"
    and run: "AuthService_Register A ur email password fullName s = (r, s')"
  shows "env_step s s' \<and> tokens s' = tokens s
    \<and> (users s' = users s \<and> (\<exists>e. r = Inl e)
       \<or> (\<exists>v. new_user A email password fullName v \<and> (\<forall>w \<in> set (users s). \<not> user_clash w v) \<and> users s' = users s @ [v]
            \<and> (\<forall>res. r = Inr res \<longrightarrow> rg_UserID res = us_ID v \<and> rg_CreatedAt res = us_CreatedAt v)))"
proof -
  obtain q s1 where q: "UserFindByEmail ur email s = (q, s1)" by fastforce
  note t1 = tick_frame [OF u.email_effect [OF q]]
  show ?thesis
  proof (cases q)
    case (Inr v)
    then show ?thesis using run q t1 by (auto simp: AuthService_Register_def go_simps)
  next
    case (Inl e)
    obtain h s2 where h: "bcrypt_Generate A password s1 = (h, s2)" by fastforce
    note t2 = tick_frame [OF bcrypt_effect [OF bcrypt h]]
    show ?thesis
    proof (cases h)
      case h': (Inl e')
      then show ?thesis using run q t1 t2 Inl h
        by (auto simp: AuthService_Register_def go_simps intro: env_step_trans)
    next
      case h': (Inr hash)
      let ?v = "\<lparr>us_ID = rt_uuid s2 (rt_tick s2), us_Email = email, us_PasswordHash = hash, us_FullName = fullName,
        us_CreatedAt = rt_now s2 (Suc (rt_tick s2))\<rparr>"
      let ?s2 = "s2\<lparr>rt_tick := Suc (Suc (rt_tick s2))\<rparr>"
      obtain w where w: "UserSave ur ?v ?s2 = (w, s')"
        and r: "r = (case w of Inl err \<Rightarrow> Inl err | Inr x \<Rightarrow> Inr \<lparr>rg_UserID = us_ID ?v, rg_CreatedAt = us_CreatedAt ?v\<rparr>)"
        using run q Inl h h' by (auto simp: AuthService_Register_def NewUser_def uuid_New_def time_Now_def go_simps
          split: prod.splits sum.splits)
      have new: "new_user A email password fullName ?v"
        using bcrypt_compares [OF bcrypt, of password s1 hash s2] h h' by (simp add: new_user_def)
      have env: "env_step s2 ?s2" by simp
      have us: "users ?s2 = users s" and ts: "tokens ?s2 = tokens s" using t1 t2 by simp_all
      note eff = u.save_effect [OF w]
      have "env_step s s'" using eff t1 t2 env by (blast intro: env_step_trans)
      moreover have "tokens s' = tokens s" using eff ts tokens_frame by metis
      moreover have "users s' = users s @ [?v] \<and> (\<forall>x \<in> set (users s). \<not> user_clash x ?v)" if "w = Inr x" for x
        using u.save_ok [of ?v ?s2 x s'] w that us by simp
      ultimately show ?thesis
        using eff us new r by (cases w) (auto intro!: exI [of _ ?v])
    qed
  qed
qed

end


context identity_stores
begin

lemma issue_effect:
  assumes rand: "rand_laws A"
    and run: "AuthService_issueTokens A cfg tr i s = (r, s')"
  shows "env_step s s' \<and> users s' = users s
    \<and> (case r of Inr lg \<Rightarrow> session_opened A cfg i lg s (tokens s) (tokens s')
       | Inl e \<Rightarrow> tokens s' = tokens s \<or> (\<exists>rk. rk_UserID rk = i \<and> (\<forall>v \<in> set (tokens s). \<not> token_clash v rk)
           \<and> tokens s' = tokens s @ [rk]))"
proof -
  obtain a s1 where a: "AuthService_signAccessToken A cfg i s = (a, s1)" by fastforce
  note sign = sign_effect [OF a]
  have t1: "users s1 = users s \<and> tokens s1 = tokens s \<and> env_step s s1" using sign tick_frame by blast
  show ?thesis
  proof (cases a)
    case (Inl e)
    then show ?thesis using run a t1 by (auto simp: AuthService_issueTokens_def go_simps)
  next
    case (Inr te)
    obtain tok e where te: "te = (tok, e)" by fastforce
    obtain b s2 where b: "rand_Read A 32 s1 = (b, s2)" by fastforce
    have t2: "users s2 = users s \<and> tokens s2 = tokens s \<and> env_step s s2"
      using tick_frame [OF rand_effect [OF rand b]] t1 by (auto intro: env_step_trans)
    show ?thesis
    proof (cases b)
      case b': (Inl e')
      then show ?thesis using run a Inr te b t2
        by (auto simp: AuthService_issueTokens_def generateSecureToken_def go_simps)
    next
      case b': (Inr bs)
      let ?k = "rt_tick s2"
      let ?rk = "\<lparr>rk_ID = rt_uuid s2 ?k, rk_UserID = i, rk_Token = hex_EncodeToString bs,
        rk_ExpiresAt = rt_now s2 (Suc ?k) + cfg_RefreshTokenTTL cfg, rk_CreatedAt = rt_now s2 (Suc (Suc ?k))\<rparr>"
      let ?s2 = "s2\<lparr>rt_tick := Suc (Suc (Suc ?k))\<rparr>"
      let ?lg = "\<lparr>lg_AccessToken = tok, lg_RefreshToken = hex_EncodeToString bs, lg_ExpiresAt = e\<rparr>"
      obtain w where w: "TokenSave tr ?rk ?s2 = (w, s')" and r: "r = (case w of Inl err \<Rightarrow> Inl err | Inr x \<Rightarrow> Inr ?lg)"
        using run a Inr te b b'
        by (auto simp: AuthService_issueTokens_def generateSecureToken_def NewRefreshToken_def uuid_New_def time_Now_def
            go_simps split: prod.splits sum.splits)
      have env: "env_step s ?s2" using t2 by (auto simp: env_step_def)
      have us: "users ?s2 = users s" and ts: "tokens ?s2 = tokens s" using t2 by simp_all
      have now: "rt_now s2 = rt_now s" using t2 by (simp add: env_step_def)
      note eff = t.save_effect [OF w]
      have "env_step s s'" using eff env by (blast intro: env_step_trans)
      moreover have "users s' = users s" using eff us users_frame by metis
      moreover have "session_opened A cfg i ?lg s (tokens s) (tokens s')" if "w = Inr x" for x
      proof -
        have "tokens s' = tokens s @ [?rk] \<and> (\<forall>v \<in> set (tokens s). \<not> token_clash v ?rk)"
          using t.save_ok [of ?rk ?s2 x s'] w that ts by simp
        moreover have "access_token (rt_lib s) A cfg i (rt_now s (Suc (rt_tick s))) e tok"
          "e = rt_now s (rt_tick s) + cfg_AccessTokenTTL cfg"
          using sign Inr te by blast+
        ultimately show ?thesis unfolding session_opened_def
          by (intro conjI exI [of _ "rt_tick s"] exI [of _ "Suc (rt_tick s)"] exI [of _ ?rk] exI [of _ "Suc ?k"]) (simp_all add: now)
      qed
      ultimately show ?thesis
        using eff ts r by (cases w) (auto intro!: exI [of _ ?rk])
    qed
  qed
qed

lemma login_effect:
  assumes rand: "rand_laws A"
    and run: "AuthService_Login A cfg ur tr email password s = (r, s')"
  shows "env_step s s' \<and> users s' = users s
    \<and> (case r of
         Inr lg \<Rightarrow> (\<exists>v \<in> set (users s). us_Email v = email \<and> bcrypt_Compare A (us_PasswordHash v) password = None
           \<and> session_opened A cfg (us_ID v) lg s (tokens s) (tokens s'))
       | Inl e \<Rightarrow> tokens s' = tokens s \<or> (\<exists>v \<in> set (users s). us_Email v = email
           \<and> bcrypt_Compare A (us_PasswordHash v) password = None
           \<and> (\<exists>rk. rk_UserID rk = us_ID v \<and> tokens s' = tokens s @ [rk])))"
proof -
  obtain q s1 where q: "UserFindByEmail ur email s = (q, s1)" by fastforce
  note t1 = tick_frame [OF u.email_effect [OF q]]
  show ?thesis
  proof (cases q)
    case (Inl e)
    then show ?thesis using run q t1 by (auto simp: AuthService_Login_def go_simps)
  next
    case (Inr v)
    have v: "v \<in> set (users s)" "us_Email v = email"
      using u.email_ok [of email s v s1] q Inr by (auto simp: find_Some_iff)
    show ?thesis
    proof (cases "bcrypt_Compare A (us_PasswordHash v) password")
      case (Some e)
      then show ?thesis using run q Inr t1 by (auto simp: AuthService_Login_def go_simps)
    next
      case None
      then have "AuthService_issueTokens A cfg tr (us_ID v) s1 = (r, s')"
        using run q Inr by (simp add: AuthService_Login_def go_simps)
      note eff = issue_effect [OF rand this]
      have same: "session_opened A cfg (us_ID v) lg s1 (tokens s1) (tokens s') = session_opened A cfg (us_ID v) lg s (tokens s) (tokens s')" for lg
        using t1 by (simp add: session_opened_def env_step_def)
      show ?thesis using eff same t1 v None by (cases r) (auto intro: env_step_trans)
    qed
  qed
qed

end


lemma find_distinct:
  assumes "distinct (map f xs)" "v \<in> set xs"
  shows "find (\<lambda>x. f x = f v) xs = Some v"
  using assms by (induction xs) (auto simp: image_iff)

definition invalid_credentials :: goerr where
  "invalid_credentials = errors_New CodeUnauthenticated ''invalid credentials''"

definition invalid_token :: goerr where
  "invalid_token = errors_New CodeUnauthenticated ''invalid token''"

definition invalid_refresh :: goerr where
  "invalid_refresh = errors_New CodeUnauthenticated ''invalid refresh token''"

lemmas refusal_defs = invalid_credentials_def invalid_token_def invalid_refresh_def

context identity_stores
begin

lemma validate_outcome:
  assumes laws: "uuid_laws (rt_lib s)" "jwt_laws (rt_lib s) A" and up: "no_faults s"
    and tok: "access_token (rt_lib s) A cfg i issued e tok" "year_in_range issued" "year_in_range e"
    and v: "v \<in> set (users s)" "us_ID v = i" and ids: "distinct (map us_ID (users s))"
  shows "fst (AuthService_ValidateToken A cfg ur tok s) =
    (if rt_now s (rt_tick s) < NewNumericDate e * 10 ^ 9 then Inr \<lparr>vd_UserID = i, vd_Email = us_Email v\<rparr>
     else Inl invalid_token)"
proof -
  let ?now = "rt_now s (rt_tick s)"
  let ?s1 = "s\<lparr>rt_tick := Suc (rt_tick s)\<rparr>"
  note parses = access_token_parses [OF laws(2) tok, where kf = "AuthService_keyfunc cfg" and now = ?now and must_expire = False,
    OF keyfunc_HS256]
  show ?thesis
  proof (cases "?now < NewNumericDate e * 10 ^ 9")
    case True
    then obtain c where c: "jwt_Parse A False ?now tok (AuthService_keyfunc cfg) = Inr (c, True)"
      "cl_Subject c = uuid_String (rt_lib s) i" using parses by auto
    have "find (\<lambda>u. us_ID u = i) (users ?s1) = Some v" using find_distinct [OF ids v(1)] v(2) by simp
    then obtain s2 where "UserFindByID ur i ?s1 = (Inr v, s2)" using u.id_succeeds [of ?s1 i v] up by auto
    then show ?thesis using True c laws(1)
      by (simp add: AuthService_ValidateToken_def AuthService_parseToken_def time_Now_def go_simps)
  next
    case False
    then obtain err where "jwt_Parse A False ?now tok (AuthService_keyfunc cfg) = Inl err" using parses by auto
    then show ?thesis using False
      by (simp add: AuthService_ValidateToken_def AuthService_parseToken_def time_Now_def go_simps refusal_defs)
  qed
qed

lemma refresh_effect:
  assumes run: "AuthService_Refresh A cfg tr raw s = (r, s')"
  shows "env_step s s' \<and> users s' = users s
    \<and> (case r of
         Inr rf \<Rightarrow> tokens s' = tokens s \<and> (\<exists>rk \<in> set (tokens s). rk_Token rk = raw
           \<and> (\<exists>k \<ge> rt_tick s. rt_now s k \<le> rk_ExpiresAt rk)
           \<and> (\<exists>k. access_token (rt_lib s) A cfg (rk_UserID rk) (rt_now s k) (rf_ExpiresAt rf) (rf_AccessToken rf)))
       | Inl e \<Rightarrow> tokens s' = tokens s
           \<or> (\<exists>rk \<in> set (tokens s). rk_Token rk = raw \<and> (\<exists>k \<ge> rt_tick s. rk_ExpiresAt rk < rt_now s k)
                \<and> tokens s' = filter (\<lambda>t. rk_Token t \<noteq> raw) (tokens s)))"
proof -
  obtain q s1 where q: "TokenFindByToken tr raw s = (q, s1)" by fastforce
  have t1: "users s1 = users s \<and> tokens s1 = tokens s \<and> env_step s s1" using tick_frame [OF t.find_effect [OF q]] .
  show ?thesis
  proof (cases q)
    case (Inl e)
    then show ?thesis using run q t1 by (auto simp: AuthService_Refresh_def go_simps)
  next
    case (Inr rk)
    have rk: "rk \<in> set (tokens s)" "rk_Token rk = raw"
      using t.find_ok [of raw s rk s1] q Inr by (auto simp: find_Some_iff)
    let ?s2 = "s1\<lparr>rt_tick := Suc (rt_tick s1)\<rparr>"
    have clock: "rt_now s1 = rt_now s" "rt_tick s \<le> rt_tick s1" "rt_lib s1 = rt_lib s" using t1 by (simp_all add: env_step_def)
    have t2: "users ?s2 = users s" "tokens ?s2 = tokens s" "env_step s ?s2" using t1 by (auto simp: env_step_def)
    show ?thesis
    proof (cases "rk_ExpiresAt rk < rt_now s1 (rt_tick s1)")
      case True
      obtain d where d: "TokenDelete tr raw ?s2 = (d, s')"
        and r: "r = Inl (errors_New CodeUnauthenticated ''refresh token expired'')"
        using run q Inr True by (auto simp: AuthService_Refresh_def RefreshToken_IsExpired_def time_Now_def go_simps
            split: prod.splits)
      note eff = t.delete_effect [OF d]
      have "env_step s s'" using eff t2 by (blast intro: env_step_trans)
      moreover have "users s' = users s" using eff t2 users_frame by metis
      moreover have "tokens s' = tokens s \<or> tokens s' = filter (\<lambda>t. rk_Token t \<noteq> raw) (tokens s)" using eff t2 by simp
      ultimately show ?thesis using r rk True clock by auto
    next
      case False
      then have live: "\<exists>k \<ge> rt_tick s. rt_now s k \<le> rk_ExpiresAt rk" using clock by (metis not_le)
      obtain a where a: "AuthService_signAccessToken A cfg (rk_UserID rk) ?s2 = (a, s')"
        and r: "r = (case a of Inl e \<Rightarrow> Inl e | Inr (tok, e) \<Rightarrow> Inr \<lparr>rf_AccessToken = tok, rf_ExpiresAt = e\<rparr>)"
        using run q Inr False by (auto simp: AuthService_Refresh_def RefreshToken_IsExpired_def time_Now_def go_simps
            split: prod.splits sum.splits)
      note sign = sign_effect [OF a]
      have "users s' = users s \<and> tokens s' = tokens s \<and> env_step s s'"
        using tick_frame [of ?s2 s'] sign t2 by (metis env_step_trans)
      moreover have "\<exists>k. access_token (rt_lib s) A cfg (rk_UserID rk) (rt_now s k) e tok" if "a = Inr (tok, e)" for tok e
        using sign that clock by auto
      ultimately show ?thesis using r rk live by (cases a) (auto split: prod.splits)
    qed
  qed
qed

lemma refresh_unknown:
  assumes "raw \<notin> rk_Token ` set (tokens s)"
  shows "fst (AuthService_Refresh A cfg tr raw s) = Inl invalid_refresh"
proof -
  obtain q s1 where q: "TokenFindByToken tr raw s = (q, s1)" by fastforce
  have "q \<noteq> Inr rk" for rk
    using t.find_ok [of raw s rk s1] q assms by (auto simp: find_Some_iff image_iff) (metis nth_mem)
  then obtain e where "q = Inl e" by (cases q) auto
  then show ?thesis using q by (simp add: AuthService_Refresh_def go_simps refusal_defs)
qed

end


context identity_stores
begin

lemma issue_succeeds:
  assumes laws: "jwt_laws (rt_lib s) A" "rand_laws A" "rand_fresh A (rk_Token ` set (tokens s))" and up: "no_faults s"
    and ids: "\<forall>k \<ge> rt_tick s. rt_uuid s k \<notin> rk_ID ` set (tokens s)" and owner: "i \<in> us_ID ` set (users s)"
  shows "\<exists>lg s'. AuthService_issueTokens A cfg tr i s = (Inr lg, s')"
proof -
  obtain tok e s1 where a: "AuthService_signAccessToken A cfg i s = (Inr (tok, e), s1)"
    using sign_succeeds [OF laws(1)] by blast
  have t1: "only_tick s s1" using sign_effect [OF a] by blast
  obtain bs s2 where b: "rand_Read A 32 s1 = (Inr bs, s2)" and fresh: "hex_EncodeToString bs \<notin> rk_Token ` set (tokens s)"
    using laws(3) unfolding rand_fresh_def by blast
  have t2: "only_tick s s2" using only_tick_trans [OF t1 rand_effect [OF laws(2) b]] .
  then obtain k where k: "rt_tick s \<le> k" "s2 = s\<lparr>rt_tick := k\<rparr>" by (rule only_tickE)
  let ?rk = "\<lparr>rk_ID = rt_uuid s2 (rt_tick s2), rk_UserID = i, rk_Token = hex_EncodeToString bs,
    rk_ExpiresAt = rt_now s2 (Suc (rt_tick s2)) + cfg_RefreshTokenTTL cfg, rk_CreatedAt = rt_now s2 (Suc (Suc (rt_tick s2)))\<rparr>"
  let ?s2 = "s2\<lparr>rt_tick := Suc (Suc (Suc (rt_tick s2)))\<rparr>"
  have "\<forall>v \<in> set (tokens ?s2). \<not> token_clash v ?rk"
    using ids fresh k by (auto simp: token_clash_def image_iff dest: sym)
  moreover have "rk_UserID ?rk \<in> owners ?s2" using owner k by (simp add: owners_users)
  ultimately obtain s3 where "TokenSave tr ?rk ?s2 = (Inr (), s3)" using t.save_succeeds [of ?s2 ?rk] up k by auto
  then show ?thesis using a b
    by (auto simp: AuthService_issueTokens_def generateSecureToken_def NewRefreshToken_def uuid_New_def time_Now_def go_simps)
qed

lemma login_succeeds:
  assumes laws: "jwt_laws (rt_lib s) A" "rand_laws A" "rand_fresh A (rk_Token ` set (tokens s))" and up: "no_faults s"
    and ids: "\<forall>k \<ge> rt_tick s. rt_uuid s k \<notin> rk_ID ` set (tokens s)"
    and v: "v \<in> set (users s)" and password: "bcrypt_Compare A (us_PasswordHash v) password = None"
    and emails: "distinct (map us_Email (users s))"
  shows "\<exists>lg s'. AuthService_Login A cfg ur tr (us_Email v) password s = (Inr lg, s')
    \<and> session_opened A cfg (us_ID v) lg s (tokens s) (tokens s') \<and> users s' = users s \<and> env_step s s'"
proof -
  obtain s1 where q: "UserFindByEmail ur (us_Email v) s = (Inr v, s1)"
    using u.email_succeeds [OF up find_distinct [OF emails v]] by blast
  obtain k where k: "rt_tick s \<le> k" "s1 = s\<lparr>rt_tick := k\<rparr>" using u.email_effect [OF q] by (rule only_tickE)
  have "\<exists>lg s'. AuthService_issueTokens A cfg tr (us_ID v) s1 = (Inr lg, s')"
    by (rule issue_succeeds) (use laws up ids v k in auto)
  then obtain lg s' where issue: "AuthService_issueTokens A cfg tr (us_ID v) s1 = (Inr lg, s')" by blast
  have "session_opened A cfg (us_ID v) lg s1 (tokens s1) (tokens s')" "users s' = users s1" "env_step s1 s'"
    using issue_effect [OF laws(2) issue] by simp_all
  moreover have "env_step s s1" using k by simp
  moreover have "AuthService_Login A cfg ur tr (us_Email v) password s = (Inr lg, s')"
    using q issue password by (simp add: AuthService_Login_def go_simps)
  ultimately show ?thesis using k env_step_trans [of s s1 s'] by (auto simp: session_opened_def)
qed

lemma refresh_succeeds:
  assumes laws: "jwt_laws (rt_lib s) A" and up: "no_faults s"
    and rk: "rk \<in> set (tokens s)" "distinct (map rk_Token (tokens s))" and live: "\<forall>k. rt_now s k \<le> rk_ExpiresAt rk"
  shows "\<exists>rf s'. AuthService_Refresh A cfg tr (rk_Token rk) s = (Inr rf, s')"
proof -
  obtain s1 where q: "TokenFindByToken tr (rk_Token rk) s = (Inr rk, s1)"
    using t.find_succeeds [OF up find_distinct [OF rk(2,1)]] by blast
  obtain k where k: "rt_tick s \<le> k" "s1 = s\<lparr>rt_tick := k\<rparr>" using t.find_effect [OF q] by (rule only_tickE)
  have "jwt_laws (rt_lib (s1\<lparr>rt_tick := Suc (rt_tick s1)\<rparr>)) A" using laws k by simp
  then obtain tok e s' where "AuthService_signAccessToken A cfg (rk_UserID rk) (s1\<lparr>rt_tick := Suc (rt_tick s1)\<rparr>)
      = (Inr (tok, e), s')" using sign_succeeds by blast
  moreover have "\<not> rk_ExpiresAt rk < rt_now s1 (rt_tick s1)" using live k by (simp add: not_less)
  ultimately show ?thesis using q
    by (simp add: AuthService_Refresh_def RefreshToken_IsExpired_def time_Now_def go_simps)
qed

end

interpretation identity_pg: identity_stores UserRepository_postgres users "\<lambda>s. (refresh_tokens s, identity_db.more s)"
  TokenRepository_postgres refresh_tokens "\<lambda>s. us_ID ` set (users s)" "\<lambda>s. (users s, identity_db.more s)"
  by unfold_locales simp_all


section \<open>Registration\<close>

definition already_registered :: goerr where
  "already_registered = errors_New CodeAlreadyExists ''email already registered''"

lemma distinct_snoc: "distinct (map f (xs @ [x])) \<longleftrightarrow> distinct (map f xs) \<and> (\<forall>y \<in> set xs. f y \<noteq> f x)"
  by (auto simp: image_iff dest: sym)

context identity_stores
begin

lemma register_existing:
  assumes "no_faults s" "email \<in> us_Email ` set (users s)" "distinct (map us_Email (users s))"
  shows "fst (AuthService_Register A ur email password fullName s) = Inl already_registered"
proof -
  obtain v where v: "v \<in> set (users s)" "us_Email v = email" using assms(2) by auto
  obtain s1 where "UserFindByEmail ur email s = (Inr v, s1)"
    using u.email_succeeds [OF assms(1) find_distinct [OF assms(3) v(1)]] v(2) by auto
  then show ?thesis by (simp add: AuthService_Register_def go_simps already_registered_def)
qed

end

text \<open>C26. What a registration does, whatever fails on the way: the users stay as they were, or one user is
  added, with the e-mail and the name given and a hash that compares with the password; the answer is
  its identifier and date. Identifiers and e-mails stay distinct, even though a failed lookup is taken
  for an unknown e-mail; a known e-mail never adds a user, and is reported when the lookup works.\<close>

theorem register_outcome:
  assumes "bcrypt_laws A"
    and "AuthService_Register A UserRepository_postgres email password fullName s = (r, t)"
    and "distinct (map us_ID (users s))" "distinct (map us_Email (users s))"
  shows "refresh_tokens t = refresh_tokens s
    \<and> distinct (map us_ID (users t)) \<and> distinct (map us_Email (users t))
    \<and> (case r of
         Inr res \<Rightarrow> \<exists>v. new_user A email password fullName v \<and> users t = users s @ [v]
           \<and> rg_UserID res = us_ID v \<and> rg_CreatedAt res = us_CreatedAt v
       | Inl e \<Rightarrow> users t = users s \<or> (\<exists>v. new_user A email password fullName v \<and> users t = users s @ [v]))
    \<and> (email \<in> us_Email ` set (users s) \<longrightarrow> users t = users s \<and> (no_faults s \<longrightarrow> r = Inl already_registered))"
proof -
  note eff = identity_pg.register_effect [OF assms(1,2)]
  have known: "no_faults s \<Longrightarrow> email \<in> us_Email ` set (users s) \<Longrightarrow> r = Inl already_registered"
    using identity_pg.register_existing [of s email A password fullName] assms(2,4) by simp
  show ?thesis
  proof (cases "users t = users s \<and> (\<exists>e. r = Inl e)")
    case True
    then show ?thesis using eff known assms(3,4) by auto
  next
    case False
    then obtain v where v: "new_user A email password fullName v" "\<forall>w \<in> set (users s). \<not> user_clash w v"
      "users t = users s @ [v]" "\<And>res. r = Inr res \<Longrightarrow> rg_UserID res = us_ID v \<and> rg_CreatedAt res = us_CreatedAt v"
      using eff by blast
    have "\<forall>w \<in> set (users s). us_ID w \<noteq> us_ID v \<and> us_Email w \<noteq> us_Email v" using v(2) by (simp add: user_clash_def)
    moreover from this have "email \<notin> us_Email ` set (users s)" using v(1) by (auto simp: new_user_def)
    ultimately show ?thesis using eff v assms(3,4) distinct_snoc [of us_ID "users s" v] distinct_snoc [of us_Email "users s" v]
      by (auto split: sum.splits)
  qed
qed


section \<open>Sessions\<close>


text \<open>C27. What \<open>ValidateToken\<close> vouches for: an answer names a stored user, by identifier and e-mail, and
  the token was accepted by the JWT library under the service's secret and not expired, with that
  identifier as its subject; everything else is refused as unauthenticated, and the claims are never
  read through the nil pointer that \<open>parseToken\<close> can return.\<close>

theorem validate_token_sound:
  assumes "jwt_laws (rt_lib s) A" and "AuthService_ValidateToken A cfg UserRepository_postgres raw s = (r, t)"
  shows "(case r of
      Inr res \<Rightarrow> (\<exists>c. jwt_Parse A False (rt_now s (rt_tick s)) raw (AuthService_keyfunc cfg) = Inr (c, True)
          \<and> live_at (rt_now s (rt_tick s)) c \<and> uuid_Parse (rt_lib s) (cl_Subject c) = Inr (vd_UserID res))
        \<and> (\<exists>v \<in> set (users s). us_ID v = vd_UserID res \<and> us_Email v = vd_Email res)
    | Inl e \<Rightarrow> \<exists>msg. e = errors_New CodeUnauthenticated msg)
    \<and> users t = users s \<and> refresh_tokens t = refresh_tokens s"
proof -
  let ?s1 = "s\<lparr>rt_tick := Suc (rt_tick s)\<rparr>"
  note run = assms(2) and defs = AuthService_ValidateToken_def AuthService_parseToken_def time_Now_def go_simps
  show ?thesis
  proof (cases "jwt_Parse A False (rt_now s (rt_tick s)) raw (AuthService_keyfunc cfg)")
    case (Inl e)
    then show ?thesis using run by (auto simp: defs)
  next
    case (Inr cv)
    obtain c where cv: "cv = (c, True)" "live_at (rt_now s (rt_tick s)) c"
      using jwt_sound [OF assms(1), of False "rt_now s (rt_tick s)" raw "AuthService_keyfunc cfg"] Inr
      by (cases cv) auto
    show ?thesis
    proof (cases "uuid_Parse (rt_lib s) (cl_Subject c)")
      case u: (Inl e)
      then show ?thesis using run Inr cv by (auto simp: defs)
    next
      case u: (Inr i)
      obtain q s2 where q: "UserFindByID UserRepository_postgres i ?s1 = (q, s2)" by fastforce
      have "only_tick ?s1 s2" using user_pg.id_effect [OF q] .
      then have "users s2 = users s" "refresh_tokens s2 = refresh_tokens s" by (auto elim!: only_tickE)
      moreover have "v \<in> set (users s) \<and> us_ID v = i" if "q = Inr v" for v
        using user_pg.id_ok [of i ?s1 v s2] q that by (auto simp: find_Some_iff)
      ultimately show ?thesis using run Inr cv u q by (cases q) (auto simp: defs)
    qed
  qed
qed



text \<open>A confirmed logout revokes the refresh token: from then on, whatever else is removed, the token
  is refused; an unconfirmed logout removed that token or nothing. No user is touched.\<close>

theorem logout_revokes:
  assumes run: "AuthService_Logout TokenRepository_postgres raw s = (r, t)"
  shows "users t = users s
    \<and> (refresh_tokens t = filter (\<lambda>t. rk_Token t \<noteq> raw) (refresh_tokens s)
       \<or> refresh_tokens t = refresh_tokens s \<and> r \<noteq> Inr ())
    \<and> (r = Inr () \<longrightarrow> (\<forall>t'. set (refresh_tokens t') \<subseteq> set (refresh_tokens t) \<longrightarrow>
         fst (AuthService_Refresh A cfg TokenRepository_postgres raw t') = Inl invalid_refresh))"
proof -
  have d: "TokenDelete TokenRepository_postgres raw s = (r, t)" using run by (simp add: AuthService_Logout_def)
  note eff = token_pg.delete_effect [OF d]
  have gone: "r = Inr () \<Longrightarrow> refresh_tokens t = filter (\<lambda>t. rk_Token t \<noteq> raw) (refresh_tokens s)"
    using token_pg.delete_ok [of raw s "()" t] d by simp
  have "fst (AuthService_Refresh A cfg TokenRepository_postgres raw t') = Inl invalid_refresh"
    if "r = Inr ()" "set (refresh_tokens t') \<subseteq> set (refresh_tokens t)" for t'
    by (rule identity_pg.refresh_unknown) (use gone that in auto)
  then show ?thesis using eff gone by (cases r) auto
qed

section \<open>The gRPC fronts\<close>

text \<open>The two fronts answer a second registration of an e-mail differently: the server that is
  registered reports an internal error, the handler that is not would report AlreadyExists.\<close>

theorem duplicate_registration_codes:
  assumes "no_faults s" "email \<in> us_Email ` set (users s)" "distinct (map us_Email (users s))"
    and "email \<noteq> ''''" "password \<noteq> ''''"
  shows "fst (IdentityServer_Register st A UserRepository_postgres email password fullName s)
      = Inl (StatusError Internal ''ALREADY_EXISTS: email already registered'')
    \<and> fst (Handler_Register st A UserRepository_postgres email password fullName s)
      = Inl (StatusError AlreadyExists ''email already registered'')"
proof -
  obtain t where "AuthService_Register A UserRepository_postgres email password fullName s = (Inl already_registered, t)"
    using identity_pg.register_existing [OF assms(1-3), of A password fullName] by (metis surjective_pairing)
  then show ?thesis using assms(4,5)
    by (simp add: IdentityServer_Register_def Handler_Register_def go_map_error_def go_bind_def already_registered_def
        errors_New_def to_grpc_error_def)
qed


section \<open>Concrete libraries and runs\<close>

text \<open>Tokens as the key and the claims, each text with its length in front.\<close>

definition frame_text :: "string \<Rightarrow> string" where
  "frame_text t = replicate (length t) (CHR ''1'') @ CHR ''0'' # t"

definition unframe :: "string \<Rightarrow> string \<times> string" where
  "unframe t = (let n = length (takeWhile (\<lambda>c. c = CHR ''1'') t); r = drop (Suc n) t in (take n r, drop n r))"

lemma unframe_frame [simp]: "unframe (frame_text t @ r) = (t, r)" "unframe (frame_text t) = (t, '''')"
proof -
  have "takeWhile (\<lambda>c. c = CHR ''1'') (replicate n (CHR ''1'') @ CHR ''0'' # x) = replicate n (CHR ''1'')" for n x
    by (induction n) auto
  then show "unframe (frame_text t @ r) = (t, r)" "unframe (frame_text t) = (t, '''')"
    by (simp_all add: unframe_def frame_text_def)
qed

definition date_text :: "int option \<Rightarrow> string" where
  "date_text d = (case d of None \<Rightarrow> '''' | Some i \<Rightarrow> time_Format sample_lib i)"

definition date_read :: "string \<Rightarrow> int option" where
  "date_read t = (case time_Parse sample_lib t of Inl _ \<Rightarrow> None | Inr i \<Rightarrow> Some i)"

lemma date_read_text [simp]: "date_read (date_text d) = d"
  by (cases d) (simp_all add: date_read_def date_text_def sample_lib_def)

definition sample_sign :: "jwt_alg \<Rightarrow> claims \<Rightarrow> string \<Rightarrow> goerr + string" where
  "sample_sign alg c key =
     (if alg = HS256 then Inr (frame_text key @ frame_text (cl_Subject c) @ frame_text (date_text (cl_ExpiresAt c))
        @ frame_text (date_text (cl_IssuedAt c)) @ frame_text (cl_Issuer c))
      else Inl (PlainError ''key is of invalid type''))"

definition sample_claims :: "string \<Rightarrow> string \<times> claims" where
  "sample_claims tok =
     (let (key, r) = unframe tok; (subj, r) = unframe r; (expires, r) = unframe r; (issued, r) = unframe r
      in (key, \<lparr>cl_Subject = subj, cl_ExpiresAt = date_read expires, cl_IssuedAt = date_read issued,
                cl_Issuer = fst (unframe r)\<rparr>))"

definition sample_parse :: "bool \<Rightarrow> time \<Rightarrow> string \<Rightarrow> (jwt_alg \<Rightarrow> goerr + string) \<Rightarrow> goerr + claims \<times> bool" where
  "sample_parse must_expire now tok kf =
     (let (key, c) = sample_claims tok in
      case kf HS256 of
        Inl e \<Rightarrow> Inl e
      | Inr k \<Rightarrow>
          if k \<noteq> key then Inl (PlainError ''signature is invalid'')
          else if \<not> live_at now c \<or> must_expire \<and> cl_ExpiresAt c = None then Inl (PlainError ''token is expired'')
          else Inr (c, True))"

definition sample_auth :: "'a rt_scheme auth_lib" where
  "sample_auth =
     \<lparr>bcrypt_Generate = (\<lambda>pw. if length pw \<le> 72 then go_return (CHR ''h'' # pw)
        else go_throw (PlainError ''bcrypt: password length exceeds 72 bytes'')),
      bcrypt_Compare = (\<lambda>h pw. if h = CHR ''h'' # pw then None else Some (PlainError ''mismatch'')),
      rand_Read = (\<lambda>n. go_return (replicate n 7)),
      jwt_Sign = sample_sign, jwt_Parse = sample_parse\<rparr>"

lemma sample_claims_sign: "sample_sign HS256 c key = Inr tok \<Longrightarrow> sample_claims tok = (key, c)"
  by (auto simp: sample_sign_def sample_claims_def)

lemma sample_auth_laws [simp]:
  "jwt_laws L sample_auth" "bcrypt_laws sample_auth" "rand_laws sample_auth" "rand_fresh sample_auth {}"
proof -
  show "jwt_laws L sample_auth"
    unfolding jwt_laws_def
  proof (intro conjI allI impI)
    show "\<exists>tok. jwt_Sign sample_auth HS256 c key = Inr tok" for c key
      by (simp add: sample_auth_def sample_sign_def)
  qed (auto simp: sample_auth_def sample_parse_def dest!: sample_claims_sign split: prod.splits sum.splits if_splits)
  show "bcrypt_laws sample_auth" "rand_laws sample_auth" "rand_fresh sample_auth {}"
    by (auto simp: bcrypt_laws_def rand_laws_def rand_fresh_def sample_auth_def go_simps)
qed

definition sample_identity_db :: identity_db where
  "sample_identity_db = rt.extend (sample_rt\<lparr>rt_now := \<lambda>k. int (min k 1000)\<rparr>) \<lparr>users = [], refresh_tokens = []\<rparr>"

definition sample_cfg :: Config where
  "sample_cfg = \<lparr>cfg_JWTSecret = ''k'', cfg_AccessTokenTTL = 2 * 10 ^ 9, cfg_RefreshTokenTTL = 9 * 10 ^ 9\<rparr>"

definition sample_register :: "(goerr + RegisterResult) \<times> identity_db" where
  "sample_register = AuthService_Register sample_auth UserRepository_postgres ''a@b.c'' ''pw'' ''Ann'' sample_identity_db"


definition sample_user :: User where
  "sample_user = \<lparr>us_ID = 2, us_Email = ''a@b.c'', us_PasswordHash = ''hpw'', us_FullName = ''Ann'', us_CreatedAt = 2\<rparr>"

lemma sample_register_run:
  "sample_register =
     (Inr \<lparr>rg_UserID = 2, rg_CreatedAt = 2\<rparr>, sample_identity_db\<lparr>rt_tick := 4, users := [sample_user]\<rparr>)"
  by (simp add: sample_register_def AuthService_Register_def sample_identity_db_def sample_auth_def sample_user_def
      user_repo_defs NewUser_def uuid_New_def time_Now_def go_simps sql_query_run sql_exec_run rt.defs sample_rt_def insert_user_def Let_def)

definition sample_registered :: identity_db where
  "sample_registered = snd sample_register"

lemma sample_registered_simps [simp]:
  "users sample_registered = [sample_user]" "refresh_tokens sample_registered = []" "no_faults sample_registered"
  "rt_lib sample_registered = sample_lib" "rt_now sample_registered k = int (min k 1000)"
  by (simp_all add: sample_registered_def sample_register_run sample_identity_db_def rt.defs sample_rt_def no_faults_def)

theorem register_outcome_witness:
  "(let (r, t) = AuthService_Register sample_auth UserRepository_postgres ''a@b.c'' ''other'' ''Bob'' sample_registered
    in r = Inl already_registered \<and> users t = [sample_user])"
proof -
  obtain r t where run: "AuthService_Register sample_auth UserRepository_postgres ''a@b.c'' ''other'' ''Bob'' sample_registered
      = (r, t)" by fastforce
  show ?thesis using register_outcome [OF sample_auth_laws(2) run] by (simp add: run sample_user_def)
qed


theorem validate_token_sound_witness:
  "\<exists>msg. fst (AuthService_ValidateToken sample_auth sample_cfg UserRepository_postgres ''zz'' sample_registered)
     = Inl (errors_New CodeUnauthenticated msg)"
proof -
  obtain r t where run: "AuthService_ValidateToken sample_auth sample_cfg UserRepository_postgres ''zz'' sample_registered
      = (r, t)" by fastforce
  have "jwt_Parse sample_auth False (rt_now sample_registered (rt_tick sample_registered)) ''zz'' (AuthService_keyfunc sample_cfg)
      \<noteq> Inr (c, True)" for c
    by (simp add: sample_auth_def sample_parse_def sample_claims_def unframe_def sample_cfg_def)
  then show ?thesis using validate_token_sound [OF _ run] by (cases r) (auto simp: run)
qed


definition sample_token :: RefreshToken where
  "sample_token = \<lparr>rk_ID = 9, rk_UserID = 2, rk_Token = ''tok'', rk_ExpiresAt = 2000, rk_CreatedAt = 0\<rparr>"

theorem logout_revokes_witness:
  "fst (AuthService_Refresh sample_auth sample_cfg TokenRepository_postgres ''tok''
     (snd (AuthService_Logout TokenRepository_postgres ''tok'' (sample_registered\<lparr>refresh_tokens := [sample_token]\<rparr>))))
   = Inl invalid_refresh"
proof -
  let ?s = "sample_registered\<lparr>refresh_tokens := [sample_token]\<rparr>"
  have "no_faults ?s" using sample_registered_simps(3) unfolding no_faults_def by simp
  then obtain t where run: "AuthService_Logout TokenRepository_postgres ''tok'' ?s = (Inr (), t)"
    using token_pg.delete_succeeds [of ?s "''tok''"] by (auto simp: AuthService_Logout_def)
  show ?thesis using logout_revokes [OF run, of sample_auth sample_cfg] run by auto
qed

theorem duplicate_registration_codes_witness:
  "fst (IdentityServer_Register (\<lambda>_ m. m) sample_auth UserRepository_postgres ''a@b.c'' ''x'' ''Bob'' sample_registered)
     = Inl (StatusError Internal ''ALREADY_EXISTS: email already registered'')"
  using duplicate_registration_codes [of sample_registered "''a@b.c''" "''x''" "\<lambda>_ m. m" sample_auth "''Bob''"]
  by (simp add: sample_user_def)

end
