(* ===== verification/Gateway.thy ===== *)
theory Gateway
  imports AuthCorrect
begin

text \<open>
  The gateway, \<open>services/gateway\<close>: the middlewares of \<open>internal/middleware/auth.go\<close> and
  \<open>ratelimit.go\<close>, and how \<open>cmd/server/main.go\<close> and the identity service's main set their secrets from
  the environment. An HTTP handler takes the request and answers; the reverse proxy behind the
  middlewares is the handler \<open>proxy\<close> they are given; \<open>Routes\<close> has the routes it serves.
\<close>

section \<open>HTTP\<close>

text \<open>A request: its method, path, query and body, its headers, and the user the context carries.\<close>

record http_request =
  rq_Method :: string
  rq_Path :: string
  rq_Query :: string
  rq_Body :: string
  rq_Header :: "(string \<times> string) list"
  rq_User :: "string option"

record http_response =
  rs_Status :: nat
  rs_Body :: string

type_synonym 's http_handler = "http_request \<Rightarrow> ('s, http_response) go"

definition header_Get :: "http_request \<Rightarrow> string \<Rightarrow> string" where
  "header_Get r key = (case map_of (rq_Header r) key of None \<Rightarrow> '''' | Some v \<Rightarrow> v)"

text \<open>\<open>http.Error\<close> ends the body with a newline.\<close>

definition http_Error :: "string \<Rightarrow> nat \<Rightarrow> http_response" where
  "http_Error msg code = \<lparr>rs_Status = code, rs_Body = msg @ [CHR 0x0A]\<rparr>"

definition HasPrefix :: "string \<Rightarrow> string \<Rightarrow> bool" where
  "HasPrefix s p \<longleftrightarrow> take (length p) s = p"

definition TrimPrefix :: "string \<Rightarrow> string \<Rightarrow> string" where
  "TrimPrefix s p = (if HasPrefix s p then drop (length p) s else s)"

section \<open>Authentication (auth.go)\<close>

definition AuthMiddleware_keyfunc :: "string \<Rightarrow> jwt_alg \<Rightarrow> goerr + string" where
  "AuthMiddleware_keyfunc secret alg =
     (case alg of
        OtherAlg n \<Rightarrow> Inl (PlainError (''unexpected signing method: '' @ alg_name alg))
      | _ \<Rightarrow> Inr secret)"

definition AuthMiddleware_parseToken :: "'a rt_scheme auth_lib \<Rightarrow> string \<Rightarrow> string \<Rightarrow> ('a rt_scheme, claims) go" where
  "AuthMiddleware_parseToken A secret raw =
     go_bind time_Now (\<lambda>now.
     case jwt_Parse A True now raw (AuthMiddleware_keyfunc secret) of
       Inl err \<Rightarrow> go_throw (PlainError ''invalid token'')
     | Inr (claims, valid) \<Rightarrow>
         if valid then go_return claims else go_throw (PlainError ''invalid token''))"

definition UserIDFromContext :: "http_request \<Rightarrow> string" where
  "UserIDFromContext r = (case rq_User r of None \<Rightarrow> '''' | Some u \<Rightarrow> u)"

definition isPublicPath :: "string \<Rightarrow> bool" where
  "isPublicPath path =
     list_ex (HasPrefix path) [''/v1/auth/login'', ''/v1/auth/register'', ''/v1/auth/refresh'', ''/healthz'']"

definition AuthMiddleware_Handler ::
  "'a rt_scheme auth_lib \<Rightarrow> string \<Rightarrow> 'a rt_scheme http_handler \<Rightarrow> 'a rt_scheme http_handler"
where
  "AuthMiddleware_Handler A secret proxy r =
     (if isPublicPath (rq_Path r) then proxy r
      else
        let raw = header_Get r ''Authorization'' in
        if raw = '''' \<or> \<not> HasPrefix raw ''Bearer '' then go_return (http_Error ''missing authorization header'' 401)
        else
          go_bind (go_try (AuthMiddleware_parseToken A secret (TrimPrefix raw ''Bearer ''))) (\<lambda>parsed.
          case parsed of
            Inl err \<Rightarrow> go_return (http_Error ''invalid token'' 401)
          | Inr claims \<Rightarrow> proxy (r\<lparr>rq_User := Some (cl_Subject claims)\<rparr>)))"

section \<open>Rate limit (ratelimit.go)\<close>

text \<open>The Redis client sends a pipeline of commands and gets the integers they answer.\<close>

datatype redis_cmd = Incr string | Expire string int

type_synonym 's redis_exec = "redis_cmd list \<Rightarrow> ('s, int list) go"

definition rateWindow :: int where "rateWindow = 60 * 10 ^ 9"
definition rateMaxCalls :: int where "rateMaxCalls = 100"

definition RateLimitMiddleware_increment :: "'s redis_exec \<Rightarrow> string \<Rightarrow> ('s, int) go" where
  "RateLimitMiddleware_increment exec key =
     go_bind (exec [Incr key, Expire key rateWindow]) (\<lambda>answers. go_return (hd answers))"

definition rate_key :: "string \<Rightarrow> string" where "rate_key userID = ''ratelimit:'' @ userID"

definition RateLimitMiddleware_Handler :: "'s redis_exec \<Rightarrow> 's http_handler \<Rightarrow> 's http_handler" where
  "RateLimitMiddleware_Handler exec proxy r =
     (let userID = UserIDFromContext r in
      if userID = '''' then proxy r
      else
        go_bind (go_try (RateLimitMiddleware_increment exec (rate_key userID))) (\<lambda>res.
        case res of
          Inl err \<Rightarrow> go_return (http_Error ''rate limit exceeded'' 429)
        | Inr calls \<Rightarrow>
            if rateMaxCalls < calls then go_return (http_Error ''rate limit exceeded'' 429) else proxy r))"

section \<open>Configuration\<close>

text \<open>\<open>os.Getenv\<close> answers the empty string for a variable that is not set.\<close>

type_synonym environment = "(string \<times> string) list"

definition os_Getenv :: "environment \<Rightarrow> string \<Rightarrow> string" where
  "os_Getenv env key = (case map_of env key of None \<Rightarrow> '''' | Some v \<Rightarrow> v)"

definition getEnv :: "environment \<Rightarrow> string \<Rightarrow> string \<Rightarrow> string" where
  "getEnv env key fallback = (let v = os_Getenv env key in if v \<noteq> '''' then v else fallback)"

definition gateway_secret :: "environment \<Rightarrow> string" where
  "gateway_secret env = getEnv env ''JWT_SECRET'' ''change-me-in-production''"

definition gateway_handler :: "environment \<Rightarrow> 'a rt_scheme auth_lib \<Rightarrow> 'a rt_scheme http_handler \<Rightarrow> 'a rt_scheme http_handler" where
  "gateway_handler env A gwMux = AuthMiddleware_Handler A (gateway_secret env) gwMux"

definition identity_config :: "environment \<Rightarrow> Config" where
  "identity_config env =
     \<lparr>cfg_JWTSecret = getEnv env ''JWT_SECRET'' ''change-me'', cfg_AccessTokenTTL = 15 * 60 * 10 ^ 9,
      cfg_RefreshTokenTTL = 7 * 24 * 60 * 60 * 10 ^ 9\<rparr>"

end
