(* ===== verification/GatewayCorrect.thy ===== *)
theory GatewayCorrect
  imports Gateway
begin

text \<open>
  The gateway's properties: what passes the authentication, which of the identity service's tokens it
  accepts, and what the rate limit does to a user whose calls keep coming.
\<close>

section \<open>Authentication\<close>

lemma HasPrefix_iff: "HasPrefix s p \<longleftrightarrow> (\<exists>r. s = p @ r)"
  unfolding HasPrefix_def by (metis append_eq_conv_conj append_take_drop_id)

lemma TrimPrefix_append [simp]: "TrimPrefix (p @ r) p = r"
  by (simp add: TrimPrefix_def HasPrefix_def)

definition bearer :: "string \<Rightarrow> string" where
  "bearer tok = ''Bearer '' @ tok"

definition unauthorized :: "http_response \<Rightarrow> bool" where
  "unauthorized resp \<longleftrightarrow> rs_Status resp = 401"

lemma Handler_bearer:
  assumes "\<not> isPublicPath (rq_Path r)" "header_Get r ''Authorization'' = bearer tok"
  shows "AuthMiddleware_Handler A secret proxy r = go_bind (go_try (AuthMiddleware_parseToken A secret tok)) (\<lambda>parsed.
    case parsed of
      Inl err \<Rightarrow> go_return (http_Error ''invalid token'' 401)
    | Inr claims \<Rightarrow> proxy (r\<lparr>rq_User := Some (cl_Subject claims)\<rparr>))"
proof -
  have "TrimPrefix (bearer tok) ''Bearer '' = tok" "HasPrefix (bearer tok) ''Bearer ''" "bearer tok \<noteq> ''''"
    unfolding bearer_def by (simp_all add: TrimPrefix_def HasPrefix_def)
  then show ?thesis using assms by (simp add: AuthMiddleware_Handler_def)
qed

text \<open>C24. What reaches the services behind the gateway: a request for a public path as it is, or a request
  with a bearer token that the JWT library accepts under the gateway's secret, with an expiry date that
  has not come, and then with the token's subject as its user. Any other request is answered 401 and
  leaves nothing but a reading of the clock.\<close>

theorem gateway_lets_in:
  assumes laws: "jwt_laws L A" and run: "AuthMiddleware_Handler A secret proxy r s = out"
  shows "isPublicPath (rq_Path r) \<and> out = proxy r s
    \<or> (\<exists>tok c. header_Get r ''Authorization'' = bearer tok
         \<and> jwt_Parse A True (rt_now s (rt_tick s)) tok (AuthMiddleware_keyfunc secret) = Inr (c, True)
         \<and> (\<exists>d. cl_ExpiresAt c = Some d \<and> rt_now s (rt_tick s) < d * 10 ^ 9)
         \<and> out = proxy (r\<lparr>rq_User := Some (cl_Subject c)\<rparr>) (s\<lparr>rt_tick := Suc (rt_tick s)\<rparr>))
    \<or> (\<exists>resp s'. out = (Inr resp, s') \<and> unauthorized resp \<and> only_tick s s')"
proof (cases "isPublicPath (rq_Path r)")
  case True
  then show ?thesis using run by (simp add: AuthMiddleware_Handler_def)
next
  case public: False
  let ?h = "header_Get r ''Authorization''" and ?now = "rt_now s (rt_tick s)"
  let ?kf = "AuthMiddleware_keyfunc secret"
  show ?thesis
  proof (cases "HasPrefix ?h ''Bearer ''")
    case False
    then have "out = (Inr (http_Error ''missing authorization header'' 401), s)"
      using run public by (simp add: AuthMiddleware_Handler_def go_simps Let_def)
    then show ?thesis by (simp add: unauthorized_def http_Error_def)
  next
    case True
    then obtain tok where h: "?h = bearer tok" by (auto simp: HasPrefix_iff bearer_def)
    note run' = run [unfolded Handler_bearer [OF public h]]
    show ?thesis
    proof (cases "jwt_Parse A True ?now tok ?kf")
      case (Inl e)
      then have "out = (Inr (http_Error ''invalid token'' 401), s\<lparr>rt_tick := Suc (rt_tick s)\<rparr>)"
        using run' by (simp add: AuthMiddleware_parseToken_def time_Now_def go_simps)
      then show ?thesis by (auto simp: unauthorized_def http_Error_def)
    next
      case (Inr cv)
      obtain c v where cv: "cv = (c, v)" by fastforce
      have "v" "live_at ?now c" "cl_ExpiresAt c \<noteq> None"
        using jwt_sound [OF laws, of True ?now tok ?kf c v] Inr cv by simp_all
      moreover from this have "out = proxy (r\<lparr>rq_User := Some (cl_Subject c)\<rparr>) (s\<lparr>rt_tick := Suc (rt_tick s)\<rparr>)"
        using run' Inr cv by (simp add: AuthMiddleware_parseToken_def time_Now_def go_simps)
      ultimately show ?thesis using h Inr cv
        by (intro disjI2 disjI1 exI [of _ tok] exI [of _ c]) (auto simp: live_at_def)
    qed
  qed
qed

lemma bearer_outcome:
  assumes laws: "jwt_laws L A" and tok: "access_token L A cfg i issued e tok" "year_in_range issued" "year_in_range e"
    and r: "\<not> isPublicPath (rq_Path r)" "header_Get r ''Authorization'' = bearer tok"
  shows "AuthMiddleware_Handler A secret proxy r s =
    (if secret = cfg_JWTSecret cfg \<and> rt_now s (rt_tick s) < NewNumericDate e * 10 ^ 9
     then proxy (r\<lparr>rq_User := Some (uuid_String L i)\<rparr>) (s\<lparr>rt_tick := Suc (rt_tick s)\<rparr>)
     else (Inr (http_Error ''invalid token'' 401), s\<lparr>rt_tick := Suc (rt_tick s)\<rparr>))"
proof -
  let ?now = "rt_now s (rt_tick s)"
  let ?kf = "AuthMiddleware_keyfunc secret"
  obtain c where sign: "jwt_Sign A HS256 c (cfg_JWTSecret cfg) = Inr tok" and c: "cl_Subject c = uuid_String L i"
    "cl_ExpiresAt c = Some (NewNumericDate e)" "cl_IssuedAt c = Some (NewNumericDate issued)"
    using tok(1) by (rule access_token_claims)
  have ok: "claims_ok L c"
    using c tok(2,3) year_in_range_seconds [of e] year_in_range_seconds [of issued] by (auto simp: claims_ok_def)
  have live: "live_at ?now c \<longleftrightarrow> ?now < NewNumericDate e * 10 ^ 9" using c by (simp add: live_at_def)
  show ?thesis
  proof (cases "secret = cfg_JWTSecret cfg \<and> live_at ?now c")
    case True
    then have "jwt_Parse A True ?now tok ?kf = Inr (c, True)"
      using c by (intro jwt_accepts [OF laws sign ok]) (simp_all add: AuthMiddleware_keyfunc_def)
    then show ?thesis unfolding Handler_bearer [OF r] using True live c
      by (simp add: AuthMiddleware_parseToken_def time_Now_def go_simps)
  next
    case False
    then obtain err where "jwt_Parse A True ?now tok ?kf = Inl err"
      using jwt_rejects [OF laws sign ok, of ?kf ?now True] by (auto simp: AuthMiddleware_keyfunc_def)
    then show ?thesis unfolding Handler_bearer [OF r] using False live
      by (auto simp: AuthMiddleware_parseToken_def time_Now_def go_simps)
  qed
qed



section \<open>Rate limit\<close>

text \<open>
  Redis counters: the value of a key and when it expires. \<open>INCR\<close> followed by \<open>EXPIRE\<close> adds one to the
  value, zero for a key that is missing or expired, and gives the key a new time to live.
\<close>

type_synonym counters = "string \<Rightarrow> (int \<times> time) option"

definition live_count :: "counters \<Rightarrow> time \<Rightarrow> string \<Rightarrow> int" where
  "live_count cs now key = (case cs key of None \<Rightarrow> 0 | Some (n, e) \<Rightarrow> if now < e then n else 0)"

definition redis_counts :: "('a rt_scheme \<Rightarrow> counters) \<Rightarrow> 'a rt_scheme redis_exec \<Rightarrow> bool" where
  "redis_counts K exec \<longleftrightarrow> (\<forall>key w s. let now = rt_now s (rt_tick s); n = live_count (K s) now key + 1 in
     \<exists>b s'. exec [Incr key, Expire key w] s = (Inr [n, b], s') \<and> K s' = (K s)(key \<mapsto> (n, now + w))
       \<and> rt_now s' = rt_now s \<and> rt_tick s' = Suc (rt_tick s))"

text \<open>A service behind the limiter, as far as the limiter can tell.\<close>

definition counts_kept :: "('a rt_scheme \<Rightarrow> counters) \<Rightarrow> 'a rt_scheme http_handler \<Rightarrow> bool" where
  "counts_kept K proxy \<longleftrightarrow> (\<forall>r s. K (snd (proxy r s)) = K s \<and> rt_now (snd (proxy r s)) = rt_now s
     \<and> rt_tick (snd (proxy r s)) = rt_tick s)"

definition too_many :: http_response where
  "too_many = http_Error ''rate limit exceeded'' 429"

lemma Handler_counted:
  assumes "redis_counts K exec" "UserIDFromContext r \<noteq> ''''"
  shows "\<exists>s'. K s' = (K s)(rate_key (UserIDFromContext r) \<mapsto>
        (live_count (K s) (rt_now s (rt_tick s)) (rate_key (UserIDFromContext r)) + 1, rt_now s (rt_tick s) + rateWindow))
      \<and> rt_now s' = rt_now s \<and> rt_tick s' = Suc (rt_tick s)
      \<and> RateLimitMiddleware_Handler exec proxy r s =
          (if rateMaxCalls < live_count (K s) (rt_now s (rt_tick s)) (rate_key (UserIDFromContext r)) + 1
           then (Inr too_many, s') else proxy r s')"
proof -
  let ?key = "rate_key (UserIDFromContext r)"
  obtain b s' where "exec [Incr ?key, Expire ?key rateWindow] s =
      (Inr [live_count (K s) (rt_now s (rt_tick s)) ?key + 1, b], s')"
    and "K s' = (K s)(?key \<mapsto> (live_count (K s) (rt_now s (rt_tick s)) ?key + 1, rt_now s (rt_tick s) + rateWindow))"
    "rt_now s' = rt_now s" "rt_tick s' = Suc (rt_tick s)"
    using assms(1) unfolding redis_counts_def Let_def by blast
  then show ?thesis using assms(2)
    by (intro exI [of _ s']) (simp add: RateLimitMiddleware_Handler_def RateLimitMiddleware_increment_def too_many_def
        go_simps Let_def)
qed

text \<open>The limit is not per minute: a user whose calls come less than a minute apart, however few in
  each minute, is served the first hundred calls and refused every later one, because each call,
  refused ones too, gives the counter a new minute to live.\<close>

theorem rate_limit_never_resets:
  assumes redis: "redis_counts K exec" and proxy: "counts_kept K proxy"
    and user: "UserIDFromContext r \<noteq> ''''" and new: "K s (rate_key (UserIDFromContext r)) = None"
    and steady: "\<forall>k. rt_now s (Suc k) < rt_now s k + rateWindow"
  shows "let served = (\<lambda>n. ((\<lambda>t. snd (RateLimitMiddleware_Handler exec proxy r t)) ^^ n) s) in
    (n < 100 \<longrightarrow> (\<exists>t. RateLimitMiddleware_Handler exec proxy r (served n) = proxy r t))
    \<and> (100 \<le> n \<longrightarrow> fst (RateLimitMiddleware_Handler exec proxy r (served n)) = Inr too_many)"
proof -
  let ?key = "rate_key (UserIDFromContext r)" and ?H = "RateLimitMiddleware_Handler exec proxy r"
  let ?served = "\<lambda>n. ((\<lambda>t. snd (?H t)) ^^ n) s"
  have counter: "rt_now (?served n) = rt_now s \<and> rt_tick (?served n) = rt_tick s + n
    \<and> live_count (K (?served n)) (rt_now s (rt_tick s + n)) ?key = int n" for n
  proof (induction n)
    case 0
    then show ?case using new by (simp add: live_count_def)
  next
    case (Suc n)
    let ?t = "?served n"
    obtain t where t: "K t = (K ?t)(?key \<mapsto> (int n + 1, rt_now s (rt_tick s + n) + rateWindow))"
      "rt_now t = rt_now s" "rt_tick t = Suc (rt_tick s + n)" "snd (?H ?t) \<in> {t, snd (proxy r t)}"
      using Handler_counted [OF redis user, of ?t proxy] Suc.IH by (auto split: if_splits)
    then have "K (snd (?H ?t)) = K t" "rt_now (snd (?H ?t)) = rt_now s" "rt_tick (snd (?H ?t)) = rt_tick s + Suc n"
      using proxy by (auto simp: counts_kept_def)
    then show ?case using t(1) steady by (simp add: live_count_def)
  qed
  have "let out = ?H (?served n) in (int n + 1 \<le> 100 \<longrightarrow> (\<exists>t. out = proxy r t)) \<and> (100 < int n + 1 \<longrightarrow> fst out = Inr too_many)"
    using Handler_counted [OF redis user, of "?served n" proxy] counter [of n] by (auto simp: rateMaxCalls_def Let_def)
  then show ?thesis by (simp add: Let_def)
qed

section \<open>Concrete runs\<close>

definition sample_page :: "'a rt_scheme http_handler" where
  "sample_page r = go_return \<lparr>rs_Status = 200, rs_Body = UserIDFromContext r\<rparr>"

definition sample_get_wallet :: "string \<Rightarrow> http_request" where
  "sample_get_wallet tok = \<lparr>rq_Method = ''POST'', rq_Path = ''/v1/wallets'', rq_Query = '''', rq_Body = '''',
     rq_Header = [(''Authorization'', bearer tok)], rq_User = None\<rparr>"

lemma sample_get_wallet_simps [simp]:
  "\<not> isPublicPath (rq_Path (sample_get_wallet tok))" "header_Get (sample_get_wallet tok) ''Authorization'' = bearer tok"
  by (simp_all add: sample_get_wallet_def isPublicPath_def HasPrefix_def header_Get_def)

theorem gateway_lets_in_witness:
  "\<exists>resp s'. AuthMiddleware_Handler sample_auth ''k'' sample_page (sample_get_wallet ''zz'') sample_registered = (Inr resp, s')
     \<and> unauthorized resp"
proof -
  have "jwt_Parse sample_auth True now ''zz'' (AuthMiddleware_keyfunc ''k'') \<noteq> Inr (c, True)" for now c
    by (simp add: sample_auth_def sample_parse_def sample_claims_def unframe_def AuthMiddleware_keyfunc_def)
  then show ?thesis
    using gateway_lets_in [OF sample_auth_laws(1) [of sample_lib], where secret = "''k''" and proxy = sample_page
        and r = "sample_get_wallet ''zz''" and s = sample_registered, OF refl]
    by (auto simp: bearer_def)
qed

lemma sample_compares: "bcrypt_Compare sample_auth ''hpw'' ''pw'' = None"
  by (simp add: sample_auth_def)


definition sample_exec :: "counters rt_scheme redis_exec" where
  "sample_exec cmds s =
     (case cmds of
        [Incr key, Expire key' w] \<Rightarrow>
          (let now = rt_now s (rt_tick s); n = live_count (rt.more s) now key + 1
           in (Inr [n, 1], s\<lparr>rt_tick := Suc (rt_tick s), rt.more := (rt.more s)(key \<mapsto> (n, now + w))\<rparr>))
      | _ \<Rightarrow> (Inl (PlainError ''ERR''), s))"

theorem rate_limit_never_resets_witness:
  "fst (RateLimitMiddleware_Handler sample_exec sample_page
     ((sample_get_wallet '''')\<lparr>rq_User := Some ''u''\<rparr>)
     (((\<lambda>t. snd (RateLimitMiddleware_Handler sample_exec sample_page ((sample_get_wallet '''')\<lparr>rq_User := Some ''u''\<rparr>) t))
        ^^ 150) (rt.extend (sample_rt\<lparr>rt_now := \<lambda>k. int k * (50 * 10 ^ 9)\<rparr>) (\<lambda>_. None)))) = Inr too_many"
proof -
  have "redis_counts rt.more sample_exec" by (simp add: redis_counts_def sample_exec_def)
  moreover have "counts_kept rt.more sample_page" by (simp add: counts_kept_def sample_page_def go_simps)
  ultimately show ?thesis
    using rate_limit_never_resets [of rt.more sample_exec sample_page "(sample_get_wallet '''')\<lparr>rq_User := Some ''u''\<rparr>"
        "rt.extend (sample_rt\<lparr>rt_now := \<lambda>k. int k * (50 * 10 ^ 9)\<rparr>) (\<lambda>_. None)" 150]
    by (simp add: UserIDFromContext_def rateWindow_def rt.defs sample_rt_def)
qed

end
