(* ===== verification/Middleware.thy ===== *)
theory Middleware
  imports Errors
begin

text \<open>
  The gRPC interceptors every service runs its handlers in, \<open>pkg/middleware/grpc.go\<close>: logging, tracing,
  recovery from panics, the idempotency key, and the chain that composes them. A handler returns the
  Go pair of a response and an error, either of which may be nil, or panics. The logger and the
  tracer are arguments; what they write is in the state.
\<close>

section \<open>Handlers and interceptors\<close>

text \<open>
  The values of a context the interceptors read or set: the incoming metadata, the idempotency key, the
  current span.
\<close>

record ctx =
  cx_Metadata :: "(string \<times> string list) list option"
  cx_IdempotencyKey :: "string option"
  cx_Span :: nat

datatype 'r outcome = Returned "'r option" "goerr option" | Panic string

type_synonym ('s, 'q, 'r) UnaryHandler = "ctx \<Rightarrow> 'q \<Rightarrow> 's \<Rightarrow> 'r outcome \<times> 's"
type_synonym ('s, 'q, 'r) UnaryInterceptor =
  "ctx \<Rightarrow> 'q \<Rightarrow> string \<Rightarrow> ('s, 'q, 'r) UnaryHandler \<Rightarrow> 's \<Rightarrow> 'r outcome \<times> 's"

datatype log_line =
    LogInfo string string int
  | LogError string string int grpc_code string
  | LogPanic string string

type_synonym 's logger = "ctx \<Rightarrow> log_line \<Rightarrow> 's \<Rightarrow> 's"

text \<open>OpenTelemetry: a started span, and what is written to it; \<open>from_error\<close> is \<open>status.FromError\<close>.\<close>

record 's tracer =
  span_Start :: "ctx \<Rightarrow> string \<Rightarrow> 's \<Rightarrow> nat \<times> 's"
  span_SetAttribute :: "nat \<Rightarrow> string \<Rightarrow> string \<Rightarrow> 's \<Rightarrow> 's"
  span_RecordError :: "nat \<Rightarrow> goerr \<Rightarrow> 's \<Rightarrow> 's"
  span_SetError :: "nat \<Rightarrow> string \<Rightarrow> 's \<Rightarrow> 's"
  span_End :: "nat \<Rightarrow> 's \<Rightarrow> 's"

section \<open>The interceptors\<close>

definition UnaryLogging ::
  "(goerr \<Rightarrow> grpc_code \<times> string) \<Rightarrow> 'a rt_scheme logger \<Rightarrow> ('a rt_scheme, 'q, 'r) UnaryInterceptor"
where
  "UnaryLogging from_error l cx req fullMethod handler s =
     (let start = rt_now s (rt_tick s);
          (out, s1) = handler cx req (s\<lparr>rt_tick := Suc (rt_tick s)\<rparr>)
      in case out of
           Panic p \<Rightarrow> (Panic p, s1)
         | Returned resp err \<Rightarrow>
             (let duration = rt_now s1 (rt_tick s1) - start;
                  s2 = s1\<lparr>rt_tick := Suc (rt_tick s1)\<rparr>
              in (Returned resp err,
                  case err of
                    Some e \<Rightarrow> l cx (LogError ''grpc request failed'' fullMethod duration
                      (fst (from_error e)) (snd (from_error e))) s2
                  | None \<Rightarrow> l cx (LogInfo ''grpc request'' fullMethod duration) s2)))"

text \<open>The span is ended on every way out, a panic included.\<close>

definition UnaryTracing ::
  "(grpc_code \<Rightarrow> string \<Rightarrow> string) \<Rightarrow> 's tracer \<Rightarrow> ('s, 'q, 'r) UnaryInterceptor"
where
  "UnaryTracing st T cx req fullMethod handler s =
     (let (span, s1) = span_Start T cx fullMethod s;
          s2 = span_SetAttribute T span ''rpc.method'' fullMethod s1;
          (out, s3) = handler (cx\<lparr>cx_Span := span\<rparr>) req s2
      in case out of
           Panic p \<Rightarrow> (Panic p, span_End T span s3)
         | Returned resp err \<Rightarrow>
             (Returned resp err, span_End T span
               (case err of
                  None \<Rightarrow> s3
                | Some e \<Rightarrow> span_SetError T span (error_Error st e) (span_RecordError T span e s3))))"

text \<open>\<open>status.Errorf(500, ...)\<close>: the number is used as a gRPC code.\<close>

definition UnaryRecovery :: "'s logger \<Rightarrow> ('s, 'q, 'r) UnaryInterceptor" where
  "UnaryRecovery l cx req fullMethod handler s =
     (case handler cx req s of
        (Returned resp err, s1) \<Rightarrow> (Returned resp err, s1)
      | (Panic p, s1) \<Rightarrow>
          (Returned None (Some (StatusError (CodeNumber 500) ''internal server error'')),
           l cx (LogPanic fullMethod p) s1))"

definition md_Get :: "(string \<times> string list) list \<Rightarrow> string \<Rightarrow> string list" where
  "md_Get md key = (case map_of md key of None \<Rightarrow> [] | Some vs \<Rightarrow> vs)"

definition with_idempotency_key :: "ctx \<Rightarrow> ctx" where
  "with_idempotency_key cx =
     (case cx_Metadata cx of
        None \<Rightarrow> cx
      | Some md \<Rightarrow> (case md_Get md ''idempotency-key'' of [] \<Rightarrow> cx | k # _ \<Rightarrow> cx\<lparr>cx_IdempotencyKey := Some k\<rparr>))"

definition UnaryIDempotency :: "('s, 'q, 'r) UnaryInterceptor" where
  "UnaryIDempotency cx req fullMethod handler = handler (with_idempotency_key cx) req"

definition IdempotencyKeyFromContext :: "ctx \<Rightarrow> string" where
  "IdempotencyKeyFromContext cx = (case cx_IdempotencyKey cx of None \<Rightarrow> '''' | Some k \<Rightarrow> k)"

text \<open>The loop runs over the interceptors from the last to the first.\<close>

definition ChainUnary :: "('s, 'q, 'r) UnaryInterceptor list \<Rightarrow> ('s, 'q, 'r) UnaryInterceptor" where
  "ChainUnary interceptors cx req fullMethod handler =
     (fold (\<lambda>interceptor chain. \<lambda>cx req. interceptor cx req fullMethod chain) (rev interceptors) handler) cx req"

text \<open>The chain the services' mains build.\<close>

definition service_chain ::
  "(goerr \<Rightarrow> grpc_code \<times> string) \<Rightarrow> (grpc_code \<Rightarrow> string \<Rightarrow> string) \<Rightarrow> 'a rt_scheme logger \<Rightarrow> 'a rt_scheme tracer
     \<Rightarrow> ('a rt_scheme, 'q, 'r) UnaryInterceptor"
where
  "service_chain from_error st l T =
     ChainUnary [UnaryRecovery l, UnaryTracing st T, UnaryLogging from_error l, UnaryIDempotency]"

section \<open>What the chain does\<close>

lemma ChainUnary_Nil [simp]: "ChainUnary [] cx req fullMethod handler = handler cx req"
  by (simp add: ChainUnary_def)

lemma ChainUnary_Cons [simp]:
  "ChainUnary (i # is) cx req fullMethod handler = i cx req fullMethod (\<lambda>cx req. ChainUnary is cx req fullMethod handler)"
  by (simp add: ChainUnary_def)

text \<open>A service's interceptors are transparent to a handler that returns, whatever the logger and the
  tracer do: the client gets the handler's response and error, and the handler sees the caller's
  metadata and the first value of the idempotency-key header. A handler that panics is answered with an
  error, never with a crash of the process, but with the gRPC code number 500, which is no gRPC code.\<close>

theorem service_chain_transparent:
  "\<exists>span s0. let out = handler (with_idempotency_key (cx\<lparr>cx_Span := span\<rparr>)) req s0;
      answer = fst (service_chain from_error st l T cx req fullMethod handler s)
    in answer = (case fst out of
        Returned resp err \<Rightarrow> Returned resp err
      | Panic p \<Rightarrow> Returned None (Some (StatusError (CodeNumber 500) ''internal server error'')))"
proof -
  obtain span s1 where span: "span_Start T cx fullMethod s = (span, s1)" by fastforce
  let ?s2 = "span_SetAttribute T span ''rpc.method'' fullMethod s1"
  let ?s0 = "?s2\<lparr>rt_tick := Suc (rt_tick ?s2)\<rparr>"
  obtain out s3 where out: "handler (with_idempotency_key (cx\<lparr>cx_Span := span\<rparr>)) req ?s0 = (out, s3)" by fastforce
  show ?thesis
    by (intro exI [of _ span] exI [of _ ?s0])
      (cases out; simp add: span out service_chain_def UnaryRecovery_def UnaryTracing_def UnaryLogging_def
        UnaryIDempotency_def Let_def)
qed

end
