(* ===== verification/Server.thy ===== *)
theory Server
  imports Prelude
begin

text \<open>
  How a gRPC server starts, waits and stops: \<open>GRPCServer.Run\<close> of \<open>pkg/server/server.go\<close>. Three
  goroutines share two channels, the process's signals, the context and a timer: the caller of \<open>Run\<close>,
  the one in \<open>Serve\<close> and, once the server is to stop, the one in \<open>GracefulStop\<close>. The steps of \<open>Run\<close> are one
  relation, what the rest of the world does (signals, a cancelled context, the returns of the gRPC
  library's calls) is another. The clock counts nanoseconds; it does not move while the caller of \<open>Run\<close>
  can take a step.
\<close>

section \<open>State\<close>

record server_Config =
  sc_Port :: int
  sc_ShutdownTimeout :: int

text \<open>
  Where the caller is: before \<open>net.Listen\<close>; the goroutine of \<open>Serve\<close> started, the signals not yet asked
  for; in the first \<open>select\<close>; past it; in the second \<open>select\<close>, with the time the timer fires at; returned.
\<close>

datatype run_pc = AtListen | AtNotify | AtSelect | AtStop | AtDrain int | RunReturned "goerr + unit"

text \<open>The goroutines of \<open>Serve\<close> and of \<open>GracefulStop\<close>; the latter closes \<open>stopped\<close> when it ends.\<close>

datatype worker_pc = NotStarted | InCall | Ended

datatype grpc_call = Serve | GracefulStop | Stop

text \<open>
  \<open>sv_Quit\<close> and \<open>sv_ErrCh\<close> are the channels of capacity one; \<open>sv_Calls\<close> lists the calls made of the gRPC
  server; \<open>sv_Asked\<close> is when the first reason to stop came.
\<close>

record server =
  sv_Now :: int
  sv_Main :: run_pc
  sv_Serving :: worker_pc
  sv_Stopping :: worker_pc
  sv_Quit :: "string option"
  sv_ErrCh :: "goerr option"
  sv_CtxDone :: bool
  sv_Calls :: "grpc_call list"
  sv_Asked :: "int option"

definition server_start :: "int \<Rightarrow> server" where
  "server_start now = \<lparr>sv_Now = now, sv_Main = AtListen, sv_Serving = NotStarted, sv_Stopping = NotStarted,
     sv_Quit = None, sv_ErrCh = None, sv_CtxDone = False, sv_Calls = [], sv_Asked = None\<rparr>"

definition asks :: "server \<Rightarrow> server" where
  "asks s = s\<lparr>sv_Asked := (case sv_Asked s of None \<Rightarrow> Some (sv_Now s) | Some t \<Rightarrow> Some t)\<rparr>"

lemma asks_simps [simp]:
  "sv_Now (asks s) = sv_Now s" "sv_Main (asks s) = sv_Main s" "sv_Serving (asks s) = sv_Serving s"
  "sv_Stopping (asks s) = sv_Stopping s" "sv_Quit (asks s) = sv_Quit s" "sv_ErrCh (asks s) = sv_ErrCh s"
  "sv_CtxDone (asks s) = sv_CtxDone s" "sv_Calls (asks s) = sv_Calls s"
  "sv_Asked (asks s) = Some (case sv_Asked s of None \<Rightarrow> sv_Now s | Some t \<Rightarrow> t)"
  by (simp_all add: asks_def split: option.split)

definition shutdown_timeout :: "server_Config \<Rightarrow> int" where
  "shutdown_timeout cfg = (if sc_ShutdownTimeout cfg = 0 then 30 * 10 ^ 9 else sc_ShutdownTimeout cfg)"

section \<open>Steps\<close>

text \<open>One of the cases of the first \<open>select\<close> is ready.\<close>

definition reason_to_stop :: "server \<Rightarrow> bool" where
  "reason_to_stop s \<longleftrightarrow> sv_Quit s \<noteq> None \<or> sv_ErrCh s \<noteq> None \<or> sv_CtxDone s"

text \<open>The caller of \<open>Run\<close> can take a step.\<close>

definition main_ready :: "server \<Rightarrow> bool" where
  "main_ready s = (case sv_Main s of
     AtSelect \<Rightarrow> reason_to_stop s
   | AtDrain d \<Rightarrow> sv_Stopping s = Ended \<or> d \<le> sv_Now s
   | RunReturned r \<Rightarrow> False
   | _ \<Rightarrow> True)"

inductive run_step :: "server_Config \<Rightarrow> server \<Rightarrow> server \<Rightarrow> bool" for cfg s where
  listen_fails: "sv_Main s = AtListen \<Longrightarrow>
    run_step cfg s (s\<lparr>sv_Main := RunReturned (Inl (WrapError (''listen on port '' @ show_int (sc_Port cfg) @ '': '') err))\<rparr>)"
| listens: "sv_Main s = AtListen \<Longrightarrow>
    run_step cfg s (s\<lparr>sv_Main := AtNotify, sv_Serving := InCall, sv_Calls := sv_Calls s @ [Serve]\<rparr>)"
| notify: "sv_Main s = AtNotify \<Longrightarrow> run_step cfg s (s\<lparr>sv_Main := AtSelect\<rparr>)"
| on_signal: "sv_Main s = AtSelect \<Longrightarrow> sv_Quit s = Some sig \<Longrightarrow>
    run_step cfg s (s\<lparr>sv_Main := AtStop, sv_Quit := None\<rparr>)"
| on_serve_error: "sv_Main s = AtSelect \<Longrightarrow> sv_ErrCh s = Some err \<Longrightarrow>
    run_step cfg s (s\<lparr>sv_Main := RunReturned (Inl err), sv_ErrCh := None\<rparr>)"
| on_ctx_done: "sv_Main s = AtSelect \<Longrightarrow> sv_CtxDone s \<Longrightarrow> run_step cfg s (s\<lparr>sv_Main := AtStop\<rparr>)"
| stops: "sv_Main s = AtStop \<Longrightarrow>
    run_step cfg s (s\<lparr>sv_Main := AtDrain (sv_Now s + shutdown_timeout cfg), sv_Stopping := InCall,
      sv_Calls := sv_Calls s @ [GracefulStop]\<rparr>)"
| on_stopped: "sv_Main s = AtDrain d \<Longrightarrow> sv_Stopping s = Ended \<Longrightarrow>
    run_step cfg s (s\<lparr>sv_Main := RunReturned (Inr ())\<rparr>)"
| on_timeout: "sv_Main s = AtDrain d \<Longrightarrow> d \<le> sv_Now s \<Longrightarrow>
    run_step cfg s (s\<lparr>sv_Main := RunReturned (Inr ()), sv_Calls := sv_Calls s @ [Stop]\<rparr>)"
| tick: "\<not> main_ready s \<Longrightarrow> run_step cfg s (s\<lparr>sv_Now := sv_Now s + 1\<rparr>)"

text \<open>
  The world. A signal reaches the channel once it was asked for; \<open>Serve\<close> returns an error at any time, and
  without one only after a stop; \<open>GracefulStop\<close> returns at any time, or never.
\<close>

inductive world_step :: "server \<Rightarrow> server \<Rightarrow> bool" for s where
  signal_comes: "sv_Main s \<noteq> AtListen \<Longrightarrow> sv_Main s \<noteq> AtNotify \<Longrightarrow> sv_Quit s = None \<Longrightarrow>
    world_step s (asks (s\<lparr>sv_Quit := Some sig\<rparr>))"
| cancelled: "world_step s (asks (s\<lparr>sv_CtxDone := True\<rparr>))"
| serve_fails: "sv_Serving s = InCall \<Longrightarrow> world_step s (asks (s\<lparr>sv_Serving := Ended, sv_ErrCh := Some err\<rparr>))"
| serve_returns: "sv_Serving s = InCall \<Longrightarrow> GracefulStop \<in> set (sv_Calls s) \<or> Stop \<in> set (sv_Calls s) \<Longrightarrow>
    world_step s (s\<lparr>sv_Serving := Ended\<rparr>)"
| drained: "sv_Stopping s = InCall \<Longrightarrow> world_step s (s\<lparr>sv_Stopping := Ended\<rparr>)"

inductive server_step :: "server_Config \<Rightarrow> server \<Rightarrow> server \<Rightarrow> bool" for cfg where
  run: "run_step cfg s s' \<Longrightarrow> server_step cfg s s'"
| world: "world_step s s' \<Longrightarrow> server_step cfg s s'"

definition running :: "server \<Rightarrow> bool" where
  "running s \<longleftrightarrow> (\<forall>r. sv_Main s \<noteq> RunReturned r)"

section \<open>What holds at every moment\<close>

text \<open>
  Up to the second \<open>select\<close> no time passes after a reason to stop came; in it the timer was set when that
  reason came.
\<close>

definition server_inv :: "server_Config \<Rightarrow> server \<Rightarrow> bool" where
  "server_inv cfg s = (case sv_Main s of
     AtDrain d \<Rightarrow> \<exists>t. sv_Asked s = Some t \<and> d = t + shutdown_timeout cfg
       \<and> sv_Now s \<le> t + max 0 (shutdown_timeout cfg) \<and> GracefulStop \<in> set (sv_Calls s)
   | RunReturned (Inr u) \<Rightarrow> GracefulStop \<in> set (sv_Calls s) \<and> (sv_Stopping s = Ended \<or> Stop \<in> set (sv_Calls s))
   | RunReturned (Inl e) \<Rightarrow> GracefulStop \<notin> set (sv_Calls s)
   | AtStop \<Rightarrow> sv_Asked s = Some (sv_Now s) \<and> GracefulStop \<notin> set (sv_Calls s)
   | _ \<Rightarrow> (sv_Asked s = None \<or> sv_Asked s = Some (sv_Now s)) \<and> (sv_Asked s \<noteq> None \<longleftrightarrow> reason_to_stop s)
          \<and> GracefulStop \<notin> set (sv_Calls s))"

lemma server_start_inv: "server_inv cfg (server_start now)"
  by (simp add: server_inv_def server_start_def reason_to_stop_def)

lemma run_step_inv: "run_step cfg s s' \<Longrightarrow> server_inv cfg s \<Longrightarrow> server_inv cfg s'"
  by (erule run_step.cases)
    (auto simp: server_inv_def main_ready_def reason_to_stop_def split: run_pc.splits sum.splits)

lemma world_step_inv: "world_step s s' \<Longrightarrow> server_inv cfg s \<Longrightarrow> server_inv cfg s'"
  by (erule world_step.cases)
    (auto simp: server_inv_def reason_to_stop_def split: run_pc.splits sum.splits option.splits)

lemma server_reach_inv: "(server_step cfg)\<^sup>*\<^sup>* (server_start now) s \<Longrightarrow> server_inv cfg s"
  by (induction rule: rtranclp_induct)
    (auto simp: server_start_inv elim!: server_step.cases intro: run_step_inv world_step_inv)


section \<open>Shutdown\<close>

text \<open>What the caller still has to do: the selects passed, then the time left on the timer.\<close>

definition steps_left :: "server \<Rightarrow> nat \<times> nat" where
  "steps_left s = (case sv_Main s of
     AtListen \<Rightarrow> (5, 0) | AtNotify \<Rightarrow> (4, 0) | AtSelect \<Rightarrow> (3, 0) | AtStop \<Rightarrow> (2, 0)
   | AtDrain d \<Rightarrow> (1, nat (d - sv_Now s)) | RunReturned r \<Rightarrow> (0, 0))"

lemma run_step_decreases:
  "run_step cfg s s' \<Longrightarrow> server_inv cfg s \<Longrightarrow> sv_Asked s \<noteq> None \<Longrightarrow> running s \<Longrightarrow>
     (steps_left s', steps_left s) \<in> less_than <*lex*> less_than"
  by (erule run_step.cases)
    (auto simp: steps_left_def server_inv_def main_ready_def running_def split: run_pc.splits)

lemma run_step_asked: "run_step cfg s s' \<Longrightarrow> sv_Asked s' = sv_Asked s"
  by (erule run_step.cases) simp_all

lemma run_can_step: "running s \<Longrightarrow> \<exists>s'. run_step cfg s s'"
proof (cases "main_ready s")
  case True
  assume "running s"
  then show ?thesis using True
    by (auto simp: main_ready_def reason_to_stop_def running_def split: run_pc.splits
      intro: run_step.listens run_step.notify run_step.on_signal run_step.on_serve_error run_step.on_ctx_done
        run_step.stops run_step.on_stopped run_step.on_timeout)
qed (auto intro: run_step.tick)

text \<open>C17. A shutdown ends. Once there is a reason to stop (a signal, a cancelled context, an error of
  \<open>Serve\<close>), whatever else happens, \<open>Run\<close> has returned before the shutdown timeout (30 seconds when it is
  zero) is over; it can always take its next step; and it cannot take steps for ever without returning.\<close>

theorem shutdown_terminates:
  assumes "(server_step cfg)\<^sup>*\<^sup>* (server_start now) s" "sv_Asked s = Some t"
  shows "(running s \<longrightarrow> sv_Now s \<le> t + max 0 (shutdown_timeout cfg) \<and> (\<exists>s'. run_step cfg s s'))
    \<and> \<not> (\<exists>f. f 0 = s \<and> (\<forall>i. running (f i) \<and> run_step cfg (f i) (f (Suc i))))"
proof (intro conjI impI)
  have inv: "server_inv cfg s" by (rule server_reach_inv [OF assms(1)])
  then show "sv_Now s \<le> t + max 0 (shutdown_timeout cfg)" if "running s"
    using assms(2) that by (auto simp: server_inv_def running_def split: run_pc.splits)
  show "\<exists>s'. run_step cfg s s'" if "running s" using that by (rule run_can_step)
  show "\<not> (\<exists>f. f 0 = s \<and> (\<forall>i. running (f i) \<and> run_step cfg (f i) (f (Suc i))))"
  proof
    assume "\<exists>f. f 0 = s \<and> (\<forall>i. running (f i) \<and> run_step cfg (f i) (f (Suc i)))"
    then obtain f where f: "f 0 = s" "\<And>i. running (f i)" "\<And>i. run_step cfg (f i) (f (Suc i))" by blast
    have keep: "server_inv cfg (f i) \<and> sv_Asked (f i) = Some t" for i
    proof (induction i)
      case (Suc i)
      then show ?case using run_step_inv [OF f(3)] run_step_asked [OF f(3)] by metis
    qed (use inv assms(2) f(1) in simp)
    have "(steps_left (f (Suc i)), steps_left (f i)) \<in> less_than <*lex*> less_than" for i
      using run_step_decreases [OF f(3) _ _ f(2)] keep by simp
    moreover have "wf (less_than <*lex*> less_than)" by (intro wf_lex_prod wf_less_than)
    ultimately show False
      using wf_no_infinite_down_chainE [of "less_than <*lex*> less_than" "\<lambda>i. steps_left (f i)"] by blast
  qed
qed

text \<open>What a return of \<open>Run\<close> means: without an error the server was asked to stop gracefully, and has done
  so or was then stopped by force; with an error it was never asked to, so that calls in progress were
  not waited for.\<close>

theorem run_outcome:
  assumes "(server_step cfg)\<^sup>*\<^sup>* (server_start now) s" "sv_Main s = RunReturned r"
  shows "case r of
      Inr u \<Rightarrow> GracefulStop \<in> set (sv_Calls s) \<and> (sv_Stopping s = Ended \<or> Stop \<in> set (sv_Calls s))
    | Inl e \<Rightarrow> GracefulStop \<notin> set (sv_Calls s)"
  using server_reach_inv [OF assms(1)] assms(2) by (auto simp: server_inv_def split: sum.splits)

text \<open>A run: the server starts, gets a signal at once, nothing drains, and the timeout of one nanosecond passes.\<close>

definition sample_server :: "run_pc \<Rightarrow> int \<Rightarrow> server" where
  "sample_server pc n = \<lparr>sv_Now = n, sv_Main = pc, sv_Serving = InCall, sv_Stopping = InCall, sv_Quit = None,
     sv_ErrCh = None, sv_CtxDone = False, sv_Calls = [Serve, GracefulStop], sv_Asked = Some 0\<rparr>"

lemma sample_server_reached:
  fixes cfg :: server_Config
  assumes "shutdown_timeout cfg = 1"
  shows "(server_step cfg)\<^sup>*\<^sup>* (server_start 0) (sample_server (AtDrain 1) 0)"
    and "(server_step cfg)\<^sup>*\<^sup>* (server_start 0)
      ((sample_server (RunReturned (Inr ())) 1)\<lparr>sv_Calls := [Serve, GracefulStop, Stop]\<rparr>)"
proof -
  let ?s0 = "server_start 0"
  let ?s1 = "?s0\<lparr>sv_Main := AtNotify, sv_Serving := InCall, sv_Calls := sv_Calls ?s0 @ [Serve]\<rparr>"
  let ?s2 = "?s1\<lparr>sv_Main := AtSelect\<rparr>"
  let ?s3 = "asks (?s2\<lparr>sv_Quit := Some ''terminated''\<rparr>)"
  let ?s4 = "?s3\<lparr>sv_Main := AtStop, sv_Quit := None\<rparr>"
  let ?s5 = "?s4\<lparr>sv_Main := AtDrain (sv_Now ?s4 + shutdown_timeout cfg), sv_Stopping := InCall,
    sv_Calls := sv_Calls ?s4 @ [GracefulStop]\<rparr>"
  have "server_step cfg ?s0 ?s1"
    by (rule server_step.run, rule run_step.listens) (simp add: server_start_def)
  moreover have "server_step cfg ?s1 ?s2" by (rule server_step.run, rule run_step.notify) simp
  moreover have "server_step cfg ?s2 ?s3"
    by (rule server_step.world, rule world_step.signal_comes) (simp_all add: server_start_def)
  moreover have "server_step cfg ?s3 ?s4"
    by (rule server_step.run, rule run_step.on_signal [where sig = "''terminated''"]) simp_all
  moreover have "server_step cfg ?s4 ?s5" by (rule server_step.run, rule run_step.stops) simp
  ultimately have "(server_step cfg)\<^sup>*\<^sup>* ?s0 ?s5" by (meson rtranclp.rtrancl_into_rtrancl rtranclp.rtrancl_refl)
  moreover have "?s5 = sample_server (AtDrain 1) 0"
    using assms by (simp add: server_start_def sample_server_def asks_def)
  ultimately show a: "(server_step cfg)\<^sup>*\<^sup>* ?s0 (sample_server (AtDrain 1) 0)" by simp
  let ?t = "(sample_server (AtDrain 1) 0)\<lparr>sv_Now := sv_Now (sample_server (AtDrain 1) 0) + 1\<rparr>"
  have "server_step cfg (sample_server (AtDrain 1) 0) ?t"
    by (rule server_step.run, rule run_step.tick) (simp add: sample_server_def main_ready_def)
  moreover have "server_step cfg ?t (?t\<lparr>sv_Main := RunReturned (Inr ()), sv_Calls := sv_Calls ?t @ [Stop]\<rparr>)"
    by (rule server_step.run, rule run_step.on_timeout [where d = 1]) (simp_all add: sample_server_def)
  moreover have "?t\<lparr>sv_Main := RunReturned (Inr ()), sv_Calls := sv_Calls ?t @ [Stop]\<rparr>
      = (sample_server (RunReturned (Inr ())) 1)\<lparr>sv_Calls := [Serve, GracefulStop, Stop]\<rparr>"
    by (simp add: sample_server_def)
  ultimately show "(server_step cfg)\<^sup>*\<^sup>* ?s0
      ((sample_server (RunReturned (Inr ())) 1)\<lparr>sv_Calls := [Serve, GracefulStop, Stop]\<rparr>)"
    using a by (metis (no_types, lifting) rtranclp.rtrancl_into_rtrancl)
qed

definition sample_server_Config :: server_Config where
  "sample_server_Config = \<lparr>sc_Port = 50053, sc_ShutdownTimeout = 1\<rparr>"

lemma sample_timeout: "shutdown_timeout sample_server_Config = 1"
  by (simp add: shutdown_timeout_def sample_server_Config_def)

lemma shutdown_terminates_witness:
  "running (sample_server (AtDrain 1) 0) \<and> (\<exists>s'. run_step sample_server_Config (sample_server (AtDrain 1) 0) s')
   \<and> sv_Now (sample_server (AtDrain 1) 0) \<le> 0 + 1
   \<and> \<not> (\<exists>f. f 0 = sample_server (AtDrain 1) 0
         \<and> (\<forall>i. running (f i) \<and> run_step sample_server_Config (f i) (f (Suc i))))"
proof -
  note reach = sample_server_reached(1) [OF sample_timeout]
  have asked: "sv_Asked (sample_server (AtDrain 1) 0) = Some 0" "running (sample_server (AtDrain 1) 0)"
    by (simp_all add: sample_server_def running_def)
  show ?thesis
    using shutdown_terminates [OF reach asked(1)] asked(2) unfolding sample_timeout by simp
qed

lemma run_outcome_witness:
  "GracefulStop \<in> set [Serve, GracefulStop, Stop] \<and> (InCall = Ended \<or> Stop \<in> set [Serve, GracefulStop, Stop])"
  using run_outcome [OF sample_server_reached(2) [OF sample_timeout]] by (simp add: sample_server_def)

end
