(* ===== verification/Logger.thy ===== *)
theory Logger
  imports Middleware Mains
begin

text \<open>
  The rest of \<open>pkg/logger/logger.go\<close>: \<open>MustNew\<close>, the logger kept in a context, and \<open>WithTrace\<close>, which the logging
  interceptor of \<open>Middleware\<close> calls. \<open>New\<close> is \<open>logger_New\<close> of \<open>Mains\<close>. The encoder and the sink of zap are
  parameters; of a logger its level and its fields are kept.
\<close>

section \<open>Loggers and contexts\<close>

datatype zap_logger = NopLogger | ZapLogger string "(string \<times> string) list"

text \<open>\<open>l.With(fields...)\<close>\<close>

fun zap_With :: "zap_logger \<Rightarrow> (string \<times> string) list \<Rightarrow> zap_logger" where
  "zap_With NopLogger gs = NopLogger"
| "zap_With (ZapLogger level fs) gs = ZapLogger level (fs @ gs)"

record span_context =
  sc_Recording :: bool
  sc_TraceID :: string
  sc_SpanID :: string

text \<open>
  The value under \<open>contextKey\<close>, if there is one: a pointer to a logger, which may be nil. And the span, which
  is not recording when there is none.
\<close>

record log_context =
  lc_Logger :: "zap_logger option option"
  lc_Span :: span_context

section \<open>The functions\<close>

definition logger_MustNew :: "boot_lib \<Rightarrow> string \<Rightarrow> goerr + zap_logger" where
  "logger_MustNew L level =
     (case logger_New L level of Inl e \<Rightarrow> Inl e \<comment> \<open>a panic with the error\<close> | Inr lvl \<Rightarrow> Inr (ZapLogger lvl []))"

definition logger_WithContext :: "log_context \<Rightarrow> zap_logger option \<Rightarrow> log_context" where
  "logger_WithContext ctx l = ctx\<lparr>lc_Logger := Some l\<rparr>"

definition logger_FromContext :: "log_context \<Rightarrow> zap_logger" where
  "logger_FromContext ctx = (case lc_Logger ctx of Some (Some l) \<Rightarrow> l | _ \<Rightarrow> NopLogger)"

definition logger_WithTrace :: "log_context \<Rightarrow> zap_logger \<Rightarrow> zap_logger" where
  "logger_WithTrace ctx l =
     (let span = lc_Span ctx in
      if \<not> sc_Recording span then l
      else zap_With l [(''trace_id'', sc_TraceID span), (''span_id'', sc_SpanID span)])"

section \<open>What they do\<close>

text \<open>The logger put last into a context is the one found there; without one, or with a nil pointer,
  nothing is logged and nothing panics. The span of the context is not touched.\<close>

lemma logger_context_roundtrip:
  "logger_FromContext (logger_WithContext ctx (Some l)) = l"
  "logger_FromContext (logger_WithContext ctx None) = NopLogger"
  "lc_Logger ctx = None \<Longrightarrow> logger_FromContext ctx = NopLogger"
  "logger_WithContext (logger_WithContext ctx l1) l2 = logger_WithContext ctx l2"
  "lc_Span (logger_WithContext ctx p) = lc_Span ctx"
  by (simp_all add: logger_WithContext_def logger_FromContext_def)

text \<open>A level that cannot be read does not stop the process; a logger that cannot be built does.\<close>

lemma MustNew_unknown_level:
  "bl_ParseLevel L level = Inl e \<Longrightarrow> bl_LogBuild L ''info'' = None \<Longrightarrow> logger_MustNew L level = Inr (ZapLogger ''info'' [])"
  "bl_ParseLevel L level = Inr lvl \<Longrightarrow> bl_LogBuild L lvl = Some e \<Longrightarrow> logger_MustNew L level = Inl e"
  by (simp_all add: logger_MustNew_def logger_New_def Let_def)

text \<open>
  The logger argument of the interceptors as the code makes it: the lines of a request go to \<open>l\<close> with the
  trace of the span in the context; \<open>spans\<close> tells what the tracer knows of a span.
\<close>

definition traced_logger ::
  "(nat \<Rightarrow> span_context) \<Rightarrow> (zap_logger \<Rightarrow> log_line \<Rightarrow> 's \<Rightarrow> 's) \<Rightarrow> zap_logger \<Rightarrow> 's logger"
where
  "traced_logger spans emit l cx line = 
     emit (logger_WithTrace \<lparr>lc_Logger = None, lc_Span = spans (cx_Span cx)\<rparr> l) line"

text \<open>Tracing comes before logging in the chain of the services, so the line of a request that succeeds
  carries the trace and the span that were started for it.\<close>

lemma request_line_carries_trace:
  assumes "span_Start T cx fullMethod s = (span, s1)" and "sc_Recording (spans span)"
    and "s2 = span_SetAttribute T span ''rpc.method'' fullMethod s1"
    and "handler (with_idempotency_key (cx\<lparr>cx_Span := span\<rparr>)) req (s2\<lparr>rt_tick := Suc (rt_tick s2)\<rparr>) = (Returned resp None, s3)"
  shows "\<exists>duration s4. service_chain from_error st (traced_logger spans emit (ZapLogger level fs)) T cx req fullMethod handler s
    = (Returned resp None, span_End T span (emit (ZapLogger level
        (fs @ [(''trace_id'', sc_TraceID (spans span)), (''span_id'', sc_SpanID (spans span))]))
        (LogInfo ''grpc request'' fullMethod duration) s4))"
  using assms(1,2,4)
  by (auto simp: assms(3) service_chain_def UnaryRecovery_def UnaryTracing_def UnaryLogging_def UnaryIDempotency_def
      Let_def traced_logger_def logger_WithTrace_def)

end
