(* ===== verification/Routes.thy ===== *)
theory Routes
  imports GatewayCorrect Json
begin

text \<open>
  The HTTP routes of the gateway: the proxies of \<open>api/proto/*/v1/*.pb.gw.go\<close> that \<open>router.New\<close> registers, each
  a method, a path pattern and the function that makes the gRPC call of a request; and the gateway's
  handler over them. The grpc-gateway library (matching, dispatch, marshalling, the answers) and the gRPC
  connections are parameters.
\<close>

section \<open>The library\<close>

text \<open>A message under way, field by field; the parameters a pattern takes from a path; a query form.\<close>

type_synonym message = "(string \<times> json) list"
type_synonym params = "(string \<times> string) list"

text \<open>
  Decoding a body (\<open>px_IsEOF\<close> tells the error of an empty one) and a query, the text of an error, matching
  the segments of a path with a compiled pattern, the context of a call, the call, and the two answers.
\<close>

record 's proxy_lib =
  px_Decode :: "string \<Rightarrow> goerr + message"
  px_IsEOF :: "goerr \<Rightarrow> bool"
  px_ParseForm :: "string \<Rightarrow> goerr + params"
  px_Populate :: "message \<Rightarrow> params \<Rightarrow> string list \<Rightarrow> goerr + message"
  px_Text :: "goerr \<Rightarrow> string"
  px_Match :: "nat list \<Rightarrow> string list \<Rightarrow> string list \<Rightarrow> params option"
  px_AnnotateContext :: "http_request \<Rightarrow> string \<Rightarrow> goerr + unit"
  px_Call :: "string \<Rightarrow> message \<Rightarrow> ('s, message) go"
  px_HTTPError :: "http_request \<Rightarrow> goerr \<Rightarrow> http_response"
  px_Forward :: "http_request \<Rightarrow> message \<Rightarrow> http_response"

definition set_field :: "string \<Rightarrow> json \<Rightarrow> message \<Rightarrow> message" where
  "set_field f v m = (f, v) # filter (\<lambda>(g, _). g \<noteq> f) m"

section \<open>The parts of a generated request\<close>

text \<open>The body into the message, an empty one giving the empty message.\<close>

definition decode_body :: "'s proxy_lib \<Rightarrow> http_request \<Rightarrow> ('s, message) go" where
  "decode_body P r =
     (case px_Decode P (rq_Body r) of
        Inl err \<Rightarrow> if px_IsEOF P err then go_return [] else go_throw (StatusError InvalidArgument (px_Text P err))
      | Inr m \<Rightarrow> go_return m)"

text \<open>A parameter of the path into its field; \<open>runtime.String\<close> never fails.\<close>

definition path_param :: "string \<Rightarrow> params \<Rightarrow> message \<Rightarrow> ('s, message) go" where
  "path_param name ps m =
     (case map_of ps name of
        None \<Rightarrow> go_throw (StatusError InvalidArgument (''missing parameter '' @ name))
      | Some val \<Rightarrow> go_return (set_field name (JStr val) m))"

text \<open>The query into the fields that the path does not give.\<close>

definition query_params :: "'s proxy_lib \<Rightarrow> http_request \<Rightarrow> string list \<Rightarrow> message \<Rightarrow> ('s, message) go" where
  "query_params P r given m =
     (case px_ParseForm P (rq_Query r) of
        Inl err \<Rightarrow> go_throw (StatusError InvalidArgument (px_Text P err))
      | Inr form \<Rightarrow>
          (case px_Populate P m form given of
             Inl err \<Rightarrow> go_throw (StatusError InvalidArgument (px_Text P err))
           | Inr m' \<Rightarrow> go_return m'))"

type_synonym 's request_fn = "'s proxy_lib \<Rightarrow> http_request \<Rightarrow> params \<Rightarrow> ('s, message) go"

section \<open>The requests (identity)\<close>

definition request_IdentityService_Register :: "'s request_fn" where
  "request_IdentityService_Register P r ps =
     go_bind (decode_body P r) (px_Call P ''/fintech.identity.v1.IdentityService/Register'')"

definition request_IdentityService_Login :: "'s request_fn" where
  "request_IdentityService_Login P r ps =
     go_bind (decode_body P r) (px_Call P ''/fintech.identity.v1.IdentityService/Login'')"

definition request_IdentityService_RefreshToken :: "'s request_fn" where
  "request_IdentityService_RefreshToken P r ps =
     go_bind (decode_body P r) (px_Call P ''/fintech.identity.v1.IdentityService/RefreshToken'')"

definition request_IdentityService_Logout :: "'s request_fn" where
  "request_IdentityService_Logout P r ps =
     go_bind (decode_body P r) (px_Call P ''/fintech.identity.v1.IdentityService/Logout'')"

section \<open>The requests (wallet)\<close>

definition request_WalletService_CreateWallet :: "'s request_fn" where
  "request_WalletService_CreateWallet P r ps =
     go_bind (decode_body P r) (px_Call P ''/fintech.wallet.v1.WalletService/CreateWallet'')"

definition request_WalletService_GetBalance :: "'s request_fn" where
  "request_WalletService_GetBalance P r ps =
     go_bind (path_param ''wallet_id'' ps []) (px_Call P ''/fintech.wallet.v1.WalletService/GetBalance'')"

definition request_WalletService_Deposit :: "'s request_fn" where
  "request_WalletService_Deposit P r ps =
     go_bind (decode_body P r) (\<lambda>m.
     go_bind (path_param ''wallet_id'' ps m) (px_Call P ''/fintech.wallet.v1.WalletService/Deposit''))"

definition request_WalletService_Withdraw :: "'s request_fn" where
  "request_WalletService_Withdraw P r ps =
     go_bind (decode_body P r) (\<lambda>m.
     go_bind (path_param ''wallet_id'' ps m) (px_Call P ''/fintech.wallet.v1.WalletService/Withdraw''))"

section \<open>The requests (transaction)\<close>

definition request_TransactionService_InitiateTransfer :: "'s request_fn" where
  "request_TransactionService_InitiateTransfer P r ps =
     go_bind (decode_body P r) (px_Call P ''/fintech.transaction.v1.TransactionService/InitiateTransfer'')"

definition request_TransactionService_GetTransaction :: "'s request_fn" where
  "request_TransactionService_GetTransaction P r ps =
     go_bind (path_param ''transaction_id'' ps []) (px_Call P ''/fintech.transaction.v1.TransactionService/GetTransaction'')"

section \<open>The requests (query)\<close>

definition request_QueryService_GetBalance :: "'s request_fn" where
  "request_QueryService_GetBalance P r ps =
     go_bind (path_param ''wallet_id'' ps []) (px_Call P ''/fintech.query.v1.QueryService/GetBalance'')"

definition request_QueryService_GetStatement :: "'s request_fn" where
  "request_QueryService_GetStatement P r ps =
     go_bind (path_param ''wallet_id'' ps []) (\<lambda>m.
     go_bind (query_params P r [''wallet_id''] m) (px_Call P ''/fintech.query.v1.QueryService/GetStatement''))"

definition request_QueryService_GetUserStats :: "'s request_fn" where
  "request_QueryService_GetUserStats P r ps =
     go_bind (path_param ''user_id'' ps []) (px_Call P ''/fintech.query.v1.QueryService/GetUserStats'')"

section \<open>The routes\<close>

record 's route =
  rte_Method :: string
  rte_Ops :: "nat list"
  rte_Pool :: "string list"
  rte_RPC :: string
  rte_Request :: "'s request_fn"

text \<open>The handler the generated code registers for a route: the context, the request, and its answer.\<close>

definition route_handler :: "'s proxy_lib \<Rightarrow> 's route \<Rightarrow> params \<Rightarrow> 's http_handler" where
  "route_handler P rte ps r =
     (case px_AnnotateContext P r (rte_RPC rte) of
        Inl err \<Rightarrow> go_return (px_HTTPError P r err)
      | Inr _ \<Rightarrow>
          go_bind (go_try (rte_Request rte P r ps)) (\<lambda>res.
          case res of
            Inl err \<Rightarrow> go_return (px_HTTPError P r err)
          | Inr resp \<Rightarrow> go_return (px_Forward P r resp)))"

definition post :: "nat list \<Rightarrow> string list \<Rightarrow> string \<Rightarrow> 's request_fn \<Rightarrow> 's route" where
  "post ops pool rpc f = \<lparr>rte_Method = ''POST'', rte_Ops = ops, rte_Pool = pool, rte_RPC = rpc, rte_Request = f\<rparr>"

definition get :: "nat list \<Rightarrow> string list \<Rightarrow> string \<Rightarrow> 's request_fn \<Rightarrow> 's route" where
  "get ops pool rpc f = \<lparr>rte_Method = ''GET'', rte_Ops = ops, rte_Pool = pool, rte_RPC = rpc, rte_Request = f\<rparr>"

definition RegisterIdentityServiceHandlerClient :: "'s route list" where
  "RegisterIdentityServiceHandlerClient =
     [post [2, 0, 2, 1, 2, 2] [''v1'', ''auth'', ''register''] ''/fintech.identity.v1.IdentityService/Register''
        request_IdentityService_Register,
      post [2, 0, 2, 1, 2, 2] [''v1'', ''auth'', ''login''] ''/fintech.identity.v1.IdentityService/Login''
        request_IdentityService_Login,
      post [2, 0, 2, 1, 2, 2] [''v1'', ''auth'', ''refresh''] ''/fintech.identity.v1.IdentityService/RefreshToken''
        request_IdentityService_RefreshToken,
      post [2, 0, 2, 1, 2, 2] [''v1'', ''auth'', ''logout''] ''/fintech.identity.v1.IdentityService/Logout''
        request_IdentityService_Logout]"

definition RegisterWalletServiceHandlerClient :: "'s route list" where
  "RegisterWalletServiceHandlerClient =
     [post [2, 0, 2, 1] [''v1'', ''wallets''] ''/fintech.wallet.v1.WalletService/CreateWallet''
        request_WalletService_CreateWallet,
      get [2, 0, 2, 1, 1, 0, 4, 1, 5, 2, 2, 3] [''v1'', ''wallets'', ''wallet_id'', ''balance'']
        ''/fintech.wallet.v1.WalletService/GetBalance'' request_WalletService_GetBalance,
      post [2, 0, 2, 1, 1, 0, 4, 1, 5, 2, 2, 3] [''v1'', ''wallets'', ''wallet_id'', ''deposit'']
        ''/fintech.wallet.v1.WalletService/Deposit'' request_WalletService_Deposit,
      post [2, 0, 2, 1, 1, 0, 4, 1, 5, 2, 2, 3] [''v1'', ''wallets'', ''wallet_id'', ''withdraw'']
        ''/fintech.wallet.v1.WalletService/Withdraw'' request_WalletService_Withdraw]"

definition RegisterTransactionServiceHandlerClient :: "'s route list" where
  "RegisterTransactionServiceHandlerClient =
     [post [2, 0, 2, 1, 2, 2] [''v1'', ''transactions'', ''transfer'']
        ''/fintech.transaction.v1.TransactionService/InitiateTransfer'' request_TransactionService_InitiateTransfer,
      get [2, 0, 2, 1, 1, 0, 4, 1, 5, 2] [''v1'', ''transactions'', ''transaction_id'']
        ''/fintech.transaction.v1.TransactionService/GetTransaction'' request_TransactionService_GetTransaction]"

definition RegisterQueryServiceHandlerClient :: "'s route list" where
  "RegisterQueryServiceHandlerClient =
     [get [2, 0, 2, 1, 2, 2, 1, 0, 4, 1, 5, 3, 2, 4] [''v1'', ''query'', ''wallets'', ''wallet_id'', ''balance'']
        ''/fintech.query.v1.QueryService/GetBalance'' request_QueryService_GetBalance,
      get [2, 0, 2, 1, 2, 2, 1, 0, 4, 1, 5, 3, 2, 4] [''v1'', ''query'', ''wallets'', ''wallet_id'', ''statement'']
        ''/fintech.query.v1.QueryService/GetStatement'' request_QueryService_GetStatement,
      get [2, 0, 2, 1, 2, 2, 1, 0, 4, 1, 5, 3, 2, 4] [''v1'', ''query'', ''users'', ''user_id'', ''stats'']
        ''/fintech.query.v1.QueryService/GetUserStats'' request_QueryService_GetUserStats]"

definition gateway_routes :: "'s route list" where
  "gateway_routes = RegisterIdentityServiceHandlerClient @ RegisterWalletServiceHandlerClient
     @ RegisterTransactionServiceHandlerClient @ RegisterQueryServiceHandlerClient"


section \<open>Matching\<close>

text \<open>
  A compiled pattern as a template: operation 2 is a literal of the pool, the operations 1, 4, 5 a segment
  captured under a name of the pool.
\<close>

datatype segment = Literal string | Variable string

fun decompile :: "nat list \<Rightarrow> string list \<Rightarrow> segment list option" where
  "decompile (op # i # rest) pool =
     (if op = 2 then map_option ((#) (Literal (pool ! i))) (decompile rest pool)
      else if op = 1 \<and> i = 0 then
        (case rest of
           c # n # d # j # rest' \<Rightarrow>
             if c = 4 \<and> n = 1 \<and> d = 5 then map_option ((#) (Variable (pool ! j))) (decompile rest' pool) else None
         | _ \<Rightarrow> None)
      else None)"
| "decompile [] pool = Some []"
| "decompile [op] pool = None"

fun template_match :: "segment list \<Rightarrow> string list \<Rightarrow> params option" where
  "template_match [] [] = Some []"
| "template_match (Literal l # t) (c # cs) = (if c = l then template_match t cs else None)"
| "template_match (Variable v # t) (c # cs) = map_option ((#) (v, c)) (template_match t cs)"
| "template_match t cs = None"

text \<open>The segments between the slashes of a path that starts with one.\<close>

fun split_slash :: "string \<Rightarrow> string list" where
  "split_slash [] = [[]]"
| "split_slash (c # cs) =
     (if c = CHR ''/'' then [] # split_slash cs
      else case split_slash cs of [] \<Rightarrow> [[c]] | x # xs \<Rightarrow> (c # x) # xs)"

definition path_segments :: "string \<Rightarrow> string list option" where
  "path_segments p = (case p of c # cs \<Rightarrow> if c = CHR ''/'' then Some (split_slash cs) else None | [] \<Rightarrow> None)"

definition route_matches :: "'s proxy_lib \<Rightarrow> 's route \<Rightarrow> http_request \<Rightarrow> params \<Rightarrow> bool" where
  "route_matches P rte r ps \<longleftrightarrow> rq_Method r = rte_Method rte
     \<and> (\<exists>cs. path_segments (rq_Path r) = Some cs \<and> px_Match P (rte_Ops rte) (rte_Pool rte) cs = Some ps)"

text \<open>
  What the library is relied on for. A pattern matches the segments its template does; the multiplexer
  hands a request to the handler of a route that matches it, or answers by itself and calls nothing.
\<close>

definition match_law :: "'s proxy_lib \<Rightarrow> bool" where
  "match_law P \<longleftrightarrow> (\<forall>ops pool t cs. decompile ops pool = Some t \<longrightarrow> px_Match P ops pool cs = template_match t cs)"

definition mux_law :: "'s proxy_lib \<Rightarrow> 's route list \<Rightarrow> 's http_handler \<Rightarrow> bool" where
  "mux_law P routes mux \<longleftrightarrow>
     (\<forall>r s. (\<exists>resp. mux r s = (Inr resp, s))
        \<or> (\<exists>rte \<in> set routes. \<exists>ps. route_matches P rte r ps \<and> mux r s = route_handler P rte ps r s))"

lemma template_match_Nil [simp]: "template_match [] cs = Some ps \<longleftrightarrow> cs = [] \<and> ps = []"
  by (cases cs) auto

lemma template_match_Literal [simp]:
  "template_match (Literal l # t) cs = Some ps \<longleftrightarrow> (\<exists>cs'. cs = l # cs' \<and> template_match t cs' = Some ps)"
  by (cases cs) auto

lemma template_match_Variable [simp]:
  "template_match (Variable v # t) cs = Some ps
     \<longleftrightarrow> (\<exists>c cs' ps'. cs = c # cs' \<and> ps = (v, c) # ps' \<and> template_match t cs' = Some ps')"
  by (cases cs) auto

text \<open>The path is its segments, joined by slashes.\<close>

fun join_slash :: "string list \<Rightarrow> string" where
  "join_slash [] = []"
| "join_slash [c] = c"
| "join_slash (c # cs) = c @ ''/'' @ join_slash cs"

lemma split_slash_ne: "split_slash s \<noteq> []"
  by (cases s) (auto split: list.splits)

lemma join_split_slash: "join_slash (split_slash s) = s"
proof (induction s)
  case (Cons c cs)
  obtain x xs where x: "split_slash cs = x # xs" using split_slash_ne by (cases "split_slash cs") auto
  then show ?case using Cons by (cases xs) auto
qed simp

lemma path_of_segments: "path_segments p = Some cs \<Longrightarrow> p = ''/'' @ join_slash cs"
  by (auto simp: path_segments_def join_split_slash split: list.splits if_splits)

definition open_rpcs :: "string list" where
  "open_rpcs = [''/fintech.identity.v1.IdentityService/Register'', ''/fintech.identity.v1.IdentityService/Login'',
     ''/fintech.identity.v1.IdentityService/RefreshToken'']"

lemmas route_defs = gateway_routes_def RegisterIdentityServiceHandlerClient_def RegisterWalletServiceHandlerClient_def
  RegisterTransactionServiceHandlerClient_def RegisterQueryServiceHandlerClient_def post_def get_def

text \<open>The template of each route.\<close>

definition route_template :: "'s route \<Rightarrow> segment list" where
  "route_template rte = the (decompile (rte_Ops rte) (rte_Pool rte))"

lemma routes_decompile: "rte \<in> set gateway_routes \<Longrightarrow> decompile (rte_Ops rte) (rte_Pool rte) = Some (route_template rte)"
  by (auto simp: route_defs route_template_def)

lemma route_segments:
  assumes "match_law P" "rte \<in> set gateway_routes" "route_matches P rte r ps"
  obtains cs where "rq_Path r = ''/'' @ join_slash cs" "path_segments (rq_Path r) = Some cs"
    "template_match (route_template rte) cs = Some ps"
  using assms routes_decompile [OF assms(2)] path_of_segments unfolding route_matches_def match_law_def by metis

text \<open>A public path leads to the sign-up, sign-in and refresh calls only, and these paths are public: of
  the thirteen routes, a request that matches one is for a public path exactly when its call is
  \<open>Register\<close>, \<open>Login\<close> or \<open>RefreshToken\<close>.\<close>

lemma open_routes:
  assumes "match_law P" "rte \<in> set gateway_routes" "route_matches P rte r ps"
  shows "isPublicPath (rq_Path r) \<longleftrightarrow> rte_RPC rte \<in> set open_rpcs"
proof -
  obtain cs where p: "rq_Path r = ''/'' @ join_slash cs" and m: "template_match (route_template rte) cs = Some ps"
    using route_segments [OF assms] by metis
  show ?thesis
    using assms(2) m unfolding p isPublicPath_def HasPrefix_def open_rpcs_def
    by (auto simp: route_defs route_template_def)
qed

text \<open>No request matches two routes.\<close>

lemma routes_unambiguous:
  assumes "match_law P" "rte \<in> set gateway_routes" "route_matches P rte r ps"
    and "rte' \<in> set gateway_routes" "route_matches P rte' r ps'"
  shows "rte_RPC rte = rte_RPC rte'"
proof -
  obtain cs where p: "path_segments (rq_Path r) = Some cs" and m: "template_match (route_template rte) cs = Some ps"
    using route_segments [OF assms(1-3)] by metis
  have m': "template_match (route_template rte') cs = Some ps'"
    using route_segments [OF assms(1,4,5)] p by (metis option.inject)
  have same: "rte_Method rte = rte_Method rte'" using assms(3,5) by (simp add: route_matches_def)
  show ?thesis
    using assms(2,4) m m' same
    by (simp add: route_defs) (elim disjE; clarsimp simp: route_template_def)
qed

text \<open>The wallet of a deposit or a withdrawal is the one of the path, whatever the body says.\<close>

lemma wallet_of_the_path:
  assumes "map_of ps ''wallet_id'' = Some w"
    and "f = request_WalletService_Deposit \<and> rpc = ''/fintech.wallet.v1.WalletService/Deposit''
      \<or> f = request_WalletService_Withdraw \<and> rpc = ''/fintech.wallet.v1.WalletService/Withdraw''"
  shows "(\<exists>e. f P r ps s = (Inl e, s)) \<or> (\<exists>m. map_of m ''wallet_id'' = Some (JStr w) \<and> f P r ps s = px_Call P rpc m s)"
proof -
  have "snd (decode_body P r s) = s" by (simp add: decode_body_def go_simps split: sum.split)
  then obtain q where d: "decode_body P r s = (q, s)" by (metis prod.collapse)
  show ?thesis
  proof (cases q)
    case (Inl e)
    then show ?thesis using assms(2) d
      by (auto simp: request_WalletService_Deposit_def request_WalletService_Withdraw_def go_simps)
  next
    case (Inr m)
    then have "f P r ps s = px_Call P rpc (set_field ''wallet_id'' (JStr w) m) s"
      using assms d
      by (auto simp: request_WalletService_Deposit_def request_WalletService_Withdraw_def path_param_def go_simps)
    moreover have "map_of (set_field ''wallet_id'' (JStr w) m) ''wallet_id'' = Some (JStr w)"
      by (simp add: set_field_def)
    ultimately show ?thesis by blast
  qed
qed


section \<open>A library that keeps the laws\<close>

text \<open>
  It matches by the template and hands a request to the first route that matches; every call empties the
  users and is answered with an empty message.
\<close>

definition sample_px :: "identity_db proxy_lib" where
  "sample_px = \<lparr>px_Decode = (\<lambda>b. Inr []), px_IsEOF = (\<lambda>_. False), px_ParseForm = (\<lambda>q. Inr []),
     px_Populate = (\<lambda>m form given. Inr m), px_Text = (\<lambda>_. ''''),
     px_Match = (\<lambda>ops pool cs. case decompile ops pool of None \<Rightarrow> None | Some t \<Rightarrow> template_match t cs),
     px_AnnotateContext = (\<lambda>_ _. Inr ()), px_Call = (\<lambda>rpc m s. (Inr [], s\<lparr>users := []\<rparr>)),
     px_HTTPError = (\<lambda>r e. http_Error ''error'' 500), px_Forward = (\<lambda>r m. \<lparr>rs_Status = 200, rs_Body = ''{}''\<rparr>)\<rparr>"

definition first_match :: "'s proxy_lib \<Rightarrow> 's route list \<Rightarrow> http_request \<Rightarrow> ('s route \<times> params) option" where
  "first_match P routes r =
     (case path_segments (rq_Path r) of
        None \<Rightarrow> None
      | Some cs \<Rightarrow>
          (case find (\<lambda>rte. rq_Method r = rte_Method rte \<and> px_Match P (rte_Ops rte) (rte_Pool rte) cs \<noteq> None) routes of
             None \<Rightarrow> None
           | Some rte \<Rightarrow> map_option (Pair rte) (px_Match P (rte_Ops rte) (rte_Pool rte) cs)))"

definition sample_mux :: "'s proxy_lib \<Rightarrow> 's route list \<Rightarrow> 's http_handler" where
  "sample_mux P routes r =
     (case first_match P routes r of
        None \<Rightarrow> go_return (http_Error ''Not Found'' 404)
      | Some (rte, ps) \<Rightarrow> route_handler P rte ps r)"

lemma sample_px_law: "match_law sample_px"
  by (simp add: match_law_def sample_px_def)

lemma sample_mux_law: "mux_law P routes (sample_mux P routes)"
  unfolding mux_law_def
proof (intro allI)
  fix r s
  show "(\<exists>resp. sample_mux P routes r s = (Inr resp, s))
    \<or> (\<exists>rte \<in> set routes. \<exists>ps. route_matches P rte r ps \<and> sample_mux P routes r s = route_handler P rte ps r s)"
  proof (cases "first_match P routes r")
    case None
    then show ?thesis by (simp add: sample_mux_def go_return_def)
  next
    case (Some m)
    then obtain rte ps where m: "m = (rte, ps)" by (cases m)
    have "rte \<in> set routes \<and> route_matches P rte r ps"
      using Some unfolding m first_match_def route_matches_def
      by (auto simp: find_Some_iff split: option.splits)
    then show ?thesis using Some m by (auto simp: sample_mux_def)
  qed
qed

definition sample_request :: "string \<Rightarrow> http_request" where
  "sample_request path =
     \<lparr>rq_Method = ''POST'', rq_Path = path, rq_Query = '''', rq_Body = ''{}'', rq_Header = [], rq_User = None\<rparr>"


end
