(* ===== verification/LocalRoutes.thy ===== *)
theory LocalRoutes
  imports Routes
begin

text \<open>
  The in-process half of \<open>api/proto/*/v1/*.pb.gw.go\<close>: the same routes, registered over an implementation of a
  service in the same process (\<open>Register*HandlerServer\<close>, \<open>local_request_*\<close>) where \<open>Routes\<close> has those over a
  gRPC connection. Nothing in the repository registers them; they are shown to answer as the others do
  when the implementation is what the connection leads to.
\<close>

text \<open>The methods of a service, by their full names, as the generated server interface has them.\<close>

type_synonym 's server = "string \<Rightarrow> message \<Rightarrow> ('s, message) go"
type_synonym 's local_request_fn = "'s server \<Rightarrow> 's request_fn"

section \<open>The requests (identity)\<close>

definition local_request_IdentityService_Register :: "'s local_request_fn" where
  "local_request_IdentityService_Register server P r ps =
     go_bind (decode_body P r) (server ''/fintech.identity.v1.IdentityService/Register'')"

definition local_request_IdentityService_Login :: "'s local_request_fn" where
  "local_request_IdentityService_Login server P r ps =
     go_bind (decode_body P r) (server ''/fintech.identity.v1.IdentityService/Login'')"

definition local_request_IdentityService_RefreshToken :: "'s local_request_fn" where
  "local_request_IdentityService_RefreshToken server P r ps =
     go_bind (decode_body P r) (server ''/fintech.identity.v1.IdentityService/RefreshToken'')"

definition local_request_IdentityService_Logout :: "'s local_request_fn" where
  "local_request_IdentityService_Logout server P r ps =
     go_bind (decode_body P r) (server ''/fintech.identity.v1.IdentityService/Logout'')"

section \<open>The requests (wallet)\<close>

definition local_request_WalletService_CreateWallet :: "'s local_request_fn" where
  "local_request_WalletService_CreateWallet server P r ps =
     go_bind (decode_body P r) (server ''/fintech.wallet.v1.WalletService/CreateWallet'')"

definition local_request_WalletService_GetBalance :: "'s local_request_fn" where
  "local_request_WalletService_GetBalance server P r ps =
     go_bind (path_param ''wallet_id'' ps []) (server ''/fintech.wallet.v1.WalletService/GetBalance'')"

definition local_request_WalletService_Deposit :: "'s local_request_fn" where
  "local_request_WalletService_Deposit server P r ps =
     go_bind (decode_body P r) (\<lambda>m.
     go_bind (path_param ''wallet_id'' ps m) (server ''/fintech.wallet.v1.WalletService/Deposit''))"

definition local_request_WalletService_Withdraw :: "'s local_request_fn" where
  "local_request_WalletService_Withdraw server P r ps =
     go_bind (decode_body P r) (\<lambda>m.
     go_bind (path_param ''wallet_id'' ps m) (server ''/fintech.wallet.v1.WalletService/Withdraw''))"

section \<open>The requests (transaction)\<close>

definition local_request_TransactionService_InitiateTransfer :: "'s local_request_fn" where
  "local_request_TransactionService_InitiateTransfer server P r ps =
     go_bind (decode_body P r) (server ''/fintech.transaction.v1.TransactionService/InitiateTransfer'')"

definition local_request_TransactionService_GetTransaction :: "'s local_request_fn" where
  "local_request_TransactionService_GetTransaction server P r ps =
     go_bind (path_param ''transaction_id'' ps []) (server ''/fintech.transaction.v1.TransactionService/GetTransaction'')"

section \<open>The requests (query)\<close>

definition local_request_QueryService_GetBalance :: "'s local_request_fn" where
  "local_request_QueryService_GetBalance server P r ps =
     go_bind (path_param ''wallet_id'' ps []) (server ''/fintech.query.v1.QueryService/GetBalance'')"

definition local_request_QueryService_GetStatement :: "'s local_request_fn" where
  "local_request_QueryService_GetStatement server P r ps =
     go_bind (path_param ''wallet_id'' ps []) (\<lambda>m.
     go_bind (query_params P r [''wallet_id''] m) (server ''/fintech.query.v1.QueryService/GetStatement''))"

definition local_request_QueryService_GetUserStats :: "'s local_request_fn" where
  "local_request_QueryService_GetUserStats server P r ps =
     go_bind (path_param ''user_id'' ps []) (server ''/fintech.query.v1.QueryService/GetUserStats'')"

section \<open>The routes\<close>

text \<open>
  The handler of a route. The context is annotated by another function of the library, \<open>annotate\<close>, which
  puts the headers where a server reads them.
\<close>

definition local_route_handler ::
  "'s proxy_lib \<Rightarrow> (http_request \<Rightarrow> string \<Rightarrow> goerr + unit) \<Rightarrow> 's route \<Rightarrow> params \<Rightarrow> 's http_handler"
where
  "local_route_handler P annotate rte ps r =
     (case annotate r (rte_RPC rte) of
        Inl err \<Rightarrow> go_return (px_HTTPError P r err)
      | Inr _ \<Rightarrow>
          go_bind (go_try (rte_Request rte P r ps)) (\<lambda>res.
          case res of
            Inl err \<Rightarrow> go_return (px_HTTPError P r err)
          | Inr resp \<Rightarrow> go_return (px_Forward P r resp)))"

definition RegisterIdentityServiceHandlerServer :: "'s server \<Rightarrow> 's route list" where
  "RegisterIdentityServiceHandlerServer server =
     [post [2, 0, 2, 1, 2, 2] [''v1'', ''auth'', ''register''] ''/fintech.identity.v1.IdentityService/Register''
        (local_request_IdentityService_Register server),
      post [2, 0, 2, 1, 2, 2] [''v1'', ''auth'', ''login''] ''/fintech.identity.v1.IdentityService/Login''
        (local_request_IdentityService_Login server),
      post [2, 0, 2, 1, 2, 2] [''v1'', ''auth'', ''refresh''] ''/fintech.identity.v1.IdentityService/RefreshToken''
        (local_request_IdentityService_RefreshToken server),
      post [2, 0, 2, 1, 2, 2] [''v1'', ''auth'', ''logout''] ''/fintech.identity.v1.IdentityService/Logout''
        (local_request_IdentityService_Logout server)]"

definition RegisterWalletServiceHandlerServer :: "'s server \<Rightarrow> 's route list" where
  "RegisterWalletServiceHandlerServer server =
     [post [2, 0, 2, 1] [''v1'', ''wallets''] ''/fintech.wallet.v1.WalletService/CreateWallet''
        (local_request_WalletService_CreateWallet server),
      get [2, 0, 2, 1, 1, 0, 4, 1, 5, 2, 2, 3] [''v1'', ''wallets'', ''wallet_id'', ''balance'']
        ''/fintech.wallet.v1.WalletService/GetBalance'' (local_request_WalletService_GetBalance server),
      post [2, 0, 2, 1, 1, 0, 4, 1, 5, 2, 2, 3] [''v1'', ''wallets'', ''wallet_id'', ''deposit'']
        ''/fintech.wallet.v1.WalletService/Deposit'' (local_request_WalletService_Deposit server),
      post [2, 0, 2, 1, 1, 0, 4, 1, 5, 2, 2, 3] [''v1'', ''wallets'', ''wallet_id'', ''withdraw'']
        ''/fintech.wallet.v1.WalletService/Withdraw'' (local_request_WalletService_Withdraw server)]"

definition RegisterTransactionServiceHandlerServer :: "'s server \<Rightarrow> 's route list" where
  "RegisterTransactionServiceHandlerServer server =
     [post [2, 0, 2, 1, 2, 2] [''v1'', ''transactions'', ''transfer'']
        ''/fintech.transaction.v1.TransactionService/InitiateTransfer'' (local_request_TransactionService_InitiateTransfer server),
      get [2, 0, 2, 1, 1, 0, 4, 1, 5, 2] [''v1'', ''transactions'', ''transaction_id'']
        ''/fintech.transaction.v1.TransactionService/GetTransaction'' (local_request_TransactionService_GetTransaction server)]"

definition RegisterQueryServiceHandlerServer :: "'s server \<Rightarrow> 's route list" where
  "RegisterQueryServiceHandlerServer server =
     [get [2, 0, 2, 1, 2, 2, 1, 0, 4, 1, 5, 3, 2, 4] [''v1'', ''query'', ''wallets'', ''wallet_id'', ''balance'']
        ''/fintech.query.v1.QueryService/GetBalance'' (local_request_QueryService_GetBalance server),
      get [2, 0, 2, 1, 2, 2, 1, 0, 4, 1, 5, 3, 2, 4] [''v1'', ''query'', ''wallets'', ''wallet_id'', ''statement'']
        ''/fintech.query.v1.QueryService/GetStatement'' (local_request_QueryService_GetStatement server),
      get [2, 0, 2, 1, 2, 2, 1, 0, 4, 1, 5, 3, 2, 4] [''v1'', ''query'', ''users'', ''user_id'', ''stats'']
        ''/fintech.query.v1.QueryService/GetUserStats'' (local_request_QueryService_GetUserStats server)]"

definition local_routes :: "'s server \<Rightarrow> 's route list" where
  "local_routes server = RegisterIdentityServiceHandlerServer server @ RegisterWalletServiceHandlerServer server
     @ RegisterTransactionServiceHandlerServer server @ RegisterQueryServiceHandlerServer server"

section \<open>The two halves agree\<close>

lemmas request_defs =
  request_IdentityService_Register_def request_IdentityService_Login_def request_IdentityService_RefreshToken_def
  request_IdentityService_Logout_def request_WalletService_CreateWallet_def request_WalletService_GetBalance_def
  request_WalletService_Deposit_def request_WalletService_Withdraw_def request_TransactionService_InitiateTransfer_def
  request_TransactionService_GetTransaction_def request_QueryService_GetBalance_def
  request_QueryService_GetStatement_def request_QueryService_GetUserStats_def

lemmas local_request_defs =
  local_request_IdentityService_Register_def local_request_IdentityService_Login_def
  local_request_IdentityService_RefreshToken_def local_request_IdentityService_Logout_def
  local_request_WalletService_CreateWallet_def local_request_WalletService_GetBalance_def
  local_request_WalletService_Deposit_def local_request_WalletService_Withdraw_def
  local_request_TransactionService_InitiateTransfer_def local_request_TransactionService_GetTransaction_def
  local_request_QueryService_GetBalance_def local_request_QueryService_GetStatement_def
  local_request_QueryService_GetUserStats_def

lemmas local_route_defs = local_routes_def RegisterIdentityServiceHandlerServer_def RegisterWalletServiceHandlerServer_def
  RegisterTransactionServiceHandlerServer_def RegisterQueryServiceHandlerServer_def post_def get_def

text \<open>The two routes are for the same requests and the same method.\<close>

definition same_route :: "'s route \<Rightarrow> 's route \<Rightarrow> bool" where
  "same_route l c \<longleftrightarrow> rte_Method l = rte_Method c \<and> rte_Ops l = rte_Ops c \<and> rte_Pool l = rte_Pool c \<and> rte_RPC l = rte_RPC c"

text \<open>The request functions of a route differ in whom they call only.\<close>

definition same_request :: "'s proxy_lib \<Rightarrow> 's route \<Rightarrow> 's route \<Rightarrow> bool" where
  "same_request P l c \<longleftrightarrow> (\<forall>r ps. rte_Request l P r ps = rte_Request c P r ps)"

lemma local_routes_pairs:
  "list_all2 (\<lambda>l c. same_route l c \<and> same_request P l c) (local_routes (px_Call P)) gateway_routes"
  by (simp add: local_route_defs route_defs same_route_def same_request_def local_request_defs request_defs)

lemma routes_length: "length (local_routes server) = 13" "length gateway_routes = 13"
  by (simp_all add: local_route_defs route_defs)

text \<open>A call is by the name of its own route: the implementation matters at that name only.\<close>

lemma local_request_own_method:
  assumes "l \<in> set (local_routes server)" and "l' \<in> set (local_routes server')" and "rte_RPC l = rte_RPC l'"
    and "server (rte_RPC l) = server' (rte_RPC l)"
  shows "rte_Request l P r ps = rte_Request l' P r ps"
  using assms by (simp add: local_route_defs) (elim disjE; clarsimp simp: local_request_defs)

text \<open>
  Registered over an implementation that answers each method as the connection does, with a context
  that is refused when the other is, every route's handler is the gateway's.
\<close>

lemma local_half_agrees:
  fixes P :: "'s proxy_lib"
  assumes "\<And>rpc. rpc \<in> rte_RPC ` set (gateway_routes :: 's route list) \<Longrightarrow> server rpc = px_Call P rpc"
    and "\<And>r rpc. annotate r rpc = px_AnnotateContext P r rpc"
  shows "list_all2 (\<lambda>l c. same_route l c \<and> (\<forall>ps r. local_route_handler P annotate l ps r = route_handler P c ps r))
    (local_routes server) gateway_routes"
proof (rule list_all2_all_nthI)
  show "length (local_routes server) = length gateway_routes" by (simp add: routes_length)
  fix i
  assume "i < length (local_routes server)"
  then have i: "i < length (local_routes server)" "i < length (local_routes (px_Call P))" "i < length (gateway_routes :: 's route list)"
    by (simp_all add: routes_length)
  let ?l = "local_routes server ! i" and ?l' = "local_routes (px_Call P) ! i" and ?c = "(gateway_routes :: 's route list) ! i"
  have pair: "same_route ?l' ?c" "same_request P ?l' ?c"
    using list_all2_nthD [OF local_routes_pairs i(2)] by blast+
  have "list_all2 same_route (local_routes server) (local_routes (px_Call P))"
    by (simp add: local_route_defs same_route_def)
  then have same: "same_route ?l ?l'" using i(1) by (rule list_all2_nthD)
  then have rpc: "rte_RPC ?l = rte_RPC ?l'" "rte_RPC ?l = rte_RPC ?c" using pair(1) by (simp_all add: same_route_def)
  have "rte_RPC ?l \<in> rte_RPC ` set (gateway_routes :: 's route list)" unfolding rpc(2) using i(3) by simp
  then have "rte_Request ?l P r ps = rte_Request ?l' P r ps" for r ps
    by (intro local_request_own_method [OF nth_mem [OF i(1)] nth_mem [OF i(2)] rpc(1)] assms(1))
  then have req: "rte_Request ?l P r ps = rte_Request ?c P r ps" for r ps using pair(2) by (simp add: same_request_def)
  have "local_route_handler P annotate ?l ps r = route_handler P ?c ps r" for ps r
    unfolding local_route_handler_def route_handler_def assms(2) rpc(2) req ..
  then show "same_route ?l ?c \<and> (\<forall>ps r. local_route_handler P annotate ?l ps r = route_handler P ?c ps r)"
    using same pair(1) by (simp add: same_route_def)
qed

end
