(* ===== verification/Spec2Isabelle.thy ===== *)
theory Spec2Isabelle
  imports WalletLinearize TransferFlow Consumer TransactionTables QueryCorrect FraudCorrect Notification GatewayCorrect
    Logger LocalRoutes
begin

text \<open>
  A verification library of the fintech platform: seven Go services that talk over gRPC and Kafka. A
  request enters through the gateway, which authenticates it; the identity service keeps users and
  sessions; the wallet service keeps every wallet as a log of events; the transaction service starts
  and ends transfers and asks the fraud service about them; what happened travels from the outbox
  tables over Kafka to the wallet's saga handler, the query service (read models), the notification
  service and the fraud profiles.

  Conventions (\<open>Prelude\<close>, \<open>Errors\<close>). A Go function is a state-and-error function \<open>('s, 'a) go\<close> that keeps
  the state on the error branch. The environment is in the record \<open>rt\<close>: identifiers to draw, clock,
  outcome of each database call, text forms of identifiers and times; all are arbitrary functions of a
  call counter, so a theorem that does not mention them holds for every clock and every pattern of
  failures, failures after the effect (lost answers) included. A database call may fail before or
  after it took effect. \<open>int64\<close> is \<open>64 word\<close>, read with \<open>sint\<close>, and wraps around. Interfaces of the
  source are records of operations; the contracts are locales, each interpreted on the PostgreSQL
  adapters. \<open>Json\<close> models \<open>encoding/json\<close> over parsed documents, \<open>Sql\<close> the calls of \<open>database/sql\<close> over
  tables as lists of rows with the constraints of the migrations.

  Theories and sources (paths under \<open>src/services\<close> unless they start with \<open>pkg\<close>).

  \<^item> \<open>Errors\<close>: \<open>pkg/errors/errors.go\<close>.
  \<^item> \<open>WalletDomain\<close>, \<open>WalletRepository\<close>: \<open>wallet/internal/domain\<close>; \<open>WalletService\<close>: \<open>wallet_service.go\<close>;
    \<open>WalletPostgres\<close>: \<open>event_store.go\<close>, \<open>outbox_repo.go\<close>; \<open>WalletCorrect\<close>: the service on its tables;
    \<open>WalletConcurrency\<close>: \<open>AppendEvents\<close> of many callers, statement by statement; \<open>WalletFleet\<close>,
    \<open>WalletLinearize\<close>: whole calls of the service, many at once; \<open>WalletSaga\<close>: \<open>saga_handler.go\<close>.
  \<^item> \<open>Outbox\<close>, \<open>OutboxWorker\<close>: the outbox rows and \<open>outbox_worker.go\<close> of the wallet and the transaction
    service, which have the same code, with \<open>pkg/breaker\<close>; \<open>Consumer\<close>: \<open>pkg/kafka/consumer.go\<close>.
  \<^item> \<open>TransactionDomain\<close>, \<open>TransactionPostgres\<close>, \<open>TransactionService\<close>, \<open>TransactionRaces\<close>:
    \<open>transaction/internal\<close>, with the client of the fraud service; \<open>TransactionTables\<close>: the type of the stored
    rows, and its \<open>outbox_worker.go\<close> as the constructor makes it; \<open>TransferFlow\<close>: a transfer from the request
    through the outbox and Kafka to the wallets.
  \<^item> \<open>QueryProjections\<close>, \<open>QueryService\<close>, \<open>QueryCorrect\<close>: \<open>query/internal\<close>.
  \<^item> \<open>FraudService\<close>, \<open>FraudCorrect\<close>: \<open>fraud/internal\<close>; \<open>Notification\<close>: \<open>notification/internal\<close>.
  \<^item> \<open>Identity\<close>, \<open>AuthService\<close>, \<open>AuthCorrect\<close>: \<open>identity/internal\<close>; \<open>Gateway\<close>, \<open>GatewayCorrect\<close>:
    \<open>gateway/internal/middleware\<close> and the secrets of the two mains; \<open>Routes\<close>: the HTTP routes of
    \<open>api/proto/*/v1/*.pb.gw.go\<close> behind them, \<open>LocalRoutes\<close>: their in-process half;
    \<open>Middleware\<close>: \<open>pkg/middleware/grpc.go\<close>.
  \<^item> \<open>Server\<close>: \<open>Run\<close> of \<open>pkg/server/server.go\<close>; \<open>Mains\<close>: the seven \<open>cmd/server/main.go\<close>, the gateway's
    \<open>router.go\<close> and the set-up of \<open>pkg/logger\<close>, \<open>pkg/tracing\<close>, \<open>pkg/metrics\<close>;
    \<open>Logger\<close>: the rest of \<open>pkg/logger\<close>.

  What is shown.

  \<^item> Wallet: replaying the log gives the state; no withdrawal or positive reservation overdraws; every
    operation, under any failures, keeps the log well formed and refines an abstract account
    (\<open>wallet_cmd\<close> and \<open>spec_update\<close> of \<open>WalletService\<close>): it did the command or nothing, and an answer means it
    did it. Snapshots are invisible. Any number of calls at once, on any instances, with any failures, is
    linearizable: the accounts are those of the calls that took effect made one after the other, in an
    order that respects which returned before which began; so no interleaving overdraws a wallet. Where the code leaves its purpose (a deposit past \<open>2^63\<close>, a negative
    reservation) a theorem says so.
  \<^item> Messages: the outbox worker publishes in order, marks only what was published, and empties the table
    once publishing works; a consumer skips a refused record when a later one of its batch is
    accepted; the saga handler, the query service and the notification service handle an event they
    remember once, and what happens when a write in between fails is stated for each.
  \<^item> Transfers: what a call can do to the two tables, idempotency by key, progress of the status; and
    the consequences of the two tables being written one after the other and of the unconditional update;
    what becomes of the money when the events of a transfer reach the wallets.
  \<^item> Read side: each event folded in once, projected balances equal the wallets' along any log, pages of
    the statement fit together; what becomes of the events the saga really sends.
  \<^item> Fraud: the decision as arithmetic, the profile read back as it was written, and how little of it
    reaches a transfer.
  \<^item> Identity and gateway: distinct e-mails, sign-in after registration, what a validated, refreshed or
    revoked token stands for, what the gateway lets through, and which of the identity service's tokens
    it accepts; the rate limit; which
    calls a request leads to, and for whom; both halves of the proxies agree; the interceptors are transparent and stop panics.
  \<^item> Processes: a shutdown ends within its timeout; what each main opens, closes and serves; where the
    gateway's proxies go.

  Bounds. Recursion over batches, logs and pages is structural. The two endless loops, \<open>OutboxWorker_Run\<close>
  and \<open>Consumer_Run\<close>, take the number of ticks and the list of polled batches, one iteration for each, until
  the context is cancelled, so every finite run of the source is one of theirs. The version of a wallet
  is assumed to fit the column only where a theorem promises an answer.

  Parameters and their laws, each with a concrete instance in the witnesses: the Kafka client, the
  circuit breaker and the retry policy (\<open>produce_law\<close>, \<open>execute_law\<close>, \<open>retry_law\<close>), the Redis commands
  (\<open>redis_get_law\<close>, \<open>redis_set_law\<close>, \<open>redis_counts\<close>), bcrypt, JWT and the random source (\<open>bcrypt_laws\<close>,
  \<open>jwt_laws\<close>, \<open>rand_laws\<close>), the matching and dispatch of HTTP routes (\<open>match_law\<close>, \<open>mux_law\<close>), the text forms of identifiers and times (\<open>uuid_laws\<close>, \<open>time_laws\<close>), the text
  of a gRPC status error, the logger and the tracer.

  Not modelled. The generated protocol code (\<open>api/proto\<close>) but for the routes: the messages the services
  read or fill are records of the services. The settings given to zap, Prometheus, OpenTelemetry and the
  HTTP server, which decide nothing the services do. Statements of different callers are interleaved in
  the wallet service, whose version check is there for it; the number of calls there is a parameter \<open>n\<close>
  that, added to the length of a log, stays below \<open>2^63\<close>. Elsewhere one handler runs at a time, with a
  stale read where a theorem needs one (\<open>TransactionRaces\<close>). In \<open>Server\<close> the clock stands still while the
  caller of \<open>Run\<close> can take a step: the bound on a shutdown leaves out what scheduling adds.
\<close>

end
